(* ===== verification/JsPrelude.thy ===== *)
theory JsPrelude
  imports Main "HOL-Library.Word"
begin

text \<open>
  The part of the JavaScript language and library that the browser scripts use: strings as lists
  of UTF-16 code units, the values that \<^verbatim>\<open>JSON.parse\<close> produces, truthiness, property access,
  conversion to a string, and the string methods \<^verbatim>\<open>trim\<close>, \<^verbatim>\<open>toLowerCase\<close>, \<^verbatim>\<open>split\<close>. Everything the
  component theories share (literals, errors, lookup with a default) is here, with the rewrite
  rules that let their proofs run by simplification.
\<close>

section \<open>Strings\<close>

text \<open>A JavaScript string is a sequence of 16-bit code units.\<close>

type_synonym jchar = "16 word"
type_synonym jstr = "16 word list"

text \<open>An ASCII literal of the source, as code units.\<close>

definition js :: "string \<Rightarrow> jstr" where
  "js s = map (\<lambda>c. word_of_nat (of_char c)) s"

named_theorems literal_simps \<open>rewriting of string literals\<close>

text \<open>What the functions of both sides do to an ASCII literal, reduced to its characters.\<close>

named_theorems text_literals \<open>functions on ASCII literals\<close>

lemma of_char_less_256: "(of_char c :: nat) < 256"
  by (rule nat_of_char_less_256)

lemma unat_code_unit: "unat (word_of_nat (of_char c) :: jchar) = of_char c"
proof -
  have "(of_char c :: nat) mod 2 ^ 16 = of_char c"
    by (rule mod_less) (rule less_le_trans [OF of_char_less_256], simp)
  then show ?thesis by (simp only: unat_of_nat len_num1 len_num0 len_bit0 len_bit1) simp
qed

lemma code_unit_eq: "(word_of_nat (of_char c) :: jchar) = n \<longleftrightarrow> of_char c = unat n"
  by (metis unat_code_unit word_unat_eq_iff)

lemmas code_unit_simps = unat_code_unit code_unit_eq word_le_nat_alt word_less_nat_alt

lemma code_unit_inject:
  "(word_of_nat (of_char c) :: jchar) = word_of_nat (of_char d) \<longleftrightarrow> c = d"
  by (simp add: code_unit_eq unat_code_unit)

lemma js_inject [simp]: "js s = js t \<longleftrightarrow> s = t"
proof -
  have "inj (\<lambda>c. word_of_nat (of_char c) :: jchar)"
    by (auto simp: inj_def code_unit_inject)
  then show ?thesis by (simp add: js_def inj_map_eq_map)
qed

lemma js_Nil [simp]: "js [] = []"
  by (simp add: js_def)

lemma js_eq_Nil [simp]: "js s = [] \<longleftrightarrow> s = []" "[] = js s \<longleftrightarrow> s = []"
  by (auto simp: js_def)

lemma length_js [simp]: "length (js s) = length s"
  by (simp add: js_def)

lemma drop_js [simp]: "drop n (js s) = js (drop n s)"
  by (simp add: js_def drop_map)

lemma js_append [literal_simps]: "js s @ js t = js (s @ t)"
  by (simp add: js_def)

text \<open>\<^verbatim>\<open>a || b\<close> on strings, where an absent attribute is \<open>None\<close>.\<close>

definition or_default :: "jstr option \<Rightarrow> jstr \<Rightarrow> jstr" where
  "or_default v d = (case v of None \<Rightarrow> d | Some s \<Rightarrow> if s = [] then d else s)"

lemma or_default_simps [simp]:
  "or_default None d = d"
  "or_default (Some []) d = d"
  "s \<noteq> [] \<Longrightarrow> or_default (Some s) d = s"
  by (simp_all add: or_default_def)

lemma or_default_nonempty: "d \<noteq> [] \<Longrightarrow> or_default v d \<noteq> []"
  by (auto simp: or_default_def split: option.splits)

text \<open>\<^verbatim>\<open>String(value || "")\<close> for a value that is a string or missing.\<close>

definition string_or_empty :: "jstr option \<Rightarrow> jstr" where
  "string_or_empty v = or_default v []"

text \<open>White space and line terminators of \<^verbatim>\<open>String.prototype.trim\<close>.\<close>

definition is_white :: "jchar \<Rightarrow> bool" where
  "is_white c \<longleftrightarrow> c \<in> set [0x9, 0xA, 0xB, 0xC, 0xD, 0x20, 0xA0, 0x1680, 0x2028, 0x2029, 0x202F,
     0x205F, 0x3000, 0xFEFF] \<or> (0x2000 \<le> c \<and> c \<le> 0x200A)"

definition trim :: "jstr \<Rightarrow> jstr" where
  "trim s = rev (dropWhile is_white (rev (dropWhile is_white s)))"

lemma trim_id: "\<forall>c \<in> set s. \<not> is_white c \<Longrightarrow> trim s = s"
proof -
  assume a: "\<forall>c \<in> set s. \<not> is_white c"
  have keep: "dropWhile is_white t = t" if "\<forall>c \<in> set t. \<not> is_white c" for t
    using that by (cases t) auto
  have "dropWhile is_white (rev s) = rev s" by (rule keep) (simp add: a)
  with keep [OF a] show ?thesis by (simp add: trim_def)
qed

lemma dropWhile_idem: "dropWhile P (dropWhile P xs) = dropWhile P xs"
  by (induction xs) auto

lemma dropWhile_rev_dropWhile_rev:
  assumes "dropWhile P xs = xs"
  shows "dropWhile P (rev (dropWhile P (rev xs))) = rev (dropWhile P (rev xs))"
proof (cases "rev (dropWhile P (rev xs))")
  case (Cons y ys)
  have "xs = rev (dropWhile P (rev xs)) @ rev (takeWhile P (rev xs))"
    by (metis rev_append rev_rev_ident takeWhile_dropWhile_id)
  with Cons obtain zs where "xs = y # zs" by simp
  with assms have "\<not> P y" by (metis dropWhile_eq_Cons_conv list.inject)
  then show ?thesis by (simp add: Cons)
next
  case Nil
  then show ?thesis by (simp only: dropWhile.simps)
qed

lemma trim_trim [simp]: "trim (trim s) = trim s"
proof -
  let ?t = "dropWhile is_white s"
  have "dropWhile is_white (trim s) = trim s"
    unfolding trim_def by (rule dropWhile_rev_dropWhile_rev) (rule dropWhile_idem)
  then show ?thesis by (simp add: trim_def dropWhile_idem)
qed

lemma trim_Nil [simp]: "trim [] = []"
  by (simp add: trim_def)

lemma set_trim: "set (trim s) \<subseteq> set s"
proof -
  have "set (trim s) \<subseteq> set (dropWhile is_white s)"
    unfolding trim_def using set_dropWhileD by fastforce
  then show ?thesis using set_dropWhileD by fast
qed

text \<open>
  \<^verbatim>\<open>toLowerCase\<close>: exact on ASCII and Latin-1 and on the two other characters whose lower case has
  an ASCII character in it (the Kelvin sign and the dotted capital I); other characters are kept.
  The scripts compare lower-cased text only with lower-cased ASCII names, so the cases left out
  cannot be told apart by them.
\<close>

definition lower_units :: "jchar \<Rightarrow> jstr" where
  "lower_units c =
     (if 0x41 \<le> c \<and> c \<le> 0x5A then [c + 32]
      else if c = 0x212A then [0x6B]
      else if c = 0x130 then [0x69, 0x307]
      else if 0xC0 \<le> c \<and> c \<le> 0xDE \<and> c \<noteq> 0xD7 then [c + 32]
      else [c])"

definition to_lower :: "jstr \<Rightarrow> jstr" where
  "to_lower s = concat (map lower_units s)"

lemma to_lower_append: "to_lower (s @ t) = to_lower s @ to_lower t"
  by (simp add: to_lower_def)

lemma lower_units_nonempty: "lower_units c \<noteq> []"
  by (simp add: lower_units_def)

lemma to_lower_eq_Nil [simp]: "to_lower s = [] \<longleftrightarrow> s = []"
  by (cases s) (auto simp: to_lower_def lower_units_nonempty)

text \<open>
  \<^verbatim>\<open>toUpperCase\<close> of one code unit: exact on Latin-1, other characters are kept. It is only applied to the
  first letter of a theme, which the server takes from a list of ASCII names.
\<close>

definition upper_units :: "jchar \<Rightarrow> jstr" where
  "upper_units c =
     (if 0x61 \<le> c \<and> c \<le> 0x7A then [c - 32]
      else if c = 0xB5 then [0x39C]
      else if c = 0xDF then [0x53, 0x53]
      else if 0xE0 \<le> c \<and> c \<le> 0xFE \<and> c \<noteq> 0xF7 then [c - 32]
      else if c = 0xFF then [0x178]
      else [c])"

lemmas unit_nat = word_le_nat_alt word_less_nat_alt word_unat_eq_iff unat_word_ariths

lemma lower_units_white: "is_white c \<Longrightarrow> lower_units c = [c]"
  by (auto simp: is_white_def lower_units_def word_le_nat_alt)

lemma lower_units_visible:
  assumes "\<not> is_white c" "d \<in> set (lower_units c)"
  shows "\<not> is_white d"
  using assms
  by (auto simp: lower_units_def is_white_def unit_nat split: if_splits)

lemma lower_units_idem: "d \<in> set (lower_units c) \<Longrightarrow> lower_units d = [d]"
  by (auto simp: lower_units_def unit_nat split: if_splits)

lemma dropWhile_concat_map:
  assumes "\<And>c. P c \<Longrightarrow> f c = [c]" and "\<And>c d. \<not> P c \<Longrightarrow> d \<in> set (f c) \<Longrightarrow> \<not> P d" and "\<And>c. f c \<noteq> []"
  shows "dropWhile P (concat (map f s)) = concat (map f (dropWhile P s))"
proof (induction s)
  case (Cons c s)
  show ?case
  proof (cases "P c")
    case False
    then obtain d ds where "f c = d # ds" using assms(3) [of c] by (cases "f c") auto
    with False assms(2) [of c d] show ?thesis by simp
  qed (simp add: assms(1) Cons)
qed simp

lemma trim_to_lower: "trim (to_lower s) = to_lower (trim s)"
proof -
  have rev_lower: "rev (to_lower t) = concat (map (\<lambda>c. rev (lower_units c)) (rev t))" for t
    by (simp add: to_lower_def rev_concat rev_map comp_def)
  have front: "dropWhile is_white (to_lower t) = to_lower (dropWhile is_white t)" for t
    unfolding to_lower_def
    by (rule dropWhile_concat_map) (auto simp: lower_units_white lower_units_nonempty dest: lower_units_visible)
  have behind: "dropWhile is_white (rev (to_lower t)) =
      concat (map (\<lambda>c. rev (lower_units c)) (dropWhile is_white (rev t)))" for t
    unfolding rev_lower
    by (rule dropWhile_concat_map) (auto simp: lower_units_white lower_units_nonempty dest: lower_units_visible)
  show ?thesis
    by (simp add: trim_def front behind) (simp add: to_lower_def rev_concat rev_map comp_def)
qed

lemma to_lower_to_lower [simp]: "to_lower (to_lower s) = to_lower s"
proof -
  have "concat (map lower_units ds) = ds" if "\<forall>d \<in> set ds. lower_units d = [d]" for ds
    using that by (induction ds) auto
  then have "concat (map lower_units (lower_units c)) = lower_units c" for c
    using lower_units_idem by blast
  then show ?thesis by (induction s) (simp_all add: to_lower_def)
qed

text \<open>\<^verbatim>\<open>s.includes(c)\<close> and \<^verbatim>\<open>s.split(c).pop()\<close> for a one-character separator.\<close>

definition includes_char :: "jstr \<Rightarrow> jchar \<Rightarrow> bool" where
  "includes_char s c \<longleftrightarrow> c \<in> set s"

definition split_last :: "jchar \<Rightarrow> jstr \<Rightarrow> jstr" where
  "split_last c s = rev (takeWhile (\<lambda>x. x \<noteq> c) (rev s))"

lemma split_last_append:
  "c \<notin> set t \<Longrightarrow> split_last c (s @ c # t) = t"
proof -
  assume "c \<notin> set t"
  then have "takeWhile (\<lambda>x. x \<noteq> c) (rev t @ c # rev s) = rev t"
    by (subst takeWhile_append2) auto
  then show ?thesis by (simp add: split_last_def)
qed

section \<open>Numbers as text\<close>

fun nat_digits :: "nat \<Rightarrow> jstr" where
  "nat_digits n = (if n < 10 then [word_of_nat (48 + n)]
     else nat_digits (n div 10) @ [word_of_nat (48 + n mod 10)])"

declare nat_digits.simps [simp del]

lemma nat_digits_nonempty [simp]: "nat_digits n \<noteq> []"
  by (subst nat_digits.simps) simp

text \<open>
  A number is a decimal: the mantissa \<open>m\<close> and the number \<open>e\<close> of digits after the point, that is
  \<open>m / 10 ^ e\<close>, normalised so that a positive \<open>e\<close> comes with a mantissa not divisible by ten. It stands for
  the double whose shortest decimal it is (\<open>JsNumber\<close>), and \<^verbatim>\<open>Number::toString\<close> writes that decimal: with an
  exponent from \<open>10 ^ 21\<close> on and below \<open>10 ^ -6\<close>.
\<close>

definition plain_text :: "nat \<Rightarrow> jstr \<Rightarrow> jstr" where
  "plain_text e digits =
     (let padded = replicate (Suc e - length digits) 48 @ digits; cut = length padded - e
      in if e = 0 then digits else take cut padded @ js ''.'' @ drop cut padded)"

definition strip_zeros :: "jstr \<Rightarrow> jstr" where
  "strip_zeros s = rev (dropWhile (\<lambda>c. c = 48) (rev s))"

definition exponent_text :: "jstr \<Rightarrow> int \<Rightarrow> jstr" where
  "exponent_text digits n =
     (let s = strip_zeros digits; x = n - 1
      in take 1 s @ (if tl s = [] then [] else js ''.'' @ tl s) @ js ''e'' @
         (if x < 0 then js ''-'' else js ''+'') @ nat_digits (nat \<bar>x\<bar>))"

definition num_text :: "int \<Rightarrow> nat \<Rightarrow> jstr" where
  "num_text m e =
     (let digits = nat_digits (nat \<bar>m\<bar>); n = int (length digits) - int e
      in (if m < 0 then js ''-'' else []) @
         (if m \<noteq> 0 \<and> (21 < n \<or> n \<le> -6) then exponent_text digits n else plain_text e digits))"

section \<open>Values\<close>

text \<open>
  What \<^verbatim>\<open>JSON.parse\<close> and \<^verbatim>\<open>response.json()\<close> return. An object is its list of properties in order,
  with distinct names. A JavaScript value of a script variable is a \<open>json option\<close>, \<open>None\<close> being
  \<^verbatim>\<open>undefined\<close>.
\<close>

datatype json =
    JNull
  | JBool bool
  | JNum int nat
  | JStr jstr
  | JArr "json list"
  | JObj "(jstr \<times> json) list"

type_synonym val = "json option"

datatype js_error = TypeError | Thrown jstr

fun truthy :: "val \<Rightarrow> bool" where
  "truthy None = False"
| "truthy (Some JNull) = False"
| "truthy (Some (JBool b)) = b"
| "truthy (Some (JNum m e)) = (m \<noteq> 0)"
| "truthy (Some (JStr s)) = (s \<noteq> [])"
| "truthy (Some (JArr xs)) = True"
| "truthy (Some (JObj kvs)) = True"

text \<open>\<^verbatim>\<open>a || b\<close>.\<close>

definition or_val :: "val \<Rightarrow> val \<Rightarrow> val" where
  "or_val a b = (if truthy a then a else b)"

text \<open>
  \<^verbatim>\<open>v?.name\<close>: \<^verbatim>\<open>undefined\<close> for \<^verbatim>\<open>null\<close>, \<^verbatim>\<open>undefined\<close> and a missing property. None of the names the
  scripts read is a property of the prototypes of strings, numbers, arrays or objects.
\<close>

fun get_prop :: "val \<Rightarrow> string \<Rightarrow> val" where
  "get_prop (Some (JObj kvs)) k = map_of kvs (js k)"
| "get_prop _ k = None"

text \<open>\<^verbatim>\<open>v.name\<close> raises a TypeError on \<^verbatim>\<open>null\<close> and \<^verbatim>\<open>undefined\<close> only.\<close>

definition nullish :: "val \<Rightarrow> bool" where
  "nullish v \<longleftrightarrow> v = None \<or> v = Some JNull"

lemma nullish_simps [simp]:
  "nullish None" "nullish (Some JNull)" "\<not> nullish (Some (JObj kvs))" "\<not> nullish (Some (JStr s))"
  "\<not> nullish (Some (JBool b))" "\<not> nullish (Some (JArr xs))"
  by (simp_all add: nullish_def)

lemma get_prop_not_nullish: "get_prop v k = Some x \<Longrightarrow> \<not> nullish v"
  by (cases "(v, k)" rule: get_prop.cases) (auto simp: nullish_def)

definition join :: "jstr \<Rightarrow> jstr list \<Rightarrow> jstr" where
  "join sep parts = (case parts of [] \<Rightarrow> [] | p # ps \<Rightarrow> p @ concat (map (\<lambda>q. sep @ q) ps))"

text \<open>\<^verbatim>\<open>String(v)\<close>: elements of an array are joined with commas, \<^verbatim>\<open>null\<close> among them as nothing.\<close>

fun json_string :: "json \<Rightarrow> jstr" where
  "json_string JNull = js ''null''"
| "json_string (JBool b) = (if b then js ''true'' else js ''false'')"
| "json_string (JNum m e) = num_text m e"
| "json_string (JStr s) = s"
| "json_string (JArr xs) =
     join (js '','') (map (\<lambda>x. if x = JNull then [] else json_string x) xs)"
| "json_string (JObj kvs) = js ''[object Object]''"

fun to_string :: "val \<Rightarrow> jstr" where
  "to_string None = js ''undefined''"
| "to_string (Some v) = json_string v"

text \<open>\<^verbatim>\<open>element.textContent = v\<close>: \<^verbatim>\<open>null\<close> and \<^verbatim>\<open>undefined\<close> clear the text.\<close>

definition text_of :: "val \<Rightarrow> jstr" where
  "text_of v = (if nullish v then [] else to_string v)"

lemma text_of_JStr [simp]: "text_of (Some (JStr s)) = s"
  by (simp add: text_of_def)

lemma text_of_None [simp]: "text_of None = []"
  by (simp add: text_of_def)

text \<open>\<^verbatim>\<open>v || "text"\<close> written to \<^verbatim>\<open>textContent\<close>, the pattern of every error message.\<close>

definition message_or :: "val \<Rightarrow> string \<Rightarrow> jstr" where
  "message_or v d = (if truthy v then to_string v else js d)"

lemma message_or_simps [simp]:
  "message_or None d = js d"
  "s \<noteq> [] \<Longrightarrow> message_or (Some (JStr s)) d = s"
  by (simp_all add: message_or_def)

section \<open>Functions on literals\<close>

lemma list_all_js: "list_all P (js s) = list_all (\<lambda>c. P (word_of_nat (of_char c))) s"
  by (simp add: js_def list_all_iff)

lemma trim_js [text_literals]:
  "list_all (\<lambda>c. 32 < (of_char c :: nat) \<and> (of_char c :: nat) < 128) s \<Longrightarrow> trim (js s) = js s"
  by (rule trim_id) (auto simp: js_def list_all_iff is_white_def code_unit_simps)

lemma to_lower_js [text_literals]:
  "list_all (\<lambda>c. (of_char c :: nat) < 128 \<and> \<not> (65 \<le> (of_char c :: nat) \<and> (of_char c :: nat) \<le> 90)) s \<Longrightarrow>
   to_lower (js s) = js s"
  by (induction s) (auto simp: to_lower_def js_def lower_units_def code_unit_simps)

end
