(* ===== verification/JsJson.thy ===== *)
theory JsJson
  imports JsPrelude "HOL-Library.Sublist"
begin

text \<open>
  \<^verbatim>\<open>JSON.stringify\<close>, compact and with an indentation of two, and the UTF-8 length that
  \<^verbatim>\<open>TextEncoder\<close> gives a string: what \<^verbatim>\<open>web/static/admin.js\<close> uses to bound a payload and
  \<^verbatim>\<open>web/static/reveal.js\<close> to show a JSON secret.
\<close>

section \<open>Quoting\<close>

definition is_high :: "jchar \<Rightarrow> bool" where
  "is_high u \<longleftrightarrow> 0xD800 \<le> u \<and> u \<le> 0xDBFF"

definition is_low :: "jchar \<Rightarrow> bool" where
  "is_low u \<longleftrightarrow> 0xDC00 \<le> u \<and> u \<le> 0xDFFF"

lemma high_not_low: "is_high u \<Longrightarrow> \<not> is_low u"
  unfolding is_high_def is_low_def by (auto simp: word_le_nat_alt)

definition hex_digit :: "nat \<Rightarrow> jchar" where
  "hex_digit n = word_of_nat (if n < 10 then 48 + n else 87 + n)"

definition unicode_escape :: "jchar \<Rightarrow> jstr" where
  "unicode_escape u =
     (let n = unat u in [0x5C, 0x75, hex_digit (n div 4096), hex_digit (n div 256 mod 16),
        hex_digit (n div 16 mod 16), hex_digit (n mod 16)])"

text \<open>One code unit that is not half of a surrogate pair.\<close>

definition quote_unit :: "jchar \<Rightarrow> jstr" where
  "quote_unit u =
     (if u = 0x08 then [0x5C, 0x62] else if u = 0x09 then [0x5C, 0x74]
      else if u = 0x0A then [0x5C, 0x6E] else if u = 0x0C then [0x5C, 0x66]
      else if u = 0x0D then [0x5C, 0x72] else if u = 0x22 then [0x5C, 0x22]
      else if u = 0x5C then [0x5C, 0x5C]
      else if u < 0x20 \<or> is_high u \<or> is_low u then unicode_escape u
      else [u])"

fun quote_units :: "jstr \<Rightarrow> jstr" where
  "quote_units [] = []"
| "quote_units [u] = quote_unit u"
| "quote_units (u # v # s) =
     (if is_high u \<and> is_low v then u # v # quote_units s
      else quote_unit u @ quote_units (v # s))"

definition json_quote :: "jstr \<Rightarrow> jstr" where
  "json_quote s = 0x22 # quote_units s @ [0x22]"

section \<open>Stringify\<close>

fun stringify :: "json \<Rightarrow> jstr" where
  "stringify JNull = js ''null''"
| "stringify (JBool b) = (if b then js ''true'' else js ''false'')"
| "stringify (JNum m e) = num_text m e"
| "stringify (JStr s) = json_quote s"
| "stringify (JArr xs) = js ''['' @ join (js '','') (map stringify xs) @ js '']''"
| "stringify (JObj kvs) =
     js ''{'' @ join (js '','') (map (\<lambda>(k, v). json_quote k @ js '':'' @ stringify v) kvs)
     @ js ''}''"

definition spaces :: "nat \<Rightarrow> jstr" where
  "spaces n = replicate n 0x20"

text \<open>\<^verbatim>\<open>JSON.stringify(v, null, 2)\<close>; \<open>n\<close> is the indentation of the line the value starts on.\<close>

fun stringify_indent :: "nat \<Rightarrow> json \<Rightarrow> jstr" where
  "stringify_indent n (JArr xs) =
     (if xs = [] then js ''[]''
      else js ''['' @ [0x0A] @ spaces (n + 2) @
        join (js '','' @ [0x0A] @ spaces (n + 2)) (map (stringify_indent (n + 2)) xs) @
        [0x0A] @ spaces n @ js '']'')"
| "stringify_indent n (JObj kvs) =
     (if kvs = [] then js ''{}''
      else js ''{'' @ [0x0A] @ spaces (n + 2) @
        join (js '','' @ [0x0A] @ spaces (n + 2))
          (map (\<lambda>(k, v). json_quote k @ js '': '' @ stringify_indent (n + 2) v) kvs) @
        [0x0A] @ spaces n @ js ''}'')"
| "stringify_indent n v = stringify v"

text \<open>\<^verbatim>\<open>JSON.stringify(undefined)\<close> is \<^verbatim>\<open>undefined\<close>.\<close>

definition stringify_val_indent :: "val \<Rightarrow> val" where
  "stringify_val_indent v = map_option (\<lambda>j. JStr (stringify_indent 0 j)) v"

section \<open>UTF-8 length\<close>

definition unit_bytes :: "jchar \<Rightarrow> nat" where
  "unit_bytes u = (if u < 0x80 then 1 else if u < 0x800 then 2 else 3)"

text \<open>A surrogate pair takes four bytes; a lone surrogate is replaced by U+FFFD, three bytes.\<close>

fun utf8_length :: "jstr \<Rightarrow> nat" where
  "utf8_length [] = 0"
| "utf8_length [u] = unit_bytes u"
| "utf8_length (u # v # s) =
     (if is_high u \<and> is_low v then 4 + utf8_length s
      else unit_bytes u + utf8_length (v # s))"

lemma unit_bytes_bounds: "1 \<le> unit_bytes u" "unit_bytes u \<le> 3"
  by (simp_all add: unit_bytes_def)

lemma utf8_length_ge: "length s \<le> utf8_length s"
proof (induction s rule: utf8_length.induct)
  case (2 u)
  show ?case using unit_bytes_bounds(1) [of u] by simp
next
  case (3 u v s)
  show ?case
  proof (cases "is_high u \<and> is_low v")
    case True
    with 3 show ?thesis by simp
  next
    case False
    then have "utf8_length (u # v # s) = unit_bytes u + utf8_length (v # s)" by auto
    with 3(2) [OF False] unit_bytes_bounds(1) [of u] show ?thesis by simp
  qed
qed simp

lemma utf8_length_le: "utf8_length s \<le> 3 * length s"
proof (induction s rule: utf8_length.induct)
  case (2 u)
  show ?case using unit_bytes_bounds(2) [of u] by simp
next
  case (3 u v s)
  show ?case
  proof (cases "is_high u \<and> is_low v")
    case True
    with 3 show ?thesis by simp
  next
    case False
    then have "utf8_length (u # v # s) = unit_bytes u + utf8_length (v # s)" by auto
    with 3(2) [OF False] unit_bytes_bounds(2) [of u] show ?thesis by simp
  qed
qed simp

text \<open>Cutting a string costs at most the bytes a split pair gains, so the parts bound the whole.\<close>

lemma utf8_length_Cons_le: "utf8_length s \<le> utf8_length (u # s)"
proof (cases s)
  case (Cons v t)
  have "utf8_length (v # t) \<le> unit_bytes v + utf8_length t" if "\<not> is_high v"
    using that by (cases t) auto
  moreover have "unit_bytes v \<le> 3" by (rule unit_bytes_bounds)
  moreover have "is_low v \<Longrightarrow> \<not> is_high v" using high_not_low by blast
  ultimately show ?thesis
    using Cons by (cases "is_high u \<and> is_low v") (auto intro: le_trans)
qed simp

lemma utf8_length_suffix: "utf8_length s \<le> utf8_length (r @ s)"
proof (induction r)
  case (Cons u r)
  from Cons utf8_length_Cons_le [of "r @ s" u] show ?case by simp
qed simp

lemma utf8_length_ascii_append:
  "\<forall>c \<in> set s. c < 0x80 \<Longrightarrow> utf8_length (s @ t) = length s + utf8_length t"
proof (induction s)
  case (Cons u s)
  have "\<not> is_high u" using Cons.prems by (auto simp: is_high_def word_le_nat_alt word_less_nat_alt)
  moreover have "unit_bytes u = 1" using Cons.prems by (simp add: unit_bytes_def)
  ultimately have "utf8_length (u # s @ t) = 1 + utf8_length (s @ t)"
    by (cases "s @ t") auto
  with Cons show ?case by simp
qed simp

lemma utf8_length_snoc_ascii:
  assumes "c < 0x80"
  shows "utf8_length (s @ c # t) = utf8_length s + utf8_length (c # t)"
proof (induction s rule: utf8_length.induct)
  case (2 u)
  have "\<not> is_low c" using assms by (auto simp: is_low_def word_le_nat_alt word_less_nat_alt)
  then show ?case by simp
qed auto

lemma quote_units_length_ge: "length s \<le> length (quote_units s)"
proof (induction s rule: quote_units.induct)
  case (2 u)
  show ?case by (simp add: quote_unit_def unicode_escape_def Let_def)
next
  case (3 u v s)
  have "1 \<le> length (quote_unit u)"
    by (simp add: quote_unit_def unicode_escape_def Let_def)
  with 3 show ?case by (cases "is_high u \<and> is_low v") auto
qed simp

lemma utf8_length_prefix: "utf8_length s \<le> utf8_length (s @ t)"
proof (induction s rule: utf8_length.induct)
  case (2 u)
  show ?case
  proof (cases t)
    case (Cons v r)
    then show ?thesis using unit_bytes_bounds(2) [of u] by simp
  qed simp
qed auto

lemma utf8_length_sublist: "sublist s t \<Longrightarrow> utf8_length s \<le> utf8_length t"
  unfolding sublist_def using utf8_length_prefix utf8_length_suffix le_trans by blast

text \<open>Quoting never makes a text shorter in UTF-8.\<close>

lemma unicode_escape_ascii: "\<forall>c \<in> set (unicode_escape u). c < 0x80"
proof -
  have "hex_digit (n mod 16) < 0x80" for n
    by (auto simp: hex_digit_def word_less_nat_alt unat_of_nat)
  moreover have "unat u div 4096 < 16"
    using unsigned_less [where 'a = nat, of u] by (simp add: less_mult_imp_div_less)
  then have "hex_digit (unat u div 4096) < 0x80"
    by (auto simp: hex_digit_def word_less_nat_alt unat_of_nat)
  ultimately show ?thesis
    by (auto simp: unicode_escape_def Let_def)
qed

lemma quote_unit_forms:
  "quote_unit u = unicode_escape u \<or> (\<exists>c. quote_unit u = [0x5C, c] \<and> c < 0x80 \<and> u < 0x80) \<or>
   quote_unit u = [u] \<and> \<not> is_high u"
  by (auto simp: quote_unit_def)

lemma utf8_length_quote_unit:
  "utf8_length (quote_unit u @ t) = length (quote_unit u) + utf8_length t \<and> 3 \<le> length (quote_unit u) \<or>
   utf8_length (quote_unit u @ t) = utf8_length (quote_unit u) + utf8_length t \<and> unit_bytes u \<le> utf8_length (quote_unit u)"
proof -
  consider (esc) "quote_unit u = unicode_escape u"
    | (two) c where "quote_unit u = [0x5C, c]" "c < 0x80" "u < 0x80"
    | (raw) "quote_unit u = [u]" "\<not> is_high u"
    using quote_unit_forms [of u] by blast
  then show ?thesis
  proof cases
    case esc
    have "utf8_length (unicode_escape u @ t) = length (unicode_escape u) + utf8_length t"
      by (rule utf8_length_ascii_append [OF unicode_escape_ascii])
    with esc show ?thesis by (simp add: unicode_escape_def Let_def)
  next
    case two
    have "utf8_length ([0x5C, c] @ t) = length [0x5C, c] + utf8_length t" for t
      by (rule utf8_length_ascii_append) (use two in simp)
    from this [of t] this [of "[]"] two show ?thesis by (simp add: unit_bytes_def)
  next
    case raw
    then show ?thesis by (cases t) auto
  qed
qed

lemma utf8_length_quote_units: "utf8_length s \<le> utf8_length (quote_units s)"
proof (induction s rule: quote_units.induct)
  case (2 u)
  show ?case using utf8_length_quote_unit [of u "[]"] unit_bytes_bounds(2) [of u] by auto
next
  case (3 u v s)
  show ?case
  proof (cases "is_high u \<and> is_low v")
    case True
    with 3(1) show ?thesis by auto
  next
    case False
    then have "utf8_length (u # v # s) = unit_bytes u + utf8_length (v # s)" by auto
    also have "\<dots> \<le> unit_bytes u + utf8_length (quote_units (v # s))"
      using 3(2) [OF False] by simp
    also have "\<dots> \<le> utf8_length (quote_unit u @ quote_units (v # s))"
      using utf8_length_quote_unit [of u "quote_units (v # s)"] unit_bytes_bounds(2) [of u] by auto
    finally show ?thesis using False by auto
  qed
qed simp

section \<open>A value inside a text\<close>

lemma sublist_wrap: "sublist s t \<Longrightarrow> sublist s (a @ t @ b)"
  by (erule sublist_order.order.trans) (rule sublist_appendI)

lemma sublist_concat_map: "q \<in> set qs \<Longrightarrow> sublist (f q) (concat (map f qs))"
proof -
  assume "q \<in> set qs"
  then obtain as bs where "qs = as @ q # bs" by (auto simp: in_set_conv_decomp)
  then show ?thesis by (simp add: sublist_appendI)
qed

lemma sublist_join:
  assumes "x \<in> set xs"
  shows "sublist x (join sep xs)"
proof (cases xs)
  case (Cons p ps)
  show ?thesis
  proof (cases "x = p")
    case True
    with Cons show ?thesis by (simp add: join_def sublist_append_rightI)
  next
    case False
    with assms Cons have "sublist (sep @ x) (concat (map (\<lambda>q. sep @ q) ps))"
      by (auto intro: sublist_concat_map)
    from sublist_order.order.trans [OF sublist_append_leftI this]
    have "sublist x (concat (map (\<lambda>q. sep @ q) ps))" .
    from sublist_wrap [OF this, of p "[]"] Cons show ?thesis by (simp add: join_def)
  qed
qed (use assms in simp)

lemma sublist_stringify_array: "v \<in> set xs \<Longrightarrow> sublist (stringify v) (stringify (JArr xs))"
  unfolding stringify.simps by (intro sublist_wrap sublist_join) simp

lemma sublist_stringify_object:
  assumes "(k, v) \<in> set kvs"
  shows "sublist (stringify v) (stringify (JObj kvs))"
proof -
  let ?item = "\<lambda>(k, v). json_quote k @ js '':'' @ stringify v"
  have "sublist (stringify v) (?item (k, v))"
    using sublist_appendI [of "stringify v" "json_quote k @ js '':''" "[]"] by simp
  also have "sublist (?item (k, v)) (join (js '','') (map ?item kvs))"
    by (rule sublist_join) (use assms in force)
  finally show ?thesis unfolding stringify.simps by (rule sublist_wrap)
qed

lemma utf8_length_stringify_string: "utf8_length s \<le> utf8_length (stringify (JStr s))"
proof -
  have "sublist (quote_units s) ([0x22] @ quote_units s @ [0x22])" by (rule sublist_appendI)
  then have "sublist (quote_units s) (stringify (JStr s))" by (simp add: json_quote_def)
  from utf8_length_sublist [OF this] utf8_length_quote_units [of s] show ?thesis by simp
qed

section \<open>Literals\<close>

text \<open>The characters that stand for themselves between quotes.\<close>

definition plain_char :: "char \<Rightarrow> bool" where
  [text_literals]: "plain_char c \<longleftrightarrow>
     32 \<le> (of_char c :: nat) \<and> (of_char c :: nat) < 127 \<and> (of_char c :: nat) \<notin> {34, 92}"

lemma plain_char_unit:
  assumes "plain_char c"
  shows "quote_unit (word_of_nat (of_char c)) = [word_of_nat (of_char c)]"
    and "\<not> is_high (word_of_nat (of_char c))" and "\<not> is_low (word_of_nat (of_char c))"
  using assms by (auto simp: quote_unit_def plain_char_def is_high_def is_low_def code_unit_simps)

lemma quote_units_js: "list_all plain_char s \<Longrightarrow> quote_units (js s) = js s"
  by (induction s rule: induct_list012) (simp_all add: js_def plain_char_unit)

lemma json_quote_js [text_literals]: "list_all plain_char s \<Longrightarrow> json_quote (js s) = js (CHR 0x22 # s @ [CHR 0x22])"
  by (simp add: json_quote_def quote_units_js) (simp add: js_def)

lemma utf8_length_js [text_literals]: "list_all (\<lambda>c. (of_char c :: nat) < 128) s \<Longrightarrow> utf8_length (js s) = length s"
  using utf8_length_ascii_append [of "js s" "[]"] by (auto simp: js_def list_all_iff code_unit_simps)

end
