(* ===== verification/TimeFormat.thy ===== *)
theory TimeFormat
  imports JsPrelude
begin

text \<open>
  \<^verbatim>\<open>web/static/time.js\<close>: the formatter of time stamps that every page loads first. What ECMAScript
  leaves to the implementation (\<^verbatim>\<open>Date.parse\<close> of a text, and the text \<^verbatim>\<open>Intl.DateTimeFormat\<close> produces)
  is the record \<open>date_engine\<close>, an argument of the definitions; \<^verbatim>\<open>toISOString\<close>, the fallback of the
  formatter, is computed.
\<close>

section \<open>The engine\<close>

text \<open>
  \<open>parse_date\<close> gives milliseconds since 1970, \<open>None\<close> for an invalid date. \<open>intl_format\<close> takes the locale,
  the options and the time; \<open>None\<close> when the constructor or the call raises a RangeError.
\<close>

record date_engine =
  parse_date :: "jstr \<Rightarrow> int option"
  intl_format :: "jstr option \<Rightarrow> (string \<times> jstr) list \<Rightarrow> int \<Rightarrow> jstr option"

definition time_clip :: "int \<Rightarrow> int option" where
  "time_clip t = (if \<bar>t\<bar> \<le> 8640000000000000 then Some t else None)"

text \<open>\<^verbatim>\<open>new Date(value)\<close>: a number is a time value, everything else is converted to a text and parsed.\<close>

definition date_of :: "date_engine \<Rightarrow> val \<Rightarrow> int option" where
  "date_of e v =
     (case v of
        None \<Rightarrow> None
      | Some JNull \<Rightarrow> Some 0
      | Some (JBool b) \<Rightarrow> Some (if b then 1 else 0)
      | Some (JNum m k) \<Rightarrow> time_clip (sgn m * (\<bar>m\<bar> div 10 ^ k))
      | Some w \<Rightarrow> parse_date e (json_string w))"

section \<open>ISO 8601\<close>

text \<open>The proleptic Gregorian date of a day number, day 0 being 1970-01-01.\<close>

definition civil_from_days :: "int \<Rightarrow> int \<times> int \<times> int" where
  "civil_from_days d =
     (let z = d + 719468;
          era = z div 146097;
          doe = z mod 146097;
          yoe = (doe - doe div 1460 + doe div 36524 - doe div 146096) div 365;
          doy = doe - (365 * yoe + yoe div 4 - yoe div 100);
          mp = (5 * doy + 2) div 153;
          day = doy - (153 * mp + 2) div 5 + 1;
          month = (if mp < 10 then mp + 3 else mp - 9);
          year = yoe + era * 400
      in (if month \<le> 2 then year + 1 else year, month, day))"

definition pad_digits :: "nat \<Rightarrow> int \<Rightarrow> jstr" where
  "pad_digits n k =
     (let digits = nat_digits (nat k) in replicate (n - length digits) 48 @ digits)"

definition iso_year :: "int \<Rightarrow> jstr" where
  "iso_year y =
     (if 0 \<le> y \<and> y \<le> 9999 then pad_digits 4 y
      else (if y < 0 then js ''-'' else js ''+'') @ pad_digits 6 \<bar>y\<bar>)"

definition to_iso_string :: "int \<Rightarrow> jstr" where
  "to_iso_string t =
     (let (y, m, d) = civil_from_days (t div 86400000); ms = t mod 86400000
      in iso_year y @ js ''-'' @ pad_digits 2 m @ js ''-'' @ pad_digits 2 d @ js ''T'' @
         pad_digits 2 (ms div 3600000) @ js '':'' @ pad_digits 2 (ms div 60000 mod 60) @ js '':'' @
         pad_digits 2 (ms div 1000 mod 60) @ js ''.'' @ pad_digits 3 (ms mod 1000) @ js ''Z'')"

section \<open>format, render, apply\<close>

record format_options =
  emptyLabel :: "jstr option"
  invalidLabel :: "jstr option"
  opt_preset :: "jstr option"
  timeZone :: "jstr option"
  locale_tag :: "jstr option"

definition DEFAULT_OPTIONS :: "(string \<times> jstr) list" where
  "DEFAULT_OPTIONS =
     [(''year'', js ''numeric''), (''month'', js ''short''), (''day'', js ''2-digit''),
      (''hour'', js ''2-digit''), (''minute'', js ''2-digit''), (''second'', js ''2-digit''),
      (''timeZoneName'', js ''short'')]"

definition RECIPIENT_OPTIONS :: "(string \<times> jstr) list" where
  "RECIPIENT_OPTIONS =
     [(''year'', js ''numeric''), (''month'', js ''long''), (''day'', js ''numeric''),
      (''hour'', js ''2-digit''), (''minute'', js ''2-digit'')]"

definition format_time :: "date_engine \<Rightarrow> val \<Rightarrow> format_options \<Rightarrow> jstr" where
  "format_time e v options =
     (if nullish v \<or> trim (to_string v) = [] then or_default (emptyLabel options) (js ''Never'')
      else
        (case date_of e v of
           None \<Rightarrow> or_default (invalidLabel options) (js ''Invalid date'')
         | Some t \<Rightarrow>
             (let base = (if opt_preset options = Some (js ''recipient'') then RECIPIENT_OPTIONS
                          else DEFAULT_OPTIONS);
                  zone = string_or_empty (timeZone options);
                  intl = (if zone \<noteq> [] then base @ [(''timeZone'', zone)] else base)
              in (case intl_format e (locale_tag options) intl t of
                    Some text \<Rightarrow> text
                  | None \<Rightarrow> to_iso_string t))))"

text \<open>An element as the formatter sees it: its tag, its text and its attributes.\<close>

record time_element =
  te_tag :: string
  te_text :: jstr
  te_attrs :: "string \<Rightarrow> jstr option"

definition set_attr :: "string \<Rightarrow> jstr \<Rightarrow> time_element \<Rightarrow> time_element" where
  "set_attr k v el = el\<lparr>te_attrs := (te_attrs el)(k := Some v)\<rparr>"

definition render_time :: "date_engine \<Rightarrow> time_element \<Rightarrow> val \<Rightarrow> format_options \<Rightarrow> time_element" where
  "render_time e el v options =
     (let raw = (if nullish v then [] else trim (to_string v));
          el1 = (if raw = [] then el
                 else
                   (let el2 = set_attr ''title'' raw (set_attr ''data-local-time'' raw el)
                    in if te_tag el2 = ''TIME'' then set_attr ''datetime'' raw el2 else el2))
      in el1\<lparr>te_text := format_time e (Some (JStr raw)) options\<rparr>)"

text \<open>\<^verbatim>\<open>element.getAttribute(k) || undefined\<close>.\<close>

definition attr_or_undefined :: "time_element \<Rightarrow> string \<Rightarrow> jstr option" where
  "attr_or_undefined el k = (case te_attrs el k of None \<Rightarrow> None | Some s \<Rightarrow> if s = [] then None else Some s)"

definition element_options :: "time_element \<Rightarrow> format_options" where
  "element_options el =
     \<lparr>emptyLabel = attr_or_undefined el ''data-empty-label'',
      invalidLabel = attr_or_undefined el ''data-invalid-label'',
      opt_preset = attr_or_undefined el ''data-time-preset'',
      timeZone = None,
      locale_tag = attr_or_undefined el ''data-time-locale''\<rparr>"

definition apply_element :: "date_engine \<Rightarrow> time_element \<Rightarrow> time_element" where
  "apply_element e el =
     (case te_attrs el ''data-local-time'' of
        None \<Rightarrow> el
      | Some raw \<Rightarrow> render_time e el (Some (JStr raw)) (element_options el))"

text \<open>\<^verbatim>\<open>apply(scope)\<close>: the elements of the scope that carry \<^verbatim>\<open>data-local-time\<close>; no scope, no effect.\<close>

definition apply_scope :: "date_engine \<Rightarrow> time_element list option \<Rightarrow> time_element list option" where
  "apply_scope e scope = map_option (map (apply_element e)) scope"

section \<open>Facts\<close>

lemma te_tag_render [simp]: "te_tag (render_time e el v options) = te_tag el"
  by (simp add: render_time_def set_attr_def Let_def)

lemma te_attrs_render:
  "te_attrs (render_time e el (Some (JStr s)) options) k =
     (if trim s \<noteq> [] \<and> (k = ''title'' \<or> k = ''data-local-time'' \<or> k = ''datetime'' \<and> te_tag el = ''TIME'')
      then Some (trim s) else te_attrs el k)"
  by (simp add: render_time_def set_attr_def Let_def)

lemma te_text_render:
  "te_text (render_time e el (Some (JStr s)) options) = format_time e (Some (JStr (trim s))) options"
  by (simp add: render_time_def Let_def)

lemma element_options_cong:
  "(\<And>k. k \<in> {''data-empty-label'', ''data-invalid-label'', ''data-time-preset'', ''data-time-locale''} \<Longrightarrow>
      te_attrs a k = te_attrs b k) \<Longrightarrow> element_options a = element_options b"
  by (simp add: element_options_def attr_or_undefined_def)

lemma element_options_render [simp]:
  "element_options (render_time e el (Some (JStr s)) options) = element_options el"
  by (rule element_options_cong) (auto simp: te_attrs_render)

lemma render_time_idem:
  "render_time e (render_time e el (Some (JStr s)) options) (Some (JStr s)) options
     = render_time e el (Some (JStr s)) options"
  by (simp add: render_time_def set_attr_def Let_def fun_upd_twist)

lemma render_time_trim:
  "render_time e el (Some (JStr (trim s))) options = render_time e el (Some (JStr s)) options"
  by (simp add: render_time_def)

lemma apply_element_idem: "apply_element e (apply_element e el) = apply_element e el"
proof (cases "te_attrs el ''data-local-time''")
  case None
  then show ?thesis by (simp add: apply_element_def)
next
  case (Some raw)
  let ?r = "render_time e el (Some (JStr raw)) (element_options el)"
  have once: "apply_element e el = ?r" using Some by (simp add: apply_element_def)
  have "te_attrs ?r ''data-local-time'' = Some (if trim raw = [] then raw else trim raw)"
    using Some by (simp add: te_attrs_render)
  then have "apply_element e ?r = render_time e ?r (Some (JStr raw)) (element_options el)"
    by (auto simp: apply_element_def render_time_trim)
  then show ?thesis by (simp add: once render_time_idem)
qed

lemma apply_scope_None [simp]: "apply_scope e None = None"
  by (simp add: apply_scope_def)

text \<open>Formatting the time stamps of a page twice is the same as once: the attributes that a first pass
  writes do not change what the second pass reads.\<close>

theorem time_apply_idempotent: "apply_scope e (apply_scope e scope) = apply_scope e scope"
  by (cases scope) (simp_all add: apply_scope_def apply_element_idem)

end
