(* ===== verification/JsNumber.thy ===== *)
theory JsNumber
  imports JsJson
begin

text \<open>
  The numbers of JavaScript. A literal denotes a decimal; the value is the double next to it, ties to the even one; and
  a double is represented by its shortest decimal, the one that \<^verbatim>\<open>Number::toString\<close> writes: the fewest digits that give
  the double back, and of those the closest. A literal beyond the doubles is Infinity, which \<^verbatim>\<open>JSON.stringify\<close>
  writes as null; the scripts do nothing else with it, so it is \<open>JNull\<close> here. Negative zero, which is written as 0, is zero.
\<close>

section \<open>Doubles\<close>

definition round_even :: "nat \<Rightarrow> nat \<Rightarrow> nat" where
  "round_even p q =
     (let d = p div q; r = p mod q in if 2 * r < q \<or> 2 * r = q \<and> even d then d else d + 1)"

text \<open>By how many powers of two \<open>p / q\<close> is too large or too small for a mantissa of 53 bits.\<close>

function too_large :: "nat \<Rightarrow> nat \<Rightarrow> nat" where
  "too_large p q = (if 0 < q \<and> 2 ^ 53 * q \<le> p then Suc (too_large p (2 * q)) else 0)"
  by pat_completeness auto
termination by (relation "measure (\<lambda>(p, q). p - q)") auto

primrec too_small :: "nat \<Rightarrow> nat \<Rightarrow> nat \<Rightarrow> nat" where
  "too_small 0 p q = 0"
| "too_small (Suc n) p q = (if p < 2 ^ 52 * q then Suc (too_small n (2 * p) q) else 0)"

declare too_large.simps [simp del]

text \<open>The double next to \<open>p / q\<close>: mantissa and exponent of two, none when it is infinite.\<close>

definition double_of :: "nat \<Rightarrow> nat \<Rightarrow> (nat \<times> int) option" where
  "double_of p q =
     (let u = too_large p q; d = too_small 1074 p q;
          e = (if 0 < u then int u else - int d);
          m = (if 0 < u then round_even p (2 ^ u * q) else round_even (2 ^ d * p) q);
          (m', e') = (if m = 2 ^ 53 then (2 ^ 52, e + 1) else (m, e))
      in if 971 < e' then None else Some (m', e'))"

definition decimal_double :: "nat \<Rightarrow> int \<Rightarrow> (nat \<times> int) option" where
  "decimal_double a x = double_of (a * 10 ^ nat x) (10 ^ nat (- x))"

section \<open>The shortest decimal\<close>

fun digit_count :: "nat \<Rightarrow> nat" where
  "digit_count n = (if n < 10 then 1 else Suc (digit_count (n div 10)))"

declare digit_count.simps [simp del]

primrec zeros_after :: "nat \<Rightarrow> nat \<Rightarrow> nat \<Rightarrow> nat" where
  "zeros_after 0 p q = 0"
| "zeros_after (Suc n) p q = (if p < q then Suc (zeros_after n (10 * p) q) else 0)"

text \<open>The place of the first digit of \<open>p / q\<close>; no double but zero is below \<open>10 ^ -400\<close>.\<close>

definition first_place :: "nat \<Rightarrow> nat \<Rightarrow> int" where
  "first_place p q = (if q \<le> p then int (digit_count (p div q)) else 1 - int (zeros_after 400 p q))"

text \<open>The two decimals with \<open>k\<close> digits around \<open>p / q\<close>, the closer one first.\<close>

definition decimals_at :: "nat \<Rightarrow> nat \<Rightarrow> nat \<Rightarrow> (nat \<times> int) list" where
  "decimals_at p q k =
     (let x = first_place p q - int k; n = p * 10 ^ nat (- x); d = q * 10 ^ nat x; s = n div d; r = n mod d
      in if 2 * r < d \<or> 2 * r = d \<and> even s then [(s, x), (s + 1, x)] else [(s + 1, x), (s, x)])"

fun shortest_from :: "nat list \<Rightarrow> nat \<times> int \<Rightarrow> (nat \<times> int) option" where
  "shortest_from [] d = None"
| "shortest_from (k # ks) d =
     (case find (\<lambda>(s, x). decimal_double s x = Some d) (decimals_at (fst d * 2 ^ nat (snd d)) (2 ^ nat (- snd d)) k) of
        Some c \<Rightarrow> Some c
      | None \<Rightarrow> shortest_from ks d)"

text \<open>Seventeen digits are always enough.\<close>

definition shortest :: "nat \<times> int \<Rightarrow> (nat \<times> int) option" where
  "shortest = shortest_from [1, 2, 3, 4, 5, 6, 7, 8, 9, 10, 11, 12, 13, 14, 15, 16, 17]"

section \<open>Numbers\<close>

fun normalise :: "int \<Rightarrow> nat \<Rightarrow> json" where
  "normalise m 0 = JNum m 0"
| "normalise m (Suc e) = (if m mod 10 = 0 then normalise (m div 10) e else JNum m (Suc e))"

definition decimal :: "bool \<Rightarrow> nat \<Rightarrow> int \<Rightarrow> json" where
  "decimal negative digits exponent =
     (let m = (if negative then - int digits else int digits)
      in if 0 \<le> exponent then JNum (m * 10 ^ nat exponent) 0 else normalise m (nat (- exponent)))"

definition number_value :: "bool \<Rightarrow> nat \<Rightarrow> int \<Rightarrow> json" where
  "number_value negative digits exponent =
     (if digits = 0 then JNum 0 0
      else
        (case decimal_double digits exponent of
           None \<Rightarrow> JNull
         | Some d \<Rightarrow>
             (if fst d = 0 then JNum 0 0
              else (case shortest d of None \<Rightarrow> decimal negative digits exponent | Some (s, x) \<Rightarrow> decimal negative s x))))"

section \<open>Facts\<close>

lemma round_even_scale: "0 < c \<Longrightarrow> round_even (c * p) (c * q) = round_even p q"
  by (simp add: round_even_def Let_def mult_mod_right [symmetric])

lemma too_large_scale: "0 < c \<Longrightarrow> too_large (c * p) (c * q) = too_large p q"
proof (induction p q rule: too_large.induct)
  case (1 p q)
  have le: "2 ^ 53 * (c * q) \<le> c * p \<longleftrightarrow> 2 ^ 53 * q \<le> p" using 1(2) by (simp add: mult.left_commute [of _ c])
  show ?case
  proof (cases "0 < q \<and> 2 ^ 53 * q \<le> p")
    case True
    from 1(1) [OF this 1(2)] have "too_large (c * p) (2 * (c * q)) = too_large p (2 * q)" by (simp add: mult.left_commute)
    with True le 1(2) show ?thesis by (simp only: too_large.simps [of "c * p" "c * q"] too_large.simps [of p q]) simp
  next
    case False
    with le 1(2) show ?thesis by (simp only: too_large.simps [of "c * p" "c * q"] too_large.simps [of p q]) simp
  qed
qed

lemma too_small_scale: "0 < c \<Longrightarrow> too_small n (c * p) (c * q) = too_small n p q"
proof (induction n arbitrary: p)
  case (Suc n)
  have "c * p < 2 ^ 52 * (c * q) \<longleftrightarrow> p < 2 ^ 52 * q" using Suc(2) by (simp add: mult.left_commute [of _ c])
  moreover have "too_small n (2 * (c * p)) (c * q) = too_small n (2 * p) q"
    using Suc.IH [of "2 * p"] Suc.prems by (simp add: mult.left_commute)
  ultimately show ?case by simp
qed simp

lemma double_of_scale:
  assumes "0 < c"
  shows "double_of (c * p) (c * q) = double_of p q"
proof -
  have "round_even (c * p) (2 ^ u * (c * q)) = round_even p (2 ^ u * q)"
    "round_even (2 ^ u * (c * p)) (c * q) = round_even (2 ^ u * p) q" for u
    using round_even_scale [OF assms, of p "2 ^ u * q"] round_even_scale [OF assms, of "2 ^ u * p" q]
    by (simp_all add: mult.left_commute)
  then show ?thesis unfolding double_of_def too_large_scale [OF assms] too_small_scale [OF assms] by (simp only:)
qed

lemma decimal_double_shift: "decimal_double (b * 10 ^ j) (- int e) = decimal_double b (int j - int e)"
proof (cases "j \<le> e")
  case True
  then have "nat (- (int j - int e)) = e - j" "(10 :: nat) ^ e = 10 ^ j * 10 ^ (e - j)"
    by (simp_all add: power_add [symmetric])
  with True double_of_scale [of "10 ^ j" b "10 ^ (e - j)"] show ?thesis
    by (simp add: decimal_double_def mult.commute)
next
  case False
  then have "nat (int j - int e) = j - e" "(10 :: nat) ^ j = 10 ^ e * 10 ^ (j - e)"
    by (simp_all add: power_add [symmetric])
  with False double_of_scale [of "10 ^ e" "b * 10 ^ (j - e)" 1] show ?thesis
    by (simp add: decimal_double_def mult_ac)
qed

lemma double_zero: "decimal_double 0 x = Some d \<Longrightarrow> fst d = 0"
proof -
  have "too_large 0 (10 ^ n) = 0" for n by (simp add: too_large.simps [of 0])
  then show "decimal_double 0 x = Some d \<Longrightarrow> fst d = 0"
    by (auto simp: decimal_double_def double_of_def round_even_def Let_def split: if_splits)
qed

lemma shortest_from_reads: "shortest_from ks d = Some (s, x) \<Longrightarrow> decimal_double s x = Some d"
  by (induction ks) (auto simp: find_Some_iff split: option.splits)

lemma normalise_digits: "normalise m e = JNum m' e' \<Longrightarrow> \<exists>j. e = e' + j \<and> m = m' * 10 ^ j"
proof (induction m e rule: normalise.induct)
  case (2 m e)
  show ?case
  proof (cases "m mod 10 = 0")
    case True
    with 2 obtain j where "e = e' + j" "m div 10 = m' * 10 ^ j" by auto
    with True show ?thesis by (intro exI [of _ "Suc j"]) (auto elim!: evenE simp: mod_eq_0_iff_dvd dvd_div_eq_mult)
  qed (use 2(2) in auto)
qed simp

lemma normalise_normal: "normalise m e = JNum m' e' \<Longrightarrow> e' = 0 \<or> m' mod 10 \<noteq> 0"
  by (induction m e rule: normalise.induct) (auto split: if_splits)

lemma normalise_is_number: "\<exists>m' e'. normalise m e = JNum m' e'"
  by (induction m e rule: normalise.induct) auto

text \<open>A decimal and its normalised form denote the same double.\<close>

lemma decimal_form:
  assumes "decimal negative a x = JNum m e"
  shows "decimal_double (nat \<bar>m\<bar>) (- int e) = decimal_double a x" "e = 0 \<or> m mod 10 \<noteq> 0"
    "a \<noteq> 0 \<Longrightarrow> m \<noteq> 0 \<and> (m < 0 \<longleftrightarrow> negative)"
proof -
  let ?m = "if negative then - int a else int a"
  have "decimal_double (nat \<bar>m\<bar>) (- int e) = decimal_double a x \<and> (e = 0 \<or> m mod 10 \<noteq> 0) \<and>
    (a \<noteq> 0 \<longrightarrow> m \<noteq> 0 \<and> (m < 0 \<longleftrightarrow> negative))"
  proof (cases "0 \<le> x")
    case True
    with assms have m: "m = ?m * 10 ^ nat x" "e = 0" by (auto simp: decimal_def Let_def)
    then have "nat \<bar>m\<bar> = a * 10 ^ nat x" by (simp add: abs_mult nat_mult_distrib nat_power_eq)
    with True m decimal_double_shift [of a "nat x" 0] show ?thesis by (auto simp: mult_less_0_iff)
  next
    case False
    with assms have n: "normalise ?m (nat (- x)) = JNum m e" by (auto simp: decimal_def Let_def)
    from normalise_digits [OF n] obtain j where j: "nat (- x) = e + j" "?m = m * 10 ^ j" by blast
    have "int a = \<bar>?m\<bar>" by simp
    also have "\<dots> = \<bar>m\<bar> * 10 ^ j" unfolding j(2) by (simp add: abs_mult)
    finally have "int a = \<bar>m\<bar> * 10 ^ j" .
    then have a: "a = nat \<bar>m\<bar> * 10 ^ j" by (simp add: nat_eq_iff2 nat_mult_distrib nat_power_eq flip: of_nat_eq_iff [where 'a = int])
    have x: "x = - int (e + j)" using j(1) False by simp
    have "decimal_double a x = decimal_double (nat \<bar>m\<bar>) (- int e)"
      using decimal_double_shift [of "nat \<bar>m\<bar>" j "e + j"] by (simp add: a x)
    moreover have "m \<noteq> 0 \<and> (m < 0 \<longleftrightarrow> negative)" if "a \<noteq> 0"
    proof -
      have "?m < 0 \<longleftrightarrow> m < 0" "?m = 0 \<longleftrightarrow> m = 0" unfolding j(2) by (simp_all add: mult_less_0_iff)
      with that show ?thesis by (auto split: if_splits)
    qed
    ultimately show ?thesis using normalise_normal [OF n] by auto
  qed
  then show "decimal_double (nat \<bar>m\<bar>) (- int e) = decimal_double a x" "e = 0 \<or> m mod 10 \<noteq> 0"
    "a \<noteq> 0 \<Longrightarrow> m \<noteq> 0 \<and> (m < 0 \<longleftrightarrow> negative)" by auto
qed

lemma decimal_is_number: "\<exists>m e. decimal negative a x = JNum m e"
  using normalise_is_number by (simp add: decimal_def Let_def)

text \<open>A number that JavaScript has: the shortest decimal of a double.\<close>

definition num_ok :: "int \<Rightarrow> nat \<Rightarrow> bool" where
  "num_ok m e \<longleftrightarrow> number_value (m < 0) (nat \<bar>m\<bar>) (- int e) = JNum m e"

lemma normalise_ok: "e = 0 \<or> m mod 10 \<noteq> 0 \<Longrightarrow> normalise m e = JNum m e"
  by (cases e) simp_all

lemma number_normal: "number_value negative a x = JNum m e \<Longrightarrow> e = 0 \<or> m mod 10 \<noteq> 0"
  using decimal_form(2) by (auto simp: number_value_def split: if_splits option.splits prod.splits)

text \<open>Any way of writing the decimal of a number gives the number.\<close>

lemma number_value_ok:
  assumes "num_ok m e" and "nat \<bar>m\<bar> = b * 10 ^ j"
  shows "number_value (m < 0) b (int j - int e) = JNum m e"
proof -
  have normal: "e = 0 \<or> m mod 10 \<noteq> 0" using assms(1) number_normal by (simp add: num_ok_def)
  have same: "decimal_double b (int j - int e) = decimal_double (nat \<bar>m\<bar>) (- int e)"
    using decimal_double_shift [of b j e] by (simp add: assms(2))
  have m: "m = (if m < 0 then - int b else int b) * 10 ^ j"
    using arg_cong [OF assms(2), of int] by (auto simp: abs_if split: if_splits)
  have "decimal (m < 0) b (int j - int e) = JNum m e"
  proof (cases "e = 0")
    case True
    then show ?thesis using m by (simp add: decimal_def Let_def)
  next
    case False
    with normal have "m mod 10 \<noteq> 0" by simp
    have "j = 0"
    proof (rule ccontr)
      assume "j \<noteq> 0"
      then have "(10 :: int) dvd 10 ^ j" by simp
      then have "10 dvd m" by (subst m) (rule dvd_mult)
      with \<open>m mod 10 \<noteq> 0\<close> show False by auto
    qed
    with False m normal show ?thesis by (auto simp: decimal_def Let_def normalise_ok split: if_splits)
  qed
  moreover have "decimal (m < 0) (nat \<bar>m\<bar>) (- int e) = JNum m e"
    using normal by (auto simp: decimal_def Let_def normalise_ok)
  moreover have "b = 0 \<longleftrightarrow> nat \<bar>m\<bar> = 0" using assms(2) by simp
  ultimately have "number_value (m < 0) b (int j - int e) = number_value (m < 0) (nat \<bar>m\<bar>) (- int e)"
    unfolding number_value_def same by (simp split: option.split)
  with assms(1) show ?thesis by (simp add: num_ok_def)
qed

lemma number_value_result:
  assumes "number_value negative a x = JNum m e"
  shows "num_ok m e"
proof (cases "a = 0 \<or> (\<exists>d. decimal_double a x = Some d \<and> fst d = 0)")
  case True
  with assms have "m = 0" "e = 0" by (auto simp: number_value_def split: if_splits)
  then show ?thesis by (simp add: num_ok_def number_value_def)
next
  case False
  with assms obtain d where d: "decimal_double a x = Some d" "fst d \<noteq> 0" "a \<noteq> 0"
    by (auto simp: number_value_def split: option.splits)
  obtain s y where s: "decimal negative s y = JNum m e" "decimal_double s y = Some d"
    "shortest d = None \<and> s = a \<and> y = x \<or> shortest d = Some (s, y)"
  proof (cases "shortest d")
    case None
    with assms d that [of a x] show ?thesis by (simp add: number_value_def)
  next
    case (Some c)
    obtain s y where c: "c = (s, y)" by (cases c)
    with Some have "decimal_double s y = Some d" unfolding shortest_def by (metis shortest_from_reads)
    with Some c assms d that [of s y] show ?thesis by (simp add: number_value_def)
  qed
  have "s \<noteq> 0" using s(2) d(2) double_zero by (cases "s = 0") auto
  with decimal_form [OF s(1)] s(2) have m: "decimal_double (nat \<bar>m\<bar>) (- int e) = Some d" "m \<noteq> 0" "m < 0 \<longleftrightarrow> negative"
    "e = 0 \<or> m mod 10 \<noteq> 0" by auto
  have "decimal (m < 0) (nat \<bar>m\<bar>) (- int e) = JNum m e"
    using m(4) by (auto simp: decimal_def Let_def normalise_ok)
  with m d(2) s(1,3) show ?thesis by (auto simp: num_ok_def number_value_def)
qed

text \<open>Beyond the largest double there is Infinity.\<close>

lemma too_large_bound: "0 < q \<Longrightarrow> p < 2 ^ 53 * (2 ^ too_large p q * q)"
proof (induction p q rule: too_large.induct)
  case (1 p q)
  show ?case
  proof (cases "2 ^ 53 * q \<le> p")
    case True
    with 1 have "p < 2 ^ 53 * (2 ^ too_large p (2 * q) * (2 * q))" by simp
    moreover have "too_large p q = Suc (too_large p (2 * q))" using True 1(2) by (subst too_large.simps) simp
    ultimately show ?thesis by (simp add: mult_ac)
  next
    case False
    then have "too_large p q = 0" by (subst too_large.simps) simp
    with False show ?thesis by simp
  qed
qed

lemma number_overflow:
  assumes "2 ^ 1024 \<le> n"
  shows "number_value negative n 0 = JNull"
proof -
  let ?u = "too_large n 1"
  from too_large_bound [of 1 n] have "n < 2 ^ (53 + ?u)" by (simp add: power_add)
  with assms have "(2 :: nat) ^ 1024 < 2 ^ (53 + ?u)" by (rule le_less_trans)
  then have "1024 < 53 + ?u" by (rule power_less_imp_less_exp [rotated]) simp
  then have "double_of n 1 = None" by (simp add: double_of_def Let_def)
  moreover have "n \<noteq> 0" using assms by (rule_tac notI) simp
  ultimately show ?thesis by (simp add: number_value_def decimal_double_def)
qed

text \<open>To evaluate the loops on a concrete number.\<close>

lemma too_small_numeral:
  "too_small (numeral n) p q = (if p < 2 ^ 52 * q then Suc (too_small (pred_numeral n) (2 * p) q) else 0)"
  by (subst numeral_eq_Suc) (simp only: too_small.simps)

lemma zeros_after_numeral:
  "zeros_after (numeral n) p q = (if p < q then Suc (zeros_after (pred_numeral n) (10 * p) q) else 0)"
  by (subst numeral_eq_Suc) (simp only: zeros_after.simps)

lemmas number_eval = decimal_double_def double_of_def too_large.simps too_small_numeral round_even_def decimals_at_def
  first_place_def digit_count.simps zeros_after_numeral shortest_def

section \<open>Around ten to the twentieth\<close>

text \<open>There the doubles are 16384 apart.\<close>

lemma double_near:
  assumes "99999999999999991808 \<le> n" and "n \<le> 100000000000000008192"
  shows "decimal_double n 0 = Some (6103515625000000, 14)"
proof -
  have u: "too_large n 1 = 14" using assms by (simp add: too_large.simps)
  have "round_even n 16384 = 6103515625000000"
  proof (cases "100000000000000000000 \<le> n")
    case True
    with assms have "n div 16384 = 6103515625000000" by auto
    moreover have "n mod 16384 = n - 100000000000000000000"
      using minus_mult_div_eq_mod [of n 16384] calculation by simp
    ultimately show ?thesis using True assms by (simp add: round_even_def Let_def) arith
  next
    case False
    with assms have d: "n div 16384 = 6103515624999999" by auto
    moreover have "n mod 16384 = n - 99999999999999983616"
      using minus_mult_div_eq_mod [of n 16384] d by simp
    ultimately show ?thesis using False assms by (simp add: round_even_def Let_def)
  qed
  with u show ?thesis by (simp add: decimal_double_def double_of_def Let_def)
qed

lemma number_near:
  assumes "99999999999999991808 \<le> n" and "n \<le> 100000000000000008192"
  shows "number_value False n 0 = JNum 100000000000000000000 0"
proof -
  have "shortest (6103515625000000, 14) = Some (1, 20)" by (simp add: number_eval Let_def)
  with double_near [OF assms] assms show ?thesis by (simp add: number_value_def decimal_def Let_def)
qed

end
