(* ===== verification/JsonParse.thy ===== *)
theory JsonParse
  imports JsNumber
begin

text \<open>
  \<^verbatim>\<open>JSON.parse\<close>: what the create form applies to a secret entered as JSON. The value parser is
  recursive with fuel; \<open>json_parse\<close> gives it twice as much as the text has characters and two more, which is always
  enough (every nested value starts at least one character further). A number is read as the
  double next to it. An object keeps the last of several values for one name, and lists its properties in
  the order in which JavaScript enumerates them: array indices first, in ascending order, then the
  others as they were added.
\<close>

section \<open>Lexical parts\<close>

definition json_white :: "jchar \<Rightarrow> bool" where
  "json_white c \<longleftrightarrow> c = 0x20 \<or> c = 0x09 \<or> c = 0x0A \<or> c = 0x0D"

definition skip_white :: "jstr \<Rightarrow> jstr" where
  "skip_white s = dropWhile json_white s"

definition is_digit :: "jchar \<Rightarrow> bool" where
  "is_digit c \<longleftrightarrow> 0x30 \<le> c \<and> c \<le> 0x39"

definition digit_value :: "jchar \<Rightarrow> nat" where
  "digit_value c = unat c - 48"

definition digits_value :: "jstr \<Rightarrow> nat" where
  "digits_value s = foldl (\<lambda>n c. 10 * n + digit_value c) 0 s"

definition hex_value :: "jchar \<Rightarrow> nat option" where
  "hex_value c =
     (if is_digit c then Some (unat c - 48)
      else if 0x41 \<le> c \<and> c \<le> 0x46 then Some (unat c - 55)
      else if 0x61 \<le> c \<and> c \<le> 0x66 then Some (unat c - 87)
      else None)"

definition hex4 :: "jchar \<Rightarrow> jchar \<Rightarrow> jchar \<Rightarrow> jchar \<Rightarrow> jchar option" where
  "hex4 a b c d =
     (case (hex_value a, hex_value b, hex_value c, hex_value d) of
        (Some x, Some y, Some z, Some w) \<Rightarrow> Some (word_of_nat (x * 4096 + y * 256 + z * 16 + w))
      | _ \<Rightarrow> None)"

definition simple_escape :: "jchar \<Rightarrow> jchar option" where
  "simple_escape c =
     (if c = 0x22 then Some 0x22 else if c = 0x5C then Some 0x5C else if c = 0x2F then Some 0x2F
      else if c = 0x62 then Some 0x08 else if c = 0x66 then Some 0x0C
      else if c = 0x6E then Some 0x0A else if c = 0x72 then Some 0x0D
      else if c = 0x74 then Some 0x09 else None)"

text \<open>The characters of a string after its opening quote, and the rest after the closing one.\<close>

fun parse_chars :: "jstr \<Rightarrow> (jstr \<times> jstr) option" where
  "parse_chars [] = None"
| "parse_chars (c # s) =
     (if c = 0x22 then Some ([], s)
      else if c = 0x5C then
        (case s of
           [] \<Rightarrow> None
         | d # t \<Rightarrow>
             (if d = 0x75 then
                (case t of
                   x # y # z # w # u \<Rightarrow>
                     (case hex4 x y z w of
                        None \<Rightarrow> None
                      | Some q \<Rightarrow> map_option (apfst (Cons q)) (parse_chars u))
                 | _ \<Rightarrow> None)
              else
                (case simple_escape d of
                   None \<Rightarrow> None
                 | Some q \<Rightarrow> map_option (apfst (Cons q)) (parse_chars t))))
      else if c < 0x20 then None
      else map_option (apfst (Cons c)) (parse_chars s))"

section \<open>Numbers\<close>

text \<open>The optional fraction: its digits, none when there is no point; a point needs a digit.\<close>

definition parse_fraction :: "jstr \<Rightarrow> (jstr \<times> jstr) option" where
  "parse_fraction s =
     (case s of
        [] \<Rightarrow> Some ([], [])
      | c # t \<Rightarrow>
          (if c \<noteq> 0x2E then Some ([], s)
           else if takeWhile is_digit t = [] then None
           else Some (takeWhile is_digit t, dropWhile is_digit t)))"

definition parse_exponent :: "jstr \<Rightarrow> (int \<times> jstr) option" where
  "parse_exponent s =
     (case s of
        [] \<Rightarrow> Some (0, [])
      | c # t \<Rightarrow>
          (if c \<noteq> 0x65 \<and> c \<noteq> 0x45 then Some (0, s)
           else
             (let negative = (case t of [] \<Rightarrow> False | d # _ \<Rightarrow> d = 0x2D);
                  u = (case t of [] \<Rightarrow> [] | d # v \<Rightarrow> if d = 0x2D \<or> d = 0x2B then v else t);
                  digits = takeWhile is_digit u
              in if digits = [] then None
                 else Some (if negative then - int (digits_value digits) else int (digits_value digits),
                            dropWhile is_digit u))))"

definition parse_number :: "jstr \<Rightarrow> (json \<times> jstr) option" where
  "parse_number s =
     (let negative = (case s of [] \<Rightarrow> False | c # _ \<Rightarrow> c = 0x2D);
          t = (if negative then tl s else s);
          whole = takeWhile is_digit t
      in if whole = [] \<or> (1 < length whole \<and> hd whole = 0x30) then None
         else
           (case parse_fraction (dropWhile is_digit t) of
              None \<Rightarrow> None
            | Some (fraction, u) \<Rightarrow>
                (case parse_exponent u of
                   None \<Rightarrow> None
                 | Some (exponent, v) \<Rightarrow>
                     Some (number_value negative (digits_value (whole @ fraction))
                             (exponent - int (length fraction)), v))))"

section \<open>Objects\<close>

text \<open>A later value for a name replaces the earlier one in its place.\<close>

fun put :: "jstr \<Rightarrow> json \<Rightarrow> (jstr \<times> json) list \<Rightarrow> (jstr \<times> json) list" where
  "put k v [] = [(k, v)]"
| "put k v ((l, w) # kvs) = (if k = l then (k, v) # kvs else (l, w) # put k v kvs)"

definition array_index :: "jstr \<Rightarrow> bool" where
  "array_index k \<longleftrightarrow> k \<noteq> [] \<and> (\<forall>c \<in> set k. is_digit c) \<and> (hd k = 0x30 \<longrightarrow> length k = 1) \<and>
     digits_value k < 2 ^ 32 - 1"

definition enumeration_order :: "(jstr \<times> json) list \<Rightarrow> (jstr \<times> json) list" where
  "enumeration_order kvs =
     sort_key (\<lambda>kv. digits_value (fst kv)) (filter (\<lambda>kv. array_index (fst kv)) kvs)
     @ filter (\<lambda>kv. \<not> array_index (fst kv)) kvs"

section \<open>Values\<close>

definition literal :: "string \<Rightarrow> json \<Rightarrow> jstr \<Rightarrow> (json \<times> jstr) option" where
  "literal text v s =
     (if take (length text) s = js text then Some (v, drop (length text) s) else None)"

fun parse_value :: "nat \<Rightarrow> jstr \<Rightarrow> (json \<times> jstr) option"
  and parse_elements :: "nat \<Rightarrow> json list \<Rightarrow> jstr \<Rightarrow> (json \<times> jstr) option"
  and parse_members :: "nat \<Rightarrow> (jstr \<times> json) list \<Rightarrow> jstr \<Rightarrow> (json \<times> jstr) option" where
  "parse_value 0 s = None"
| "parse_value (Suc n) s =
     (case skip_white s of
        [] \<Rightarrow> None
      | c # t \<Rightarrow>
          (if c = 0x22 then map_option (apfst JStr) (parse_chars t)
           else if c = 0x5B then
             (case skip_white t of
                [] \<Rightarrow> None
              | d # u \<Rightarrow> if d = 0x5D then Some (JArr [], u) else parse_elements n [] t)
           else if c = 0x7B then
             (case skip_white t of
                [] \<Rightarrow> None
              | d # u \<Rightarrow> if d = 0x7D then Some (JObj [], u) else parse_members n [] t)
           else if c = 0x6E then literal ''null'' JNull (c # t)
           else if c = 0x74 then literal ''true'' (JBool True) (c # t)
           else if c = 0x66 then literal ''false'' (JBool False) (c # t)
           else parse_number (c # t)))"
| "parse_elements 0 done s = None"
| "parse_elements (Suc n) done s =
     (case parse_value n s of
        None \<Rightarrow> None
      | Some (v, t) \<Rightarrow>
          (case skip_white t of
             [] \<Rightarrow> None
           | c # u \<Rightarrow>
               (if c = 0x2C then parse_elements n (done @ [v]) u
                else if c = 0x5D then Some (JArr (done @ [v]), u) else None)))"
| "parse_members 0 done s = None"
| "parse_members (Suc n) done s =
     (case skip_white s of
        [] \<Rightarrow> None
      | q # s1 \<Rightarrow>
          (if q \<noteq> 0x22 then None
           else
             (case parse_chars s1 of
                None \<Rightarrow> None
              | Some (k, s2) \<Rightarrow>
                  (case skip_white s2 of
                     [] \<Rightarrow> None
                   | r # s3 \<Rightarrow>
                       (if r \<noteq> 0x3A then None
                        else
                          (case parse_value n s3 of
                             None \<Rightarrow> None
                           | Some (v, t) \<Rightarrow>
                               (case skip_white t of
                                  [] \<Rightarrow> None
                                | c # u \<Rightarrow>
                                    (if c = 0x2C then parse_members n (put k v done) u
                                     else if c = 0x7D
                                     then Some (JObj (enumeration_order (put k v done)), u)
                                     else None)))))))) "

text \<open>
  The message of the SyntaxError is the engine's: \<open>syntax_message\<close>. Nothing may follow the value but
  white space.
\<close>

definition json_parse :: "(jstr \<Rightarrow> jstr) \<Rightarrow> jstr \<Rightarrow> js_error + json" where
  "json_parse syntax_message s =
     (case parse_value (2 * length s + 2) s of
        Some (v, rest) \<Rightarrow> if skip_white rest = [] then Inr v else Inl (Thrown (syntax_message s))
      | None \<Rightarrow> Inl (Thrown (syntax_message s)))"

end
