(* ===== verification/Browser.thy ===== *)
theory Browser
  imports TimeFormat JsonParse
begin

text \<open>
  What the page scripts share: the part of the window and the document that every page has
  (toasts, navigation, unhandled rejections), requests and their results, forms, and the buttons
  that show a loading text while a request is under way. The helper functions at the top of
  \<^verbatim>\<open>web/static/admin.js\<close> are modelled here. The locale \<open>single_flight\<close> is the contract that every
  submit handler built with \<^verbatim>\<open>setButtonLoading\<close> keeps; the component theories interpret it.

  An \<^verbatim>\<open>async\<close> handler is split at its \<^verbatim>\<open>await\<close>s: one definition runs from the event to the request it
  sends, the next one runs from the answer to the next \<^verbatim>\<open>await\<close> or to the end, so that any other event
  can come between them. \<^verbatim>\<open>await response.json().catch(() => ({}))\<close> follows every \<^verbatim>\<open>await fetch\<close> at once and
  touches nothing, so the two are one suspension.
\<close>

section \<open>The window and the toast region\<close>

datatype window_action = Assign jstr | Reload

text \<open>
  \<open>toast_region\<close> is the list of toasts on the page, \<open>None\<close> on a page without the region; a toast is
  numbered so that its timer can remove it. \<open>csrf_meta\<close> is the content of the token's meta element.
  \<open>uncaught\<close> are the errors that leave a handler: a rejected \<^verbatim>\<open>fetch\<close> (a TypeError) or a failed property
  access. \<open>requests\<close> and \<open>clipboard\<close> record what left the page.
\<close>

record http_request =
  rq_method :: string
  rq_url :: jstr
  rq_headers :: "(string \<times> jstr) list"
  rq_body :: val

record ui =
  toast_region :: "(nat \<times> jstr) list option"
  toast_next :: nat
  csrf_meta :: "jstr option"
  window_actions :: "window_action list"
  uncaught :: "js_error list"

definition toast :: "jstr \<Rightarrow> 'a ui_scheme \<Rightarrow> 'a ui_scheme" where
  "toast message u =
     (case toast_region u of
        None \<Rightarrow> u
      | Some items \<Rightarrow> u\<lparr>toast_region := Some (items @ [(toast_next u, message)]),
                         toast_next := Suc (toast_next u)\<rparr>)"

text \<open>The timer \<^verbatim>\<open>setTimeout(() => item.remove(), 3200)\<close> of toast number \<open>i\<close>.\<close>

definition toast_expire :: "nat \<Rightarrow> 'a ui_scheme \<Rightarrow> 'a ui_scheme" where
  "toast_expire i u = u\<lparr>toast_region := map_option (filter (\<lambda>t. fst t \<noteq> i)) (toast_region u)\<rparr>"

definition toast_texts :: "'a ui_scheme \<Rightarrow> jstr list" where
  "toast_texts u = (case toast_region u of None \<Rightarrow> [] | Some items \<Rightarrow> map snd items)"

definition toasts_wf :: "'a ui_scheme \<Rightarrow> bool" where
  "toasts_wf u \<longleftrightarrow> (case toast_region u of None \<Rightarrow> True
     | Some items \<Rightarrow> distinct (map fst items) \<and> (\<forall>t \<in> set items. fst t < toast_next u))"

lemma toasts_wf_toast: "toasts_wf u \<Longrightarrow> toasts_wf (toast m u)"
  by (auto simp: toasts_wf_def toast_def split: option.splits)

lemma toasts_wf_expire: "toasts_wf u \<Longrightarrow> toasts_wf (toast_expire i u)"
  by (auto simp: toasts_wf_def toast_expire_def distinct_map_filter split: option.splits)

lemma toast_texts_toast:
  "toast_region u \<noteq> None \<Longrightarrow> toast_texts (toast m u) = toast_texts u @ [m]"
  by (auto simp: toast_texts_def toast_def)

lemma toast_frame [simp]:
  "csrf_meta (toast m u) = csrf_meta u" "window_actions (toast m u) = window_actions u"
  "uncaught (toast m u) = uncaught u"
  by (simp_all add: toast_def split: option.splits)

lemma toast_more [simp]: "ui.more (toast m u) = ui.more u"
  by (simp add: toast_def split: option.splits)

definition assign_location :: "jstr \<Rightarrow> 'a ui_scheme \<Rightarrow> 'a ui_scheme" where
  "assign_location url u = u\<lparr>window_actions := window_actions u @ [Assign url]\<rparr>"

definition reload :: "'a ui_scheme \<Rightarrow> 'a ui_scheme" where
  "reload u = u\<lparr>window_actions := window_actions u @ [Reload]\<rparr>"

definition throw_uncaught :: "js_error \<Rightarrow> 'a ui_scheme \<Rightarrow> 'a ui_scheme" where
  "throw_uncaught e u = u\<lparr>uncaught := uncaught u @ [e]\<rparr>"

section \<open>Requests and answers\<close>

text \<open>
  Every request of the scripts is sent with \<^verbatim>\<open>credentials: "same-origin"\<close>. Its answer is a rejection
  (the network failed), or a status and a body, \<open>None\<close> when the body is not JSON.
\<close>

datatype fetch_result = Rejected | Answer nat "json option"

definition resp_ok :: "nat \<Rightarrow> bool" where
  "resp_ok status \<longleftrightarrow> 200 \<le> status \<and> status \<le> 299"

definition body_or_empty :: "json option \<Rightarrow> val" where
  "body_or_empty b = Some (case b of None \<Rightarrow> JObj [] | Some j \<Rightarrow> j)"

lemma body_or_empty_simps [simp]:
  "body_or_empty None = Some (JObj [])"
  "body_or_empty (Some j) = Some j"
  by (simp_all add: body_or_empty_def)

definition csrfHeaders :: "'a ui_scheme \<Rightarrow> (string \<times> jstr) list \<Rightarrow> (string \<times> jstr) list" where
  "csrfHeaders u extra =
     (let token = string_or_empty (csrf_meta u)
      in if token \<noteq> [] then extra @ [(''X-CSRF-Token'', token)] else extra)"

definition json_headers :: "(string \<times> jstr) list" where
  "json_headers = [(''Content-Type'', js ''application/json'')]"

definition obj :: "(string \<times> json) list \<Rightarrow> json" where
  "obj kvs = JObj (map (\<lambda>(k, v). (js k, v)) kvs)"

lemma map_of_js: "map_of (map (\<lambda>(k, v). (js k, v)) kvs) (js k) = map_of kvs k"
  by (induction kvs) auto

lemma get_prop_obj [simp]: "get_prop (Some (obj kvs)) k = map_of kvs k"
  by (simp add: obj_def map_of_js)

lemma nullish_obj [simp]: "\<not> nullish (Some (obj kvs))"
  by (simp add: obj_def)

text \<open>A request with a JSON body and the CSRF header, the pattern of the administration pages.\<close>

definition json_call :: "'a ui_scheme \<Rightarrow> string \<Rightarrow> jstr \<Rightarrow> json \<Rightarrow> http_request" where
  "json_call u verb url body =
     \<lparr>rq_method = verb, rq_url = url, rq_headers = csrfHeaders u json_headers, rq_body = Some body\<rparr>"

definition plain_call :: "'a ui_scheme \<Rightarrow> string \<Rightarrow> jstr \<Rightarrow> http_request" where
  "plain_call u verb url =
     \<lparr>rq_method = verb, rq_url = url, rq_headers = csrfHeaders u [], rq_body = None\<rparr>"

lemma rq_url_call [simp]: "rq_url (json_call u verb url body) = url" "rq_url (plain_call u verb url) = url"
  "rq_method (json_call u verb url body) = verb" "rq_method (plain_call u verb url) = verb"
  "rq_body (json_call u verb url body) = Some body"
  by (simp_all add: json_call_def plain_call_def)

text \<open>\<^verbatim>\<open>body.message || "..."\<close>; the property access raises on a \<^verbatim>\<open>null\<close> body.\<close>

definition body_message :: "val \<Rightarrow> string \<Rightarrow> js_error + jstr" where
  "body_message body fallback =
     (if nullish body then Inl TypeError
      else Inr (message_or (get_prop body ''message'') fallback))"

section \<open>Buttons\<close>

record button =
  b_text :: jstr
  b_disabled :: bool
  b_original :: "jstr option"
  b_loading :: "jstr option"

definition setButtonLoading :: "bool \<Rightarrow> 'a button_scheme \<Rightarrow> 'a button_scheme" where
  "setButtonLoading loading b =
     (if loading
      then b\<lparr>b_original := Some (b_text b),
             b_text := or_default (b_loading b) (js ''Working...''),
             b_disabled := True\<rparr>
      else b\<lparr>b_text := or_default (b_original b) (b_text b), b_disabled := False\<rparr>)"

lemma b_disabled_setButtonLoading [simp]: "b_disabled (setButtonLoading l b) = l"
  by (simp add: setButtonLoading_def)

lemma setButtonLoading_restores:
  "b_text b \<noteq> [] \<Longrightarrow> b_text (setButtonLoading False (setButtonLoading True b)) = b_text b"
  by (simp add: setButtonLoading_def)

lemma setButtonLoading_more [simp]: "button.more (setButtonLoading l b) = button.more b"
  by (simp add: setButtonLoading_def)

lemma setButtonLoading_original [simp]:
  "b_original (setButtonLoading True b) = Some (b_text b)"
  "b_original (setButtonLoading False b) = b_original b"
  "b_loading (setButtonLoading l b) = b_loading b"
  by (simp_all add: setButtonLoading_def)

text \<open>A handler looks its button up and skips a missing one.\<close>

definition button_busy :: "'a button_scheme option \<Rightarrow> bool" where
  "button_busy b \<longleftrightarrow> (case b of None \<Rightarrow> False | Some x \<Rightarrow> b_disabled x)"

lemma button_busy_simps [simp]:
  "\<not> button_busy None" "button_busy (Some b) \<longleftrightarrow> b_disabled b"
  by (simp_all add: button_busy_def)

lemma button_busy_map [simp]:
  "button_busy (map_option (setButtonLoading l) b) \<longleftrightarrow> b \<noteq> None \<and> l"
  by (cases b) simp_all

section \<open>Forms\<close>

text \<open>\<^verbatim>\<open>FormData\<close> of a form: the value of each control by its name, \<open>None\<close> when \<^verbatim>\<open>get\<close> gives \<^verbatim>\<open>null\<close>.\<close>

type_synonym form = "string \<Rightarrow> jstr option"

definition form_string :: "form \<Rightarrow> string \<Rightarrow> jstr" where
  "form_string data k = string_or_empty (data k)"

definition form_string_or :: "form \<Rightarrow> string \<Rightarrow> string \<Rightarrow> jstr" where
  "form_string_or data k d = or_default (data k) (js d)"

definition form_checked :: "form \<Rightarrow> string \<Rightarrow> bool" where
  "form_checked data k \<longleftrightarrow> data k = Some (js ''on'')"

text \<open>
  \<^verbatim>\<open>Number(text)\<close> as \<^verbatim>\<open>JSON.stringify\<close> writes it: NaN and the infinities become \<^verbatim>\<open>null\<close>.
\<close>

definition radix_digit :: "nat \<Rightarrow> jchar \<Rightarrow> nat option" where
  "radix_digit base c =
     (case hex_value c of None \<Rightarrow> None | Some d \<Rightarrow> if d < base then Some d else None)"

fun radix_value :: "nat \<Rightarrow> nat \<Rightarrow> jstr \<Rightarrow> nat option" where
  "radix_value base acc [] = Some acc"
| "radix_value base acc (c # s) =
     (case radix_digit base c of None \<Rightarrow> None | Some d \<Rightarrow> radix_value base (base * acc + d) s)"

definition radix_base :: "jstr \<Rightarrow> nat option" where
  "radix_base s =
     (case s of
        c # d # t \<Rightarrow>
          (if c \<noteq> 0x30 \<or> t = [] then None
           else if d = 0x78 \<or> d = 0x58 then Some 16
           else if d = 0x6F \<or> d = 0x4F then Some 8
           else if d = 0x62 \<or> d = 0x42 then Some 2 else None)
      | _ \<Rightarrow> None)"

definition decimal_literal :: "jstr \<Rightarrow> json option" where
  "decimal_literal s =
     (let negative = (s \<noteq> [] \<and> hd s = 0x2D);
          t = (if s \<noteq> [] \<and> (hd s = 0x2D \<or> hd s = 0x2B) then tl s else s);
          whole = takeWhile is_digit t;
          u = dropWhile is_digit t;
          pointed = (u \<noteq> [] \<and> hd u = 0x2E);
          fraction = (if pointed then takeWhile is_digit (tl u) else []);
          v = (if pointed then dropWhile is_digit (tl u) else u)
      in if whole @ fraction = [] then None
         else (case parse_exponent v of
                 Some (exponent, []) \<Rightarrow>
                   Some (number_value negative (digits_value (whole @ fraction))
                     (exponent - int (length fraction)))
               | _ \<Rightarrow> None))"

definition js_number :: "jstr \<Rightarrow> json" where
  "js_number s =
     (let t = trim s;
          value = (if t = [] then Some (JNum 0 0)
                   else case radix_base t of
                          Some base \<Rightarrow> map_option (\<lambda>n. number_value False n 0) (radix_value base 0 (drop 2 t))
                        | None \<Rightarrow> decimal_literal t)
      in case value of None \<Rightarrow> JNull | Some n \<Rightarrow> n)"

text \<open>\<^verbatim>\<open>Number(data.get(k) || d)\<close>.\<close>

definition form_number_or :: "form \<Rightarrow> string \<Rightarrow> int \<Rightarrow> json" where
  "form_number_or data k d =
     (let s = form_string data k in if s = [] then JNum d 0 else js_number s)"

text \<open>\<^verbatim>\<open>input.value = v\<close> and \<^verbatim>\<open>`${v}`\<close>: only \<^verbatim>\<open>null\<close> clears an input.\<close>

definition input_value :: "val \<Rightarrow> jstr" where
  "input_value v = (if v = Some JNull then [] else to_string v)"

text \<open>\<^verbatim>\<open>renderLocalTime(element, value, emptyLabel)\<close>; the flag says that the time library is loaded.\<close>

definition renderLocalTime ::
  "date_engine \<Rightarrow> bool \<Rightarrow> time_element option \<Rightarrow> val \<Rightarrow> jstr \<Rightarrow> time_element option" where
  "renderLocalTime e has_library element value empty_text =
     map_option (\<lambda>el.
       if has_library
       then render_time e el value
         \<lparr>emptyLabel = Some empty_text, invalidLabel = None, opt_preset = None, timeZone = None,
          locale_tag = None\<rparr>
       else
         (let raw = (if nullish value then [] else to_string value);
              el1 = el\<lparr>te_text := (if raw = [] then empty_text else raw)\<rparr>
          in if raw = [] then el1 else set_attr ''title'' raw el1)) element"

text \<open>The toggle that \<^verbatim>\<open>setupSecretToggles\<close> installs on a masked input.\<close>

record secret_input =
  si_masked :: bool
  si_button :: jstr

definition toggle_secret :: "secret_input \<Rightarrow> secret_input" where
  "toggle_secret i =
     (let reveal = si_masked i
      in i\<lparr>si_masked := \<not> reveal, si_button := (if reveal then js ''Hide'' else js ''Show'')\<rparr>)"

text \<open>
  \<^verbatim>\<open>confirmAction(title, message)\<close>: with no dialog element that can be shown modally, the browser's own
  prompt with the message; otherwise the dialog with both texts. Its promise is the \<open>bool\<close> given to the
  continuation of the caller: the dialog was closed with the value \<^verbatim>\<open>confirm\<close>.
\<close>

datatype confirm_prompt = WindowPrompt jstr | DialogPrompt jstr jstr

definition confirmAction :: "bool \<Rightarrow> string \<Rightarrow> string \<Rightarrow> confirm_prompt" where
  "confirmAction has_dialog title message =
     (if \<not> has_dialog then WindowPrompt (js message) else DialogPrompt (js title) (js message))"

definition dialog_result :: "jstr \<Rightarrow> bool" where
  "dialog_result returnValue \<longleftrightarrow> returnValue = js ''confirm''"

section \<open>Handlers with one request in flight\<close>

text \<open>
  The runs of a handler and the events around it. \<open>start\<close> is the handler up to its request, \<open>settle\<close> the
  rest of it given the pending call and its result, \<open>busy\<close> says that the button is disabled, so that the
  browser dispatches no click on it and no implicit submission; \<open>env\<close> are the other events of the page.
  Answers come in any order.
\<close>

inductive flight_run ::
  "('s \<Rightarrow> 's \<times> 'q option) \<Rightarrow> ('q \<Rightarrow> fetch_result \<Rightarrow> 's \<Rightarrow> 's) \<Rightarrow> ('s \<Rightarrow> bool) \<Rightarrow>
   ('s \<Rightarrow> 's \<Rightarrow> bool) \<Rightarrow> 's \<Rightarrow> 's \<Rightarrow> 'q list \<Rightarrow> bool"
  for start :: "'s \<Rightarrow> 's \<times> 'q option" and settle :: "'q \<Rightarrow> fetch_result \<Rightarrow> 's \<Rightarrow> 's"
    and busy :: "'s \<Rightarrow> bool" and env :: "'s \<Rightarrow> 's \<Rightarrow> bool" and s0 :: 's where
  flight_load: "flight_run start settle busy env s0 s0 []"
| flight_submit: "flight_run start settle busy env s0 s qs \<Longrightarrow> \<not> busy s \<Longrightarrow> start s = (s', q) \<Longrightarrow>
     flight_run start settle busy env s0 s' (qs @ (case q of None \<Rightarrow> [] | Some x \<Rightarrow> [x]))"
| flight_answer: "flight_run start settle busy env s0 s (qs @ q # rs) \<Longrightarrow>
     flight_run start settle busy env s0 (settle q r s) (qs @ rs)"
| flight_env: "flight_run start settle busy env s0 s qs \<Longrightarrow> env s s' \<Longrightarrow>
     flight_run start settle busy env s0 s' qs"

locale single_flight =
  fixes start :: "'s \<Rightarrow> 's \<times> 'q option"
    and settle :: "'q \<Rightarrow> fetch_result \<Rightarrow> 's \<Rightarrow> 's"
    and busy :: "'s \<Rightarrow> bool"
    and env :: "'s \<Rightarrow> 's \<Rightarrow> bool"
    and wf :: "'s \<Rightarrow> bool"
  assumes start_sends: "wf s \<Longrightarrow> start s = (s', Some q) \<Longrightarrow> busy s'"
    and start_refuses: "wf s \<Longrightarrow> start s = (s', None) \<Longrightarrow> \<not> busy s \<Longrightarrow> \<not> busy s'"
    and settle_idle: "wf s \<Longrightarrow> \<not> busy (settle q r s)"
    and env_busy: "wf s \<Longrightarrow> env s s' \<Longrightarrow> busy s' = busy s"
    and wf_start: "wf s \<Longrightarrow> start s = (s', p) \<Longrightarrow> wf s'"
    and wf_settle: "wf s \<Longrightarrow> wf (settle q r s)"
    and wf_env: "wf s \<Longrightarrow> env s s' \<Longrightarrow> wf s'"
begin

lemma flight_invariant:
  assumes "flight_run start settle busy env s0 s qs" and "wf s0" and "\<not> busy s0"
  shows "wf s \<and> length qs \<le> 1 \<and> (busy s \<longleftrightarrow> qs \<noteq> [])"
  using assms
proof (induction rule: flight_run.induct)
  case flight_load
  then show ?case by simp
next
  case (flight_submit s qs s' q)
  then have "wf s" and "qs = []" by auto
  with flight_submit show ?case
    by (cases q) (auto dest: start_sends start_refuses wf_start)
next
  case (flight_answer s qs q rs r)
  then have "wf s" and "qs @ rs = []" by (auto simp: Suc_le_eq)
  then show ?case by (auto simp: settle_idle wf_settle)
next
  case (flight_env s qs s')
  then show ?case using env_busy wf_env by blast
qed

lemma one_in_flight:
  assumes "flight_run start settle busy env s0 s qs" and "wf s0" and "\<not> busy s0"
  shows "length qs \<le> 1"
  using flight_invariant [OF assms] by blast

lemma idle_when_answered:
  assumes "flight_run start settle busy env s0 s []" and "wf s0" and "\<not> busy s0"
  shows "\<not> busy s"
  using flight_invariant [OF assms] by blast

end

section \<open>Actions that ask first\<close>

text \<open>
  The runs of an action behind \<^verbatim>\<open>confirmAction\<close>. \<open>ask\<close> is the click, with the closure that the handler
  keeps across the dialog; \<open>proceed\<close> the rest of the handler up to its request, given the closure and the
  user's choice. The run records the prompts that are open, the requests sent and the closures confirmed.
\<close>

inductive confirm_run ::
  "('s \<Rightarrow> 'k option) \<Rightarrow> ('k \<Rightarrow> bool \<Rightarrow> 's \<Rightarrow> 's \<times> http_request option) \<Rightarrow> ('s \<Rightarrow> 's \<Rightarrow> bool) \<Rightarrow>
   's \<Rightarrow> 's \<Rightarrow> 'k list \<Rightarrow> http_request list \<Rightarrow> 'k list \<Rightarrow> bool"
  for ask :: "'s \<Rightarrow> 'k option" and proceed :: "'k \<Rightarrow> bool \<Rightarrow> 's \<Rightarrow> 's \<times> http_request option"
    and env :: "'s \<Rightarrow> 's \<Rightarrow> bool" and s0 :: 's where
  confirm_load: "confirm_run ask proceed env s0 s0 [] [] []"
| confirm_click: "confirm_run ask proceed env s0 s ks sent yes \<Longrightarrow> ask s = Some k \<Longrightarrow>
     confirm_run ask proceed env s0 s (ks @ [k]) sent yes"
| confirm_choice: "confirm_run ask proceed env s0 s (ks @ k # ls) sent yes \<Longrightarrow>
     proceed k ok s = (s', q) \<Longrightarrow>
     confirm_run ask proceed env s0 s' (ks @ ls)
       (sent @ (case q of None \<Rightarrow> [] | Some x \<Rightarrow> [x])) (if ok then yes @ [k] else yes)"
| confirm_env: "confirm_run ask proceed env s0 s ks sent yes \<Longrightarrow> env s s' \<Longrightarrow>
     confirm_run ask proceed env s0 s' ks sent yes"

locale confirmed_action =
  fixes ask :: "'s \<Rightarrow> 'k option"
    and proceed :: "'k \<Rightarrow> bool \<Rightarrow> 's \<Rightarrow> 's \<times> http_request option"
    and env :: "'s \<Rightarrow> 's \<Rightarrow> bool"
    and aim :: "'k \<Rightarrow> string \<times> jstr"
  assumes declined: "proceed k False s = (s, None)"
    and accepted: "\<exists>s' q. proceed k True s = (s', Some q) \<and> (rq_method q, rq_url q) = aim k"
begin

lemma requests_confirmed:
  assumes "confirm_run ask proceed env s0 s ks sent yes"
  shows "map (\<lambda>q. (rq_method q, rq_url q)) sent = map aim yes"
  using assms
proof (induction rule: confirm_run.induct)
  case (confirm_choice s ks k ls sent yes ok s' q)
  show ?case
  proof (cases ok)
    case True
    then show ?thesis using confirm_choice accepted [of k s] by auto
  next
    case False
    then show ?thesis using confirm_choice declined [of k s] by simp
  qed
qed simp_all

end

section \<open>Handlers with a chain of requests\<close>

text \<open>
  A handler may send its next request when the previous one is answered: \<open>continue\<close> gives the state and
  the next call of the chain, if any. A handler with one request is a chain that ends at once.
\<close>

inductive chain_run ::
  "('s \<Rightarrow> 's \<times> 'q option) \<Rightarrow> ('q \<Rightarrow> fetch_result \<Rightarrow> 's \<Rightarrow> 's \<times> 'q option) \<Rightarrow> ('s \<Rightarrow> bool) \<Rightarrow>
   ('s \<Rightarrow> 's \<Rightarrow> bool) \<Rightarrow> 's \<Rightarrow> 's \<Rightarrow> 'q list \<Rightarrow> bool"
  for start :: "'s \<Rightarrow> 's \<times> 'q option" and continue :: "'q \<Rightarrow> fetch_result \<Rightarrow> 's \<Rightarrow> 's \<times> 'q option"
    and busy :: "'s \<Rightarrow> bool" and env :: "'s \<Rightarrow> 's \<Rightarrow> bool" and s0 :: 's where
  chain_load: "chain_run start continue busy env s0 s0 []"
| chain_submit: "chain_run start continue busy env s0 s qs \<Longrightarrow> \<not> busy s \<Longrightarrow> start s = (s', q) \<Longrightarrow>
     chain_run start continue busy env s0 s' (qs @ (case q of None \<Rightarrow> [] | Some x \<Rightarrow> [x]))"
| chain_answer: "chain_run start continue busy env s0 s (qs @ q # rs) \<Longrightarrow> continue q r s = (s', n) \<Longrightarrow>
     chain_run start continue busy env s0 s' (qs @ rs @ (case n of None \<Rightarrow> [] | Some x \<Rightarrow> [x]))"
| chain_env: "chain_run start continue busy env s0 s qs \<Longrightarrow> env s s' \<Longrightarrow>
     chain_run start continue busy env s0 s' qs"

locale chained_flight =
  fixes start :: "'s \<Rightarrow> 's \<times> 'q option"
    and continue :: "'q \<Rightarrow> fetch_result \<Rightarrow> 's \<Rightarrow> 's \<times> 'q option"
    and busy :: "'s \<Rightarrow> bool"
    and env :: "'s \<Rightarrow> 's \<Rightarrow> bool"
    and wf :: "'s \<Rightarrow> bool"
  assumes chain_starts: "wf s \<Longrightarrow> \<not> busy s \<Longrightarrow> start s = (s', n) \<Longrightarrow> wf s' \<and> (busy s' \<longleftrightarrow> n \<noteq> None)"
    and chain_goes_on: "wf s \<Longrightarrow> busy s \<Longrightarrow> continue q r s = (s', n) \<Longrightarrow> wf s' \<and> (busy s' \<longleftrightarrow> n \<noteq> None)"
    and chain_others: "wf s \<Longrightarrow> env s s' \<Longrightarrow> wf s' \<and> busy s' = busy s"
begin

lemma chain_invariant:
  assumes "chain_run start continue busy env s0 s qs" and "wf s0" and "\<not> busy s0"
  shows "wf s \<and> length qs \<le> 1 \<and> (busy s \<longleftrightarrow> qs \<noteq> [])"
  using assms
proof (induction rule: chain_run.induct)
  case chain_load
  then show ?case by simp
next
  case (chain_submit s qs s' q)
  then have "wf s" and "qs = []" by auto
  with chain_submit chain_starts [of s s' q] show ?case by (cases q) auto
next
  case (chain_answer s qs q rs r s' n)
  then have "wf s" and "busy s" and "qs @ rs = []" by (auto simp: Suc_le_eq)
  with chain_answer chain_goes_on [of s q r s' n] show ?case by (cases n) auto
next
  case (chain_env s qs s')
  then show ?case using chain_others by blast
qed

end

sublocale single_flight \<subseteq> chain: chained_flight start "\<lambda>q r s. (settle q r s, None)" busy env wf
proof
  fix s s' n
  assume "wf s" and "\<not> busy s" and "start s = (s', n)"
  then show "wf s' \<and> (busy s' \<longleftrightarrow> n \<noteq> None)"
    using start_sends start_refuses wf_start by (cases n) auto
qed (auto simp: settle_idle wf_settle env_busy wf_env)

end
