(* ===== verification/Recipient.thy ===== *)
theory Recipient
  imports JsJson Browser TimeFormat
begin

text \<open>
  \<^verbatim>\<open>web/static/reveal.js\<close>, the script of the recipient page \<^verbatim>\<open>/s#token\<close>: it takes the token out of the
  address bar, asks the server whether the link can be opened, sends the token and the link
  password when the recipient asks for the information, and shows it. The elements it uses are
  those of \<^verbatim>\<open>web/templates/recipient.html\<close>, which holds all of them, so its tests for a missing
  element do not appear. The page is a state machine: \<open>recipient_step\<close> has one rule for each event
  (a click on an element that is displayed and enabled, a key, an answer, a timer), and the
  invariant \<open>recipient_inv\<close> holds in every reachable configuration.
\<close>

section \<open>The state of the page\<close>

datatype recipient_state =
  Loading | Ready | Submitting | PasswordError | Revealed | Unavailable | NetworkError

datatype retry_action = RetryPrepare | RetryReveal

record copy_texts =
  cp_locale :: jstr
  cp_ready :: jstr
  cp_availableUntil :: jstr
  cp_availableUntilSuffix :: jstr
  cp_reveal :: jstr
  cp_revealing :: jstr
  cp_wrongPassword :: jstr
  cp_unavailableTitle :: jstr
  cp_unavailableMessage :: jstr
  cp_sessionLostTitle :: jstr
  cp_sessionLostMessage :: jstr
  cp_show :: jstr
  cp_hide :: jstr
  cp_copy :: jstr
  cp_copySuccess :: jstr
  cp_invalidDate :: jstr

text \<open>
  The texts come from the data attributes of \<^verbatim>\<open>#recipient-copy\<close>; an absent or empty one is replaced,
  but for the suffix of the date, where only an absent one is (\<^verbatim>\<open>??\<close>).
\<close>

definition copy_of :: "(string \<Rightarrow> jstr option) option \<Rightarrow> copy_texts" where
  "copy_of source =
     (let get = (\<lambda>k. case source of None \<Rightarrow> None | Some dataset \<Rightarrow> dataset k)
      in \<lparr>cp_locale = or_default (get ''locale'') (js ''en''),
          cp_ready = or_default (get ''ready'')
            (js ''The information remains available until you choose '' @ [0x201C] @
             js ''Reveal information'' @ [0x201D] @ js ''.''),
          cp_availableUntil = or_default (get ''availableUntil'') (js ''Available until''),
          cp_availableUntilSuffix =
            (case get ''availableUntilSuffix'' of None \<Rightarrow> js ''.'' | Some s \<Rightarrow> s),
          cp_reveal = or_default (get ''reveal'') (js ''Reveal information''),
          cp_revealing = or_default (get ''revealing'') (js ''Revealing information...''),
          cp_wrongPassword = or_default (get ''wrongPassword'')
            (js ''The link password is incorrect. Try again.''),
          cp_unavailableTitle = or_default (get ''unavailableTitle'')
            (js ''This link is no longer available''),
          cp_unavailableMessage = or_default (get ''unavailableMessage'')
            (js ''This link has expired, was revoked, or has already been viewed.''),
          cp_sessionLostTitle = or_default (get ''sessionLostTitle'')
            (js ''Reopen the original secure link''),
          cp_sessionLostMessage = or_default (get ''sessionLostMessage'')
            (js ''For your security, this link is not stored in the browser. Reopen the original link you received.''),
          cp_show = or_default (get ''show'') (js ''Show''),
          cp_hide = or_default (get ''hide'') (js ''Hide''),
          cp_copy = or_default (get ''copy'') (js ''Copy''),
          cp_copySuccess = or_default (get ''copySuccess'') (js ''Copied''),
          cp_invalidDate = or_default (get ''invalidDate'') (js ''Invalid date'')\<rparr>)"

text \<open>One row of a structured secret, as \<^verbatim>\<open>renderField\<close> builds it.\<close>

record secret_row =
  row_name :: jstr
  row_value :: jstr
  row_text :: jstr
  row_reveal_text :: jstr
  row_reveal_hidden :: bool

datatype expires_node = ExpiresText jstr | ExpiresTime time_element

record recipient_page = ui +
  token :: jstr
  revealedText :: val
  currentState :: recipient_state
  retryAction :: retry_action
  copy :: copy_texts
  location_hash :: jstr
  has_time_library :: bool
  body_state :: recipient_state
  panel_hidden :: "recipient_state \<Rightarrow> bool"
  password_hidden :: bool
  password_value :: jstr
  password_masked :: bool
  password_toggle_text :: jstr
  password_toggle_label :: jstr
  password_invalid :: bool
  password_focused :: bool
  password_error_hidden :: bool
  password_error_text :: jstr
  reveal_loading_text :: "jstr option"
  reveal_text :: jstr
  reveal_disabled :: bool
  prepare_text :: jstr
  expires_nodes :: "expires_node list"
  structured_hidden :: bool
  structured_rows :: "secret_row list"
  plain_hidden :: bool
  secret_code :: jstr
  unavailable_title :: jstr
  unavailable_message :: jstr

text \<open>The panels of the template, by the value of \<^verbatim>\<open>data-recipient-state-panel\<close>.\<close>

definition panels :: "recipient_state list" where
  "panels = [Loading, Ready, Revealed, Unavailable, NetworkError]"

definition visible_panels :: "recipient_page \<Rightarrow> recipient_state list" where
  "visible_panels p = filter (\<lambda>x. \<not> panel_hidden p x) panels"

text \<open>A call under way: the continuation of an \<^verbatim>\<open>await\<close>.\<close>

datatype recipient_call = PrepareCall http_request | ConsumeCall http_request | CopyCall

section \<open>The operations\<close>

text \<open>
  \<^verbatim>\<open>setState\<close> refuses a state that is not in \<^verbatim>\<open>states\<close>; with the states as a datatype no caller can
  pass one.
\<close>

definition panel_shown :: "recipient_state \<Rightarrow> recipient_state \<Rightarrow> bool" where
  "panel_shown next panel \<longleftrightarrow>
     panel = next \<or> (panel = Ready \<and> next \<in> {Ready, Submitting, PasswordError})"

definition setState :: "recipient_state \<Rightarrow> recipient_page \<Rightarrow> recipient_page" where
  "setState next p = p\<lparr>
     currentState := next,
     body_state := next,
     panel_hidden := (\<lambda>panel. \<not> panel_shown next panel),
     password_error_hidden := next \<noteq> PasswordError,
     password_invalid := next = PasswordError\<rparr>"

definition setSubmitting :: "bool \<Rightarrow> recipient_page \<Rightarrow> recipient_page" where
  "setSubmitting submitting p = p\<lparr>
     reveal_text := (if submitting
       then or_default (reveal_loading_text p) (cp_revealing (copy p)) else cp_reveal (copy p)),
     reveal_disabled := submitting\<rparr>"

definition unavailable :: "recipient_page \<Rightarrow> recipient_page" where
  "unavailable p =
     (let p1 = setSubmitting False (p\<lparr>token := []\<rparr>)
      in setState Unavailable (p1\<lparr>unavailable_title := cp_unavailableTitle (copy p1),
           unavailable_message := cp_unavailableMessage (copy p1)\<rparr>))"

definition sessionLost :: "recipient_page \<Rightarrow> recipient_page" where
  "sessionLost p =
     (let p1 = setSubmitting False (p\<lparr>token := []\<rparr>)
      in setState Unavailable (p1\<lparr>unavailable_title := cp_sessionLostTitle (copy p1),
           unavailable_message := cp_sessionLostMessage (copy p1)\<rparr>))"

definition networkError :: "retry_action \<Rightarrow> recipient_page \<Rightarrow> recipient_page" where
  "networkError action p =
     setState NetworkError (setSubmitting False (p\<lparr>retryAction := action\<rparr>))"

definition setupSecretToggles_click :: "recipient_page \<Rightarrow> recipient_page" where
  "setupSecretToggles_click p =
     (let reveal = password_masked p;
          text = (if reveal then cp_hide (copy p) else cp_show (copy p))
      in p\<lparr>password_masked := \<not> reveal, password_toggle_text := text,
           password_toggle_label := text\<rparr>)"

definition link_request :: "string \<Rightarrow> (string \<times> json) list \<Rightarrow> http_request" where
  "link_request path body =
     \<lparr>rq_method = ''POST'', rq_url = js path, rq_headers = json_headers, rq_body = Some (obj body)\<rparr>"

text \<open>\<^verbatim>\<open>prepare\<close> up to its request.\<close>

definition prepare :: "recipient_page \<Rightarrow> recipient_page \<times> recipient_call list" where
  "prepare p =
     (let fragment = drop 1 (location_hash p);
          p1 = (if fragment \<noteq> [] then p\<lparr>token := fragment, location_hash := []\<rparr> else p)
      in if token p1 = [] then (sessionLost p1, [])
         else (setState Loading p1,
               [PrepareCall (link_request ''/api/v1/secret-links/prepare''
                  [(''token'', JStr (token p1))])]))"

text \<open>The children that replace those of \<^verbatim>\<open>#expires-state\<close>.\<close>

definition expires_children :: "date_engine \<Rightarrow> recipient_page \<Rightarrow> val \<Rightarrow> expires_node list" where
  "expires_children e p expires_at =
     (let el = \<lparr>te_tag = ''TIME'', te_text = [], te_attrs = (\<lambda>_. None)\<rparr>;
          shown =
            (if has_time_library p
             then render_time e el expires_at
               \<lparr>emptyLabel = Some (cp_invalidDate (copy p)),
                invalidLabel = Some (cp_invalidDate (copy p)),
                opt_preset = Some (js ''recipient''), timeZone = None,
                locale_tag = Some (cp_locale (copy p))\<rparr>
             else (set_attr ''title'' (to_string expires_at)
                     (set_attr ''datetime'' (to_string expires_at) el))
                  \<lparr>te_text := text_of expires_at\<rparr>)
      in [ExpiresText (cp_availableUntil (copy p) @ js '' ''), ExpiresTime shown,
          ExpiresText (cp_availableUntilSuffix (copy p))])"

text \<open>\<^verbatim>\<open>prepare\<close> from its answer on; every error inside the \<^verbatim>\<open>try\<close> ends in \<^verbatim>\<open>networkError\<close>.\<close>

definition prepare_answer :: "date_engine \<Rightarrow> fetch_result \<Rightarrow> recipient_page \<Rightarrow> recipient_page" where
  "prepare_answer e r p =
     (case r of
        Rejected \<Rightarrow> networkError RetryPrepare p
      | Answer status b \<Rightarrow>
          (let body = body_or_empty b
           in if \<not> resp_ok status then networkError RetryPrepare p
              else if nullish body then networkError RetryPrepare p
              else if \<not> truthy (get_prop body ''may_attempt'') then unavailable p
              else
                (let p1 = p\<lparr>password_hidden := \<not> truthy (get_prop body ''password_required'')\<rparr>;
                     p2 = (if truthy (get_prop body ''expires_at'')
                           then p1\<lparr>expires_nodes := expires_children e p1 (get_prop body ''expires_at'')\<rparr>
                           else p1)
                 in setState Ready (setSubmitting False
                      (p2\<lparr>prepare_text := cp_ready (copy p2)\<rparr>)))))"

text \<open>The mask, twelve bullets.\<close>

definition mask :: jstr where
  "mask = replicate 12 0x2022"

definition renderField :: "copy_texts \<Rightarrow> val \<Rightarrow> secret_row" where
  "renderField texts field =
     (let value = to_string (get_prop field ''value'')
      in \<lparr>row_name = text_of (or_val (get_prop field ''label'') (get_prop field ''name'')),
          row_value = value,
          row_text = (if truthy (get_prop field ''sensitive'') then mask else value),
          row_reveal_text = cp_show texts,
          row_reveal_hidden = (\<not> truthy (get_prop field ''sensitive''))\<rparr>)"

text \<open>The click on the row's button, hidden for a field that is not sensitive.\<close>

definition toggle_row :: "copy_texts \<Rightarrow> secret_row \<Rightarrow> secret_row" where
  "toggle_row texts row =
     (let showing = (row_text row = row_value row)
      in row\<lparr>row_text := (if showing then mask else row_value row),
             row_reveal_text := (if showing then cp_show texts else cp_hide texts)\<rparr>)"

definition field_line :: "val \<Rightarrow> jstr" where
  "field_line field =
     to_string (or_val (get_prop field ''label'') (get_prop field ''name'')) @ js '': '' @
     to_string (get_prop field ''value'')"

text \<open>The code of a plain secret, with its text kept for \<^verbatim>\<open>Copy all\<close>.\<close>

definition show_plain :: "val \<Rightarrow> recipient_page \<Rightarrow> recipient_page" where
  "show_plain v p = p\<lparr>revealedText := v, secret_code := text_of v, plain_hidden := False\<rparr>"

text \<open>
  \<^verbatim>\<open>renderSecret\<close>; the error is the TypeError that reading a label of a \<^verbatim>\<open>null\<close> field raises.
\<close>

definition renderSecret ::
  "val \<Rightarrow> val \<Rightarrow> recipient_page \<Rightarrow> recipient_page \<times> js_error option" where
  "renderSecret payload legacySecret p =
     (let p1 = p\<lparr>structured_rows := [], structured_hidden := True, plain_hidden := True\<rparr>;
          type = get_prop payload ''type''
      in case (if type = Some (JStr (js ''structured'')) then get_prop payload ''fields'' else None) of
           Some (JArr fs) \<Rightarrow>
             (if \<exists>f \<in> set fs. nullish (Some f) then (p1, Some TypeError)
              else (p1\<lparr>revealedText := Some (JStr (join [0x0A] (map (\<lambda>f. field_line (Some f)) fs))),
                       structured_rows := map (\<lambda>f. renderField (copy p1) (Some f)) fs,
                       structured_hidden := False\<rparr>, None))
         | _ \<Rightarrow>
             (if type = Some (JStr (js ''json''))
              then (show_plain (stringify_val_indent (get_prop payload ''value'')) p1, None)
              else if type = Some (JStr (js ''text''))
              then (show_plain (or_val (get_prop payload ''text'') (Some (JStr []))) p1, None)
              else (show_plain (case legacySecret of Some (JStr s) \<Rightarrow> Some (JStr s)
                                | v \<Rightarrow> stringify_val_indent v) p1, None)))"

text \<open>\<^verbatim>\<open>reveal\<close> up to its request.\<close>

definition reveal :: "recipient_page \<Rightarrow> recipient_page \<times> recipient_call list" where
  "reveal p =
     (if token p = [] then (sessionLost p, [])
      else
        (let p1 = setState Submitting (setSubmitting True (p\<lparr>password_error_text := []\<rparr>))
         in (p1, [ConsumeCall (link_request ''/api/v1/secret-links/consume''
                    [(''token'', JStr (token p1)), (''password'', JStr (password_value p1))])])))"

text \<open>
  The \<^verbatim>\<open>try\<close> and \<^verbatim>\<open>catch\<close> of \<^verbatim>\<open>reveal\<close> from its answer on; the second component is
  \<^verbatim>\<open>shouldFocusPassword\<close>.
\<close>

definition reveal_body :: "fetch_result \<Rightarrow> recipient_page \<Rightarrow> recipient_page \<times> bool" where
  "reveal_body r p =
     (case r of
        Rejected \<Rightarrow> (networkError RetryReveal p, False)
      | Answer status b \<Rightarrow>
          (let body = body_or_empty b
           in if \<not> resp_ok status
              then
                (if nullish body then (networkError RetryReveal p, False)
                 else if status = 401 \<and>
                    get_prop body ''code'' = Some (JStr (js ''LINK_PASSWORD_INVALID''))
                 then (setState PasswordError
                         (p\<lparr>password_error_text := cp_wrongPassword (copy p)\<rparr>), True)
                 else if get_prop body ''code'' = Some (JStr (js ''SECRET_UNAVAILABLE''))
                 then (unavailable p, False)
                 else (networkError RetryReveal p, False))
              else
                (let p1 = p\<lparr>token := []\<rparr>
                 in if nullish body then (networkError RetryReveal p1, False)
                    else (case renderSecret (get_prop body ''payload'') (get_prop body ''secret'') p1 of
                            (p2, None) \<Rightarrow> (setState Revealed p2, False)
                          | (p2, Some err) \<Rightarrow> (networkError RetryReveal p2, False)))))"

text \<open>\<^verbatim>\<open>reveal\<close> from its answer on, with the \<^verbatim>\<open>finally\<close> block.\<close>

definition reveal_answer :: "fetch_result \<Rightarrow> recipient_page \<Rightarrow> recipient_page" where
  "reveal_answer r p =
     (let (p1, shouldFocusPassword) = reveal_body r p;
          p2 = setSubmitting False p1;
          p3 = (if currentState p2 = Submitting then setState Ready p2 else p2)
      in if shouldFocusPassword then p3\<lparr>password_focused := True\<rparr> else p3)"

definition networkRetry_click :: "recipient_page \<Rightarrow> recipient_page \<times> recipient_call list" where
  "networkRetry_click p = (if retryAction p = RetryReveal then reveal p else prepare p)"

text \<open>The copy buttons: the text goes to the clipboard, the toast follows if the write succeeds.\<close>

definition copyButton_click :: "recipient_page \<Rightarrow> recipient_page \<times> recipient_call list" where
  "copyButton_click p = (p, if \<not> truthy (revealedText p) then [] else [CopyCall])"

definition copy_answer :: "bool \<Rightarrow> recipient_page \<Rightarrow> recipient_page" where
  "copy_answer written p =
     (if written then toast (cp_copySuccess (copy p)) p else throw_uncaught TypeError p)"

section \<open>The state machine\<close>

text \<open>
  A configuration is the page and the calls under way. An event that the page can get from its user
  needs an element that is displayed and enabled: the class \<^verbatim>\<open>hidden\<close> takes an element out of the display,
  and a disabled button gets no click. \<^verbatim>\<open>ev_hash\<close> is a navigation within the document that changes the
  fragment.
\<close>

type_synonym config = "recipient_page \<times> recipient_call list"

text \<open>The page as the server renders it, before the script has run.\<close>

definition initial_page ::
  "copy_texts \<Rightarrow> bool \<Rightarrow> jstr option \<Rightarrow> jstr \<Rightarrow> jstr \<Rightarrow> recipient_page" where
  "initial_page texts time_library loading_text toggle_label hash =
     \<lparr>toast_region = Some [], toast_next = 0, csrf_meta = None, window_actions = [], uncaught = [],
      token = [], revealedText = Some (JStr []), currentState = Loading, retryAction = RetryPrepare,
      copy = texts, location_hash = hash, has_time_library = time_library, body_state = Loading,
      panel_hidden = (\<lambda>panel. panel \<noteq> Loading), password_hidden = True, password_value = [],
      password_masked = True, password_toggle_text = cp_show texts,
      password_toggle_label = toggle_label, password_invalid = False, password_focused = False,
      password_error_hidden = True, password_error_text = [], reveal_loading_text = loading_text,
      reveal_text = cp_reveal texts, reveal_disabled = False, prepare_text = cp_ready texts,
      expires_nodes = [], structured_hidden = True, structured_rows = [], plain_hidden = True,
      secret_code = [], unavailable_title = cp_unavailableTitle texts,
      unavailable_message = cp_unavailableMessage texts\<rparr>"

definition ready_displayed :: "recipient_page \<Rightarrow> bool" where
  "ready_displayed p \<longleftrightarrow> \<not> panel_hidden p Ready"

definition password_displayed :: "recipient_page \<Rightarrow> bool" where
  "password_displayed p \<longleftrightarrow> ready_displayed p \<and> \<not> password_hidden p"

inductive recipient_step :: "date_engine \<Rightarrow> config \<Rightarrow> config \<Rightarrow> bool" for e :: date_engine where
  ev_reveal: "ready_displayed p \<Longrightarrow> \<not> reveal_disabled p \<Longrightarrow> reveal p = (p', new) \<Longrightarrow>
    recipient_step e (p, cs) (p', cs @ new)"
| ev_enter: "password_displayed p \<Longrightarrow> \<not> reveal_disabled p \<Longrightarrow> reveal p = (p', new) \<Longrightarrow>
    recipient_step e (p, cs) (p', cs @ new)"
| ev_type: "password_displayed p \<Longrightarrow>
    recipient_step e (p, cs) (p\<lparr>password_value := text, password_focused := True\<rparr>, cs)"
| ev_toggle_password: "password_displayed p \<Longrightarrow>
    recipient_step e (p, cs) (setupSecretToggles_click p, cs)"
| ev_retry: "\<not> panel_hidden p NetworkError \<Longrightarrow> networkRetry_click p = (p', new) \<Longrightarrow>
    recipient_step e (p, cs) (p', cs @ new)"
| ev_toggle_row: "\<not> panel_hidden p Revealed \<Longrightarrow> i < length (structured_rows p) \<Longrightarrow>
    \<not> row_reveal_hidden (structured_rows p ! i) \<Longrightarrow>
    recipient_step e (p, cs)
      (p\<lparr>structured_rows := (structured_rows p)[i := toggle_row (copy p) (structured_rows p ! i)]\<rparr>, cs)"
| ev_copy_row: "\<not> panel_hidden p Revealed \<Longrightarrow> i < length (structured_rows p) \<Longrightarrow>
    recipient_step e (p, cs) (p, cs @ [CopyCall])"
| ev_copy_all: "\<not> panel_hidden p Revealed \<Longrightarrow> copyButton_click p = (p', new) \<Longrightarrow>
    recipient_step e (p, cs) (p', cs @ new)"
| ev_prepare_answer:
    "recipient_step e (p, cs @ PrepareCall q # ds) (prepare_answer e r p, cs @ ds)"
| ev_consume_answer:
    "recipient_step e (p, cs @ ConsumeCall q # ds) (reveal_answer r p, cs @ ds)"
| ev_copy_answer:
    "recipient_step e (p, cs @ CopyCall # ds) (copy_answer written p, cs @ ds)"
| ev_toast_timer: "recipient_step e (p, cs) (toast_expire i p, cs)"
| ev_hash: "recipient_step e (p, cs) (p\<lparr>location_hash := hash\<rparr>, cs)"

text \<open>The script ends with a call of \<^verbatim>\<open>prepare\<close>.\<close>

inductive recipient_reachable :: "date_engine \<Rightarrow> config \<Rightarrow> bool" for e :: date_engine where
  reach_load: "prepare (initial_page texts lib loading label hash) = c \<Longrightarrow> recipient_reachable e c"
| reach_step: "recipient_reachable e c \<Longrightarrow> recipient_step e c d \<Longrightarrow> recipient_reachable e d"

section \<open>The invariant\<close>

text \<open>The requests under way, copies apart.\<close>

definition fetches :: "recipient_call list \<Rightarrow> recipient_call list" where
  "fetches cs = filter (\<lambda>c. c \<noteq> CopyCall) cs"

definition prepare_request :: "jstr \<Rightarrow> http_request" where
  "prepare_request t = link_request ''/api/v1/secret-links/prepare'' [(''token'', JStr t)]"

definition consume_request :: "jstr \<Rightarrow> jstr \<Rightarrow> http_request" where
  "consume_request t pw =
     link_request ''/api/v1/secret-links/consume'' [(''token'', JStr t), (''password'', JStr pw)]"

definition calls_match :: "recipient_page \<Rightarrow> recipient_call list \<Rightarrow> bool" where
  "calls_match p fs \<longleftrightarrow>
     (case currentState p of
        Loading \<Rightarrow> fs = [PrepareCall (prepare_request (token p))]
      | Submitting \<Rightarrow> (\<exists>pw. fs = [ConsumeCall (consume_request (token p) pw)])
      | _ \<Rightarrow> fs = [])"

definition display_inv :: "recipient_page \<Rightarrow> bool" where
  "display_inv p \<longleftrightarrow>
     panel_hidden p = (\<lambda>panel. \<not> panel_shown (currentState p) panel) \<and>
     body_state p = currentState p \<and>
     (password_error_hidden p \<longleftrightarrow> currentState p \<noteq> PasswordError) \<and>
     (password_invalid p \<longleftrightarrow> currentState p = PasswordError) \<and>
     (reveal_disabled p \<longleftrightarrow> currentState p = Submitting)"

definition token_inv :: "recipient_page \<Rightarrow> bool" where
  "token_inv p \<longleftrightarrow>
     (currentState p \<in> {Revealed, Unavailable} \<longrightarrow> token p = []) \<and>
     (currentState p \<in> {Loading, Ready, Submitting, PasswordError} \<longrightarrow> token p \<noteq> [])"

definition recipient_inv :: "config \<Rightarrow> bool" where
  "recipient_inv c \<longleftrightarrow> (case c of (p, cs) \<Rightarrow>
     display_inv p \<and> token_inv p \<and> calls_match p (fetches cs))"

named_theorems page_defs \<open>the operations of the recipient page\<close>

lemmas [page_defs] = setState_def setSubmitting_def unavailable_def sessionLost_def networkError_def
  Let_def

lemma fetches_simps [simp]:
  "fetches [] = []" "fetches (cs @ ds) = fetches cs @ fetches ds"
  "fetches (CopyCall # cs) = fetches cs"
  "fetches (PrepareCall q # cs) = PrepareCall q # fetches cs"
  "fetches (ConsumeCall q # cs) = ConsumeCall q # fetches cs"
  by (simp_all add: fetches_def)

text \<open>The states in which a settled operation leaves the page, with all that the invariant asks.\<close>

lemma settled_unavailable:
  "display_inv (unavailable p)" "token_inv (unavailable p)" "calls_match (unavailable p) []"
  "currentState (unavailable p) = Unavailable"
  by (simp_all add: page_defs display_inv_def token_inv_def calls_match_def)

lemma settled_sessionLost:
  "display_inv (sessionLost p)" "token_inv (sessionLost p)" "calls_match (sessionLost p) []"
  "currentState (sessionLost p) = Unavailable"
  by (simp_all add: page_defs display_inv_def token_inv_def calls_match_def)

lemma settled_networkError:
  "display_inv (networkError a p)" "token_inv (networkError a p)" "calls_match (networkError a p) []"
  "currentState (networkError a p) = NetworkError" "token (networkError a p) = token p"
  by (simp_all add: page_defs display_inv_def token_inv_def calls_match_def)

lemmas settled = settled_unavailable settled_sessionLost settled_networkError

lemma prepare_settled:
  "prepare p = (p', new) \<Longrightarrow> \<not> reveal_disabled p \<Longrightarrow>
     display_inv p' \<and> token_inv p' \<and> calls_match p' (fetches new)"
  by (auto simp: prepare_def settled page_defs display_inv_def token_inv_def calls_match_def
      prepare_request_def split: if_splits)

lemma reveal_settled:
  "reveal p = (p', new) \<Longrightarrow> display_inv p' \<and> token_inv p' \<and> calls_match p' (fetches new)"
  by (auto simp: reveal_def settled page_defs display_inv_def token_inv_def calls_match_def
      consume_request_def split: if_splits)

lemma prepare_answer_settled:
  assumes "token p \<noteq> []"
  shows "display_inv (prepare_answer e r p) \<and> token_inv (prepare_answer e r p) \<and>
     calls_match (prepare_answer e r p) []"
proof -
  have "display_inv (setState Ready (setSubmitting False q))" 
    "token q \<noteq> [] \<Longrightarrow> token_inv (setState Ready (setSubmitting False q))"
    "calls_match (setState Ready (setSubmitting False q)) []" for q
    by (simp_all add: page_defs display_inv_def token_inv_def calls_match_def)
  with assms show ?thesis
    by (auto simp: prepare_answer_def settled Let_def split: fetch_result.splits)
qed

text \<open>\<^verbatim>\<open>renderSecret\<close> writes the secret's elements and nothing else.\<close>

lemma renderSecret_frame:
  "token (fst (renderSecret v w p)) = token p"
  "currentState (fst (renderSecret v w p)) = currentState p"
  by (auto simp: renderSecret_def show_plain_def Let_def split: option.splits json.splits)

lemma renderSecret_token: "renderSecret v w p = (p', x) \<Longrightarrow> token p' = token p"
  using renderSecret_frame(1) [of v w p] by simp

lemma reveal_body_forms:
  "(\<exists>q. reveal_body r p = (networkError RetryReveal q, False)) \<or>
   (\<exists>q. reveal_body r p = (setState PasswordError q, True) \<and> token q = token p) \<or>
   reveal_body r p = (unavailable p, False) \<or>
   (\<exists>q. reveal_body r p = (setState Revealed q, False) \<and> token q = [])"
  by (auto simp: reveal_body_def Let_def split: fetch_result.split prod.split option.split
      dest: renderSecret_token)

lemma reveal_answer_settled:
  assumes "token p \<noteq> []"
  shows "display_inv (reveal_answer r p) \<and> token_inv (reveal_answer r p) \<and>
     calls_match (reveal_answer r p) []"
  using assms reveal_body_forms [of r p]
  by (auto simp: reveal_answer_def page_defs display_inv_def token_inv_def calls_match_def)

lemma calls_match_fetch:
  "calls_match p (as @ PrepareCall q # bs) \<Longrightarrow>
     currentState p = Loading \<and> as = [] \<and> bs = [] \<and> q = prepare_request (token p)"
  "calls_match p (as @ ConsumeCall q # bs) \<Longrightarrow>
     currentState p = Submitting \<and> as = [] \<and> bs = [] \<and> (\<exists>pw. q = consume_request (token p) pw)"
  by (auto simp: calls_match_def Cons_eq_append_conv append_eq_Cons_conv
      split: recipient_state.splits)

lemma calls_match_idle:
  "currentState p \<notin> {Loading, Submitting} \<Longrightarrow> calls_match p fs \<longleftrightarrow> fs = []"
  by (cases "currentState p") (auto simp: calls_match_def)

text \<open>Fields that the invariant does not read.\<close>

definition same_control :: "recipient_page \<Rightarrow> recipient_page \<Rightarrow> bool" where
  "same_control p q \<longleftrightarrow>
     currentState p = currentState q \<and> body_state p = body_state q \<and>
     panel_hidden p = panel_hidden q \<and> password_error_hidden p = password_error_hidden q \<and>
     password_invalid p = password_invalid q \<and> reveal_disabled p = reveal_disabled q \<and>
     token p = token q"

lemma recipient_inv_cong:
  "same_control p q \<Longrightarrow> fetches cs = fetches ds \<Longrightarrow> recipient_inv (p, cs) \<Longrightarrow> recipient_inv (q, ds)"
  by (cases "currentState q")
    (simp_all add: same_control_def recipient_inv_def display_inv_def token_inv_def calls_match_def)

lemma same_control_toast [simp]: "same_control p (toast m p)" "same_control p (toast_expire i p)"
  by (simp_all add: same_control_def toast_def toast_expire_def split: option.split)

lemma displayed_states:
  assumes "recipient_inv (p, cs)"
  shows "\<not> panel_hidden p panel \<longleftrightarrow> panel_shown (currentState p) panel"
  using assms by (simp add: recipient_inv_def display_inv_def)

lemma clickable_state:
  assumes "recipient_inv (p, cs)" and "ready_displayed p" and "\<not> reveal_disabled p"
  shows "currentState p \<in> {Ready, PasswordError}"
  using assms by (auto simp: ready_displayed_def displayed_states panel_shown_def
      recipient_inv_def display_inv_def)

lemma start_inv:
  assumes "recipient_inv (p, cs)" and "currentState p \<notin> {Loading, Submitting}"
    and "display_inv p' \<and> token_inv p' \<and> calls_match p' (fetches new)"
  shows "recipient_inv (p', cs @ new)"
  using assms by (simp add: recipient_inv_def calls_match_idle)

lemma recipient_step_inv:
  assumes "recipient_step e c d" and "recipient_inv c"
  shows "recipient_inv d"
  using assms
proof (induction rule: recipient_step.induct)
  case (ev_reveal p p' new cs)
  then show ?case
    using clickable_state [of p cs] by (auto intro!: start_inv dest: reveal_settled)
next
  case (ev_enter p p' new cs)
  then show ?case
    using clickable_state [of p cs]
    by (auto simp: password_displayed_def intro!: start_inv dest: reveal_settled)
next
  case (ev_retry p p' new cs)
  then have state: "currentState p = NetworkError" and enabled: "\<not> reveal_disabled p"
    by (auto simp: displayed_states panel_shown_def recipient_inv_def display_inv_def)
  from ev_retry(2) enabled have "display_inv p' \<and> token_inv p' \<and> calls_match p' (fetches new)"
    by (auto simp: networkRetry_click_def dest: reveal_settled prepare_settled split: if_splits)
  with state ev_retry(3) show ?case by (auto intro: start_inv)
next
  case (ev_prepare_answer p cs q ds r)
  then have m: "calls_match p (fetches cs @ PrepareCall q # fetches ds)" and "token_inv p"
    by (simp_all add: recipient_inv_def)
  with calls_match_fetch(1) [OF m] show ?case
    using prepare_answer_settled [of p e r] by (simp add: recipient_inv_def token_inv_def)
next
  case (ev_consume_answer p cs q ds r)
  then have m: "calls_match p (fetches cs @ ConsumeCall q # fetches ds)" and "token_inv p"
    by (simp_all add: recipient_inv_def)
  with calls_match_fetch(2) [OF m] show ?case
    using reveal_answer_settled [of p r] by (simp add: recipient_inv_def token_inv_def)
next
  case (ev_copy_all p p' new cs)
  then show ?case
    by (auto simp: copyButton_click_def elim!: recipient_inv_cong [rotated 2] split: if_splits)
       (auto simp: same_control_def)
next
  case (ev_copy_answer p cs ds written)
  then show ?case
    by (auto simp: copy_answer_def throw_uncaught_def elim!: recipient_inv_cong [rotated 2])
       (auto simp: same_control_def)
qed (auto simp: same_control_def setupSecretToggles_click_def toast_expire_def Let_def
    elim!: recipient_inv_cong [rotated 2])

lemma recipient_load_inv:
  assumes "prepare (initial_page texts lib loading label hash) = c"
  shows "recipient_inv c"
proof (cases c)
  case (Pair p cs)
  with assms have "prepare (initial_page texts lib loading label hash) = (p, cs)" by simp
  moreover have "\<not> reveal_disabled (initial_page texts lib loading label hash)"
    by (simp add: initial_page_def)
  ultimately show ?thesis using Pair prepare_settled by (auto simp: recipient_inv_def)
qed

lemma recipient_reachable_inv: "recipient_reachable e c \<Longrightarrow> recipient_inv c"
  by (induction rule: recipient_reachable.induct) (blast intro: recipient_load_inv recipient_step_inv)+

section \<open>Properties\<close>

text \<open>
  A run for the witnesses: a page opened at \<^verbatim>\<open>/s#abc\<close>, whose link needs a password, and an engine that
  formats no date.
\<close>

definition sample_engine :: date_engine where
  "sample_engine = \<lparr>parse_date = (\<lambda>_. None), intl_format = (\<lambda>_ _ _. None)\<rparr>"

definition sample_page :: recipient_page where
  "sample_page = initial_page (copy_of None) True None (js ''Show'') (js ''#abc'')"

definition sample_ready :: recipient_page where
  "sample_ready = prepare_answer sample_engine
     (Answer 200 (Some (obj [(''may_attempt'', JBool True), (''password_required'', JBool True)])))
     (fst (prepare sample_page))"

definition sample_submitting :: recipient_page where
  "sample_submitting = fst (reveal sample_ready)"

definition sample_secret :: json where
  "sample_secret = obj
     [(''payload'', obj [(''type'', JStr (js ''structured'')),
        (''fields'', JArr [obj [(''name'', JStr (js ''password'')), (''label'', JStr (js ''Password'')),
           (''value'', JStr (js ''s3cret'')), (''sensitive'', JBool True)]])])]"

lemma sample_load: "prepare sample_page =
    (setState Loading (sample_page\<lparr>token := js ''abc'', location_hash := []\<rparr>),
     [PrepareCall (prepare_request (js ''abc''))])"
  by (simp add: prepare_def sample_page_def initial_page_def prepare_request_def Let_def)

lemma sample_reach_load:
  "recipient_reachable sample_engine
     (fst (prepare sample_page), [] @ PrepareCall (prepare_request (js ''abc'')) # [])"
  by (rule reach_load [where texts = "copy_of None" and lib = True and loading = None
        and label = "js ''Show''" and hash = "js ''#abc''"])
     (simp add: sample_page_def [symmetric] sample_load)

lemma sample_ready_facts:
  "currentState sample_ready = Ready" "token sample_ready = js ''abc''"
  "display_inv sample_ready" "password_value sample_ready = []"
  unfolding sample_ready_def sample_load
  by (simp_all add: prepare_answer_def resp_ok_def page_defs display_inv_def sample_page_def
      initial_page_def)

lemma sample_reach_ready: "recipient_reachable sample_engine (sample_ready, [])"
  using reach_step [OF sample_reach_load ev_prepare_answer [where r = "Answer 200 (Some (obj
      [(''may_attempt'', JBool True), (''password_required'', JBool True)]))"]]
  by (simp add: sample_ready_def)

lemma sample_reveal: "reveal sample_ready =
    (sample_submitting, [ConsumeCall (consume_request (js ''abc'') [])])"
  by (simp add: sample_submitting_def reveal_def sample_ready_facts consume_request_def page_defs)

lemma sample_reach_submitting: "recipient_reachable sample_engine
    (sample_submitting, [] @ ConsumeCall (consume_request (js ''abc'') []) # [])"
proof -
  have "recipient_step sample_engine (sample_ready, [])
     (sample_submitting, [] @ [ConsumeCall (consume_request (js ''abc'') [])])"
    by (rule ev_reveal [OF _ _ sample_reveal])
      (use sample_ready_facts in \<open>simp_all add: ready_displayed_def display_inv_def panel_shown_def\<close>)
  then show ?thesis using reach_step [OF sample_reach_ready] by simp
qed

lemma sample_submitting_token [simp]: "token sample_submitting = js ''abc''"
  by (simp add: sample_submitting_def reveal_def sample_ready_facts page_defs)

lemma sample_reach_revealed: "recipient_reachable sample_engine
    (reveal_answer (Answer 200 (Some sample_secret)) sample_submitting, [])"
  using reach_step [OF sample_reach_submitting
      ev_consume_answer [where r = "Answer 200 (Some sample_secret)"]] by simp

lemma sample_revealed_state:
  "currentState (reveal_answer (Answer 200 (Some sample_secret)) sample_submitting) = Revealed"
  by (simp add: reveal_answer_def reveal_body_def sample_secret_def resp_ok_def renderSecret_def
      page_defs)

text \<open>C31: In every state the page can reach exactly one of its panels is displayed, the one of the
  current state; the panel \<open>ready\<close> is displayed while a password is checked or refused.\<close>

theorem recipient_one_panel:
  assumes "recipient_reachable e (p, cs)"
  shows "visible_panels p =
      [if currentState p \<in> {Ready, Submitting, PasswordError} then Ready else currentState p] \<and>
    body_state p = currentState p"
  using recipient_reachable_inv [OF assms]
  by (cases "currentState p")
    (simp_all add: recipient_inv_def display_inv_def visible_panels_def panels_def panel_shown_def)

theorem recipient_one_panel_witness:
  "visible_panels sample_submitting = [Ready] \<and> currentState sample_submitting = Submitting"
  using recipient_one_panel [OF sample_reach_submitting]
  by (simp add: sample_submitting_def reveal_def sample_ready_facts page_defs)

text \<open>C32: At most one request is under way, and the reveal button is disabled exactly while the secret is
  being requested; so two clicks, or a click and the Enter key, never consume a link twice.\<close>

theorem recipient_single_request:
  assumes "recipient_reachable e (p, cs)"
  shows "length (fetches cs) \<le> 1 \<and>
    (reveal_disabled p \<longleftrightarrow> (\<exists>q. ConsumeCall q \<in> set cs)) \<and>
    (currentState p = Submitting \<longleftrightarrow> (\<exists>q. ConsumeCall q \<in> set cs))"
proof -
  have "ConsumeCall q \<in> set cs \<longleftrightarrow> ConsumeCall q \<in> set (fetches cs)" for q
    by (simp add: fetches_def)
  then show ?thesis
    using recipient_reachable_inv [OF assms]
    by (cases "currentState p") (auto simp: recipient_inv_def display_inv_def calls_match_def)
qed

theorem recipient_single_request_witness:
  "reveal_disabled sample_submitting \<and>
   length (fetches [ConsumeCall (consume_request (js ''abc'') [])]) \<le> 1"
  using recipient_single_request [OF sample_reach_submitting] by auto

text \<open>C34: Every request under way is a POST, with the JSON content type, to the fixed URL of one of the two link routes;
  its JSON body holds the token that the page holds, and for the consume the password, and the token is nowhere else in it.\<close>

theorem recipient_token_in_body_only:
  assumes "recipient_reachable e (p, cs)" and "c \<in> set cs"
  shows "c = CopyCall \<or>
    c = PrepareCall \<lparr>rq_method = ''POST'', rq_url = js ''/api/v1/secret-links/prepare'',
      rq_headers = [(''Content-Type'', js ''application/json'')], rq_body = Some (JObj [(js ''token'', JStr (token p))])\<rparr> \<or>
    (\<exists>pw. c = ConsumeCall \<lparr>rq_method = ''POST'', rq_url = js ''/api/v1/secret-links/consume'',
      rq_headers = [(''Content-Type'', js ''application/json'')],
      rq_body = Some (JObj [(js ''token'', JStr (token p)), (js ''password'', JStr pw)])\<rparr>)"
proof (cases "c = CopyCall")
  case False
  with assms(2) have "c \<in> set (fetches cs)" by (simp add: fetches_def)
  with recipient_reachable_inv [OF assms(1)] show ?thesis
    by (cases "currentState p") (auto simp: recipient_inv_def calls_match_def prepare_request_def consume_request_def
      link_request_def json_headers_def obj_def)
qed simp

theorem recipient_token_in_body_only_witness:
  "\<exists>pw. ConsumeCall (consume_request (js ''abc'') []) =
     ConsumeCall \<lparr>rq_method = ''POST'', rq_url = js ''/api/v1/secret-links/consume'',
      rq_headers = [(''Content-Type'', js ''application/json'')],
      rq_body = Some (JObj [(js ''token'', JStr (token sample_submitting)), (js ''password'', JStr pw)])\<rparr>"
  using recipient_token_in_body_only [OF sample_reach_submitting, of
      "ConsumeCall (consume_request (js ''abc'') [])"] by auto

lemma recipient_step_closed:
  assumes "recipient_step e c d" and "recipient_inv c" and "currentState (fst c) \<in> {Revealed, Unavailable}"
  shows "currentState (fst d) = currentState (fst c)"
  using assms
proof (induction rule: recipient_step.induct)
  case (ev_reveal p p' new cs)
  then show ?case using clickable_state [of p cs] by auto
next
  case (ev_enter p p' new cs)
  then show ?case using clickable_state [of p cs] by (auto simp: password_displayed_def)
next
  case (ev_retry p p' new cs)
  then show ?case by (auto simp: displayed_states panel_shown_def)
next
  case (ev_prepare_answer p cs q ds r)
  then show ?case using calls_match_fetch(1) [of p "fetches cs" q "fetches ds"]
    by (auto simp: recipient_inv_def)
next
  case (ev_consume_answer p cs q ds r)
  then show ?case using calls_match_fetch(2) [of p "fetches cs" q "fetches ds"]
    by (auto simp: recipient_inv_def)
qed (auto simp: copyButton_click_def copy_answer_def toast_def throw_uncaught_def toast_expire_def
    setupSecretToggles_click_def Let_def split: option.splits)

lemma recipient_steps_inv:
  "(recipient_step e)\<^sup>*\<^sup>* c d \<Longrightarrow> recipient_inv c \<Longrightarrow> recipient_inv d"
  by (induction rule: rtranclp_induct) (auto intro: recipient_step_inv)

lemma recipient_steps_closed:
  assumes "(recipient_step e)\<^sup>*\<^sup>* c d" and "recipient_inv c"
    and "currentState (fst c) \<in> {Revealed, Unavailable}"
  shows "currentState (fst d) = currentState (fst c)"
  using assms(1)
proof (induction rule: rtranclp_induct)
  case (step d f)
  then show ?case
    using recipient_step_closed [OF step(2)] recipient_steps_inv [OF step(1) assms(2)] assms(3) by auto
qed simp

text \<open>C33: Once the information is revealed, or the link is reported as unavailable, the page stays there
  whatever happens next: it forgets the token and never sends a request again.\<close>

theorem recipient_closed_is_final:
  assumes "recipient_reachable e (p, cs)" and "currentState p \<in> {Revealed, Unavailable}"
    and "(recipient_step e)\<^sup>*\<^sup>* (p, cs) (p', cs')"
  shows "currentState p' = currentState p \<and> token p' = [] \<and> fetches cs' = []"
proof -
  have inv: "recipient_inv (p, cs)" by (rule recipient_reachable_inv [OF assms(1)])
  from recipient_steps_inv [OF assms(3) inv] recipient_steps_closed [OF assms(3) inv] assms(2)
  show ?thesis by (auto simp: recipient_inv_def token_inv_def calls_match_def)
qed

theorem recipient_closed_is_final_witness:
  "token (reveal_answer (Answer 200 (Some sample_secret)) sample_submitting) = []"
  using recipient_closed_is_final [OF sample_reach_revealed _ rtranclp.rtrancl_refl]
  by (simp add: sample_revealed_state)

text \<open>Opening a link takes the token out of the address bar before anything else, and the first request
  carries it; when the fragment is empty and no token is held, the page asks for the original link.\<close>

theorem recipient_load_takes_token:
  "(let (p, cs) = prepare (initial_page texts lib loading label (0x23 # t))
    in location_hash p = (if t = [] then [0x23] else []) \<and> token p = t \<and>
       cs = (if t = [] then [] else [PrepareCall (prepare_request t)]) \<and>
       currentState p = (if t = [] then Unavailable else Loading))"
  by (simp add: prepare_def initial_page_def prepare_request_def page_defs)

text \<open>C35: A wrong link password does not cost the link: the page keeps the token, shows the message, gives
  the focus back to the password, and the next attempt sends the same token with the new password.\<close>

theorem recipient_wrong_password_retry:
  assumes "get_prop (Some body) ''code'' = Some (JStr (js ''LINK_PASSWORD_INVALID''))"
    and "token p \<noteq> []"
  shows "(let q = reveal_answer (Answer 401 (Some body)) p
    in currentState q = PasswordError \<and> \<not> reveal_disabled q \<and> password_focused q \<and>
       password_error_text q = cp_wrongPassword (copy p) \<and> visible_panels q = [Ready] \<and>
       snd (reveal (q\<lparr>password_value := pw\<rparr>)) = [ConsumeCall (consume_request (token p) pw)])"
proof -
  have "body \<noteq> JNull" using assms(1) by auto
  then show ?thesis
    using assms
    by (simp add: reveal_answer_def reveal_body_def resp_ok_def nullish_def page_defs reveal_def
        consume_request_def visible_panels_def panels_def panel_shown_def)
qed

theorem recipient_wrong_password_retry_witness:
  "currentState (reveal_answer (Answer 401
     (Some (obj [(''code'', JStr (js ''LINK_PASSWORD_INVALID''))]))) sample_submitting) = PasswordError"
  using recipient_wrong_password_retry
    [of "obj [(''code'', JStr (js ''LINK_PASSWORD_INVALID''))]" sample_submitting "js ''again''"]
  by (simp add: Let_def)

text \<open>Every answer to a reveal request ends the submission: the button is enabled again and the page is
  in one of four states. It is \<open>Revealed\<close> exactly for a 2xx answer whose body \<^verbatim>\<open>renderSecret\<close> could
  show, and \<open>PasswordError\<close> exactly for a 401 with the code of a wrong password.\<close>

theorem recipient_answer_settles:
  "\<not> reveal_disabled (reveal_answer r p) \<and>
   currentState (reveal_answer r p) \<in> {PasswordError, Revealed, Unavailable, NetworkError} \<and>
   (currentState (reveal_answer r p) = Revealed \<longleftrightarrow>
     (\<exists>status b. r = Answer status b \<and> resp_ok status \<and> \<not> nullish (body_or_empty b) \<and>
        snd (renderSecret (get_prop (body_or_empty b) ''payload'')
          (get_prop (body_or_empty b) ''secret'') (p\<lparr>token := []\<rparr>)) = None)) \<and>
   (currentState (reveal_answer r p) = PasswordError \<longleftrightarrow>
     (\<exists>b. r = Answer 401 b \<and>
        get_prop (body_or_empty b) ''code'' = Some (JStr (js ''LINK_PASSWORD_INVALID''))))"
  by (auto simp: reveal_answer_def reveal_body_def page_defs resp_ok_def
      split: fetch_result.split prod.split option.split dest: get_prop_not_nullish)

text \<open>A structured secret is shown field by field, in the order it was sent: a sensitive value as the
  mask, any other as it is, and the text to copy has one line for each field.\<close>

theorem recipient_shows_structured:
  assumes "get_prop (Some body) ''payload'' =
      Some (obj [(''type'', JStr (js ''structured'')), (''fields'', JArr fs)])"
    and "JNull \<notin> set fs" and "resp_ok status"
  shows "(let q = reveal_answer (Answer status (Some body)) p
    in currentState q = Revealed \<and> \<not> structured_hidden q \<and> plain_hidden q \<and>
       map row_value (structured_rows q) = map (\<lambda>f. to_string (get_prop (Some f) ''value'')) fs \<and>
       map row_text (structured_rows q) =
         map (\<lambda>f. if truthy (get_prop (Some f) ''sensitive'') then mask
                  else to_string (get_prop (Some f) ''value'')) fs \<and>
       revealedText q = Some (JStr (join [0x0A] (map (\<lambda>f. field_line (Some f)) fs))))"
proof -
  have "body \<noteq> JNull" using assms(1) by auto
  moreover have "\<not> (\<exists>f \<in> set fs. nullish (Some f))" using assms(2) by (auto simp: nullish_def)
  ultimately show ?thesis
    using assms(1,3)
    by (simp add: reveal_answer_def reveal_body_def nullish_def page_defs renderSecret_def
        renderField_def comp_def)
qed

theorem recipient_shows_structured_witness:
  "map row_text (structured_rows
     (reveal_answer (Answer 200 (Some sample_secret)) sample_submitting)) = [mask]"
  using recipient_shows_structured [of sample_secret
      "[obj [(''name'', JStr (js ''password'')), (''label'', JStr (js ''Password'')),
         (''value'', JStr (js ''s3cret'')), (''sensitive'', JBool True)]]" 200 sample_submitting]
  by (simp add: sample_secret_def resp_ok_def Let_def obj_def)

text \<open>The button of a sensitive field shows its value and masks it again: two clicks give the row back
  as it was rendered, and one click shows the value, whatever the value is (the mask itself and the
  empty text included).\<close>

theorem recipient_row_toggles:
  assumes "truthy (get_prop field ''sensitive'')"
  shows "(let row = renderField texts field
    in toggle_row texts (toggle_row texts row) = row \<and>
       row_text (toggle_row texts row) = to_string (get_prop field ''value''))"
  using assms by (simp add: renderField_def toggle_row_def Let_def)

theorem recipient_row_toggles_witness:
  "row_text (toggle_row (copy_of None) (renderField (copy_of None)
     (Some (obj [(''value'', JStr (js ''x'')), (''sensitive'', JBool True)])))) = js ''x''"
  using recipient_row_toggles
    [of "Some (obj [(''value'', JStr (js ''x'')), (''sensitive'', JBool True)])" "copy_of None"]
  by (simp add: Let_def)

text \<open>When the body of a successful answer cannot be read, \<^verbatim>\<open>catch(() => ({}))\<close> turns it into an empty
  object and the page reports the secret as revealed with an empty text; the server has consumed the
  link and the token is gone. A body of \<^verbatim>\<open>null\<close> gives the network panel, whose retry can only ask for
  the original link.\<close>

theorem recipient_unreadable_body:
  assumes "resp_ok status"
  shows "(let q = reveal_answer (Answer status None) p
    in currentState q = Revealed \<and> secret_code q = [] \<and> revealedText q = None \<and> token q = []) \<and>
   (let q = reveal_answer (Answer status (Some JNull)) p
    in currentState q = NetworkError \<and> token q = [] \<and>
       snd (networkRetry_click q) = [] \<and> currentState (fst (networkRetry_click q)) = Unavailable)"
  using assms
  by (simp add: reveal_answer_def reveal_body_def renderSecret_def show_plain_def
      stringify_val_indent_def networkRetry_click_def reveal_def page_defs)

theorem recipient_unreadable_body_witness:
  "currentState (reveal_answer (Answer 200 None) sample_submitting) = Revealed \<and>
   secret_code (reveal_answer (Answer 200 None) sample_submitting) = []"
  using recipient_unreadable_body [of 200 sample_submitting] by (simp add: resp_ok_def Let_def)

end
