(* ===== verification/SecretForm.thy ===== *)
theory SecretForm
  imports JsonParse Browser "HOL-Library.Multiset"
begin

text \<open>
  The secret content of the create page: the part of \<^verbatim>\<open>setupCreateSecret\<close> in
  \<^verbatim>\<open>web/static/admin.js\<close> that keeps the rows of a structured secret and turns the form into a payload
  model, with the checks made before anything is sent. The submission itself is in
  \<open>SecretSubmit\<close>. A raised \<^verbatim>\<open>Error\<close> is the left side of a sum.
\<close>

definition MAX_FIELDS :: nat where
  "MAX_FIELDS = 50"

definition MAX_SECRET_BYTES :: nat where
  "MAX_SECRET_BYTES = 32768"

section \<open>Field names and labels\<close>

text \<open>The pattern \<^verbatim>\<open>/^[A-Za-z0-9_.-]+$/\<close>.\<close>

definition name_char :: "jchar \<Rightarrow> bool" where
  "name_char c \<longleftrightarrow> (0x41 \<le> c \<and> c \<le> 0x5A) \<or> (0x61 \<le> c \<and> c \<le> 0x7A) \<or> (0x30 \<le> c \<and> c \<le> 0x39) \<or>
     c = 0x5F \<or> c = 0x2E \<or> c = 0x2D"

definition valid_name :: "jstr \<Rightarrow> bool" where
  "valid_name s \<longleftrightarrow> s \<noteq> [] \<and> list_all name_char s"

lemma valid_name_js [text_literals]:
  "valid_name (js s) \<longleftrightarrow> s \<noteq> [] \<and> list_all (\<lambda>c. let n = of_char c :: nat in
     65 \<le> n \<and> n \<le> 90 \<or> 97 \<le> n \<and> n \<le> 122 \<or> 48 \<le> n \<and> n \<le> 57 \<or> n = 95 \<or> n = 46 \<or> n = 45) s"
  by (simp add: valid_name_def name_char_def list_all_js code_unit_simps Let_def)

text \<open>
  The label of a field. \<^verbatim>\<open>credentialLabels[normalized]\<close> looks the name up in an object literal, so the two
  lower-case names that every object inherits are found as well: \<^verbatim>\<open>constructor\<close>, the function
  \<^verbatim>\<open>Object\<close>, and \<^verbatim>\<open>__proto__\<close>, the prototype object.
\<close>

datatype label = LabelText jstr | LabelFunction | LabelPrototype

definition separator_char :: "jchar \<Rightarrow> bool" where
  "separator_char c \<longleftrightarrow> c = 0x5F \<or> c = 0x2E \<or> c = 0x2D"

text \<open>\<^verbatim>\<open>name.replace(/[_.-]+/g, " ")\<close>; the flag says that the previous character was a separator.\<close>

fun collapse_separators :: "bool \<Rightarrow> jstr \<Rightarrow> jstr" where
  "collapse_separators inside [] = []"
| "collapse_separators inside (c # s) =
     (if separator_char c then (if inside then [] else [0x20]) @ collapse_separators True s
      else c # collapse_separators False s)"

definition word_char :: "jchar \<Rightarrow> bool" where
  "word_char c \<longleftrightarrow> (0x41 \<le> c \<and> c \<le> 0x5A) \<or> (0x61 \<le> c \<and> c \<le> 0x7A) \<or> (0x30 \<le> c \<and> c \<le> 0x39) \<or> c = 0x5F"

definition upper_ascii :: "jchar \<Rightarrow> jchar" where
  "upper_ascii c = (if 0x61 \<le> c \<and> c \<le> 0x7A then c - 32 else c)"

text \<open>\<^verbatim>\<open>.replace(/\b\w/g, (value) => value.toUpperCase())\<close>: a word character after none.\<close>

fun capitalise :: "bool \<Rightarrow> jstr \<Rightarrow> jstr" where
  "capitalise in_word [] = []"
| "capitalise in_word (c # s) =
     (if word_char c \<and> \<not> in_word then upper_ascii c else c) # capitalise (word_char c) s"

definition labelForField :: "jstr \<Rightarrow> label" where
  "labelForField name =
     (let normalized = to_lower name
      in if normalized = js ''client_id'' then LabelText (js ''OAuth Client ID'')
         else if normalized = js ''client_secret'' then LabelText (js ''OAuth Client Secret'')
         else if normalized = js ''constructor'' then LabelFunction
         else if normalized = js ''__proto__'' then LabelPrototype
         else LabelText (capitalise False (collapse_separators False name)))"

text \<open>A label in a template string.\<close>

fun label_string :: "label \<Rightarrow> jstr" where
  "label_string (LabelText s) = s"
| "label_string LabelFunction = js ''function Object() { [native code] }''"
| "label_string LabelPrototype = js ''[object Object]''"

text \<open>
  The property \<^verbatim>\<open>label\<close> under \<^verbatim>\<open>JSON.stringify\<close>: a function is left out, the prototype is an empty
  object.
\<close>

fun label_property :: "label \<Rightarrow> (string \<times> json) list" where
  "label_property (LabelText s) = [(''label'', JStr s)]"
| "label_property LabelFunction = []"
| "label_property LabelPrototype = [(''label'', JObj [])]"

section \<open>Rows\<close>

record preset_field =
  pr_name :: "jstr option"
  pr_sensitive :: "bool option"
  pr_multiline :: "bool option"

definition fieldPresets :: "(string \<times> bool \<times> bool option) list" where
  "fieldPresets =
     [(''username'', False, None), (''password'', True, None), (''api_key'', True, None),
      (''client_id'', False, None), (''client_secret'', True, None), (''access_token'', True, None),
      (''refresh_token'', True, None), (''host'', False, None), (''port'', False, None),
      (''database'', False, None), (''connection_string'', True, Some True),
      (''private_key'', True, Some True), (''certificate'', False, Some True)]"

text \<open>\<^verbatim>\<open>fieldPresets[normalized] || {}\<close>, spread over a fresh object with the name.\<close>

definition preset_for :: "jstr \<Rightarrow> preset_field" where
  "preset_for normalized =
     (case map_of (map (\<lambda>(k, v). (js k, v)) fieldPresets) normalized of
        None \<Rightarrow> \<lparr>pr_name = Some normalized, pr_sensitive = None, pr_multiline = None\<rparr>
      | Some (s, m) \<Rightarrow> \<lparr>pr_name = Some normalized, pr_sensitive = Some s, pr_multiline = m\<rparr>)"

definition empty_preset :: preset_field where
  "empty_preset = \<lparr>pr_name = None, pr_sensitive = None, pr_multiline = None\<rparr>"

record form_row =
  fr_key :: jstr
  fr_value :: jstr
  fr_masked :: bool
  fr_toggle_text :: jstr
  fr_sensitive :: bool
  fr_multiline :: bool

definition rowTemplate :: "preset_field \<Rightarrow> form_row" where
  "rowTemplate preset =
     \<lparr>fr_key = string_or_empty (pr_name preset), fr_value = [], fr_masked = True,
      fr_toggle_text = js ''Show'', fr_sensitive = (pr_sensitive preset \<noteq> Some False),
      fr_multiline = (pr_multiline preset = Some True)\<rparr>"

text \<open>The button of a row's value, as \<^verbatim>\<open>setupSecretToggles\<close> installs it.\<close>

definition row_toggle :: "form_row \<Rightarrow> form_row" where
  "row_toggle r =
     (let reveal = fr_masked r
      in r\<lparr>fr_masked := \<not> reveal, fr_toggle_text := (if reveal then js ''Hide'' else js ''Show'')\<rparr>)"

text \<open>
  The rows, the message under the picker (\<open>None\<close> on a page without the element), the picker's value,
  and the input that has the focus.
\<close>

datatype row_focus = NoFocus | FocusKey nat | FocusValue nat

record row_editor =
  kvRows :: "form_row list"
  structuredError :: "jstr option"
  fieldPicker :: jstr
  row_focus :: row_focus

definition set_structured_error :: "jstr \<Rightarrow> row_editor \<Rightarrow> row_editor" where
  "set_structured_error text ed = ed\<lparr>structuredError := map_option (\<lambda>_. text) (structuredError ed)\<rparr>"

definition currentFieldNames :: "row_editor \<Rightarrow> jstr list" where
  "currentFieldNames ed = filter (\<lambda>s. s \<noteq> []) (map (\<lambda>r. to_lower (trim (fr_key r))) (kvRows ed))"

definition addStructuredField :: "jstr \<Rightarrow> row_editor \<Rightarrow> row_editor \<times> bool" where
  "addStructuredField name ed =
     (if MAX_FIELDS \<le> length (kvRows ed)
      then (set_structured_error
              (js ''Structured secrets are limited to '' @ nat_digits MAX_FIELDS @ js '' fields.'') ed,
            False)
      else
        (let normalized = to_lower (trim name)
         in if normalized \<noteq> [] \<and> normalized \<in> set (currentFieldNames ed)
            then (set_structured_error
                    (label_string (labelForField name) @ js '' has already been added.'') ed, False)
            else
              (let preset = (if normalized \<noteq> [] then preset_for normalized else empty_preset);
                   index = length (kvRows ed);
                   ed1 = ed\<lparr>kvRows := kvRows ed @ [rowTemplate preset]\<rparr>
               in ((set_structured_error [] ed1)
                     \<lparr>row_focus := (if normalized \<noteq> [] then FocusValue index else FocusKey index)\<rparr>,
                   True))))"

text \<open>The picker: \<open>selected\<close> is the option the user has chosen.\<close>

definition picker_change :: "jstr \<Rightarrow> row_editor \<Rightarrow> row_editor" where
  "picker_change selected ed =
     (let ed1 = ed\<lparr>fieldPicker := []\<rparr>
      in if selected = [] then ed1
         else fst (addStructuredField
                (if selected = js ''__custom__'' then [] else selected) ed1))"

definition add_row_click :: "row_editor \<Rightarrow> row_editor" where
  "add_row_click ed = fst (addStructuredField [] ed)"

text \<open>
  The buttons of row \<open>i\<close>. A click hits one of them, so of the three tests of the handler one holds.
\<close>

datatype row_action = RemoveRow | MoveRowUp | MoveRowDown

definition remove_at :: "nat \<Rightarrow> 'a list \<Rightarrow> 'a list" where
  "remove_at i xs = take i xs @ drop (Suc i) xs"

definition swap_next :: "nat \<Rightarrow> 'a list \<Rightarrow> 'a list" where
  "swap_next i xs = (if Suc i < length xs then xs[i := xs ! Suc i, Suc i := xs ! i] else xs)"

definition row_click :: "row_action \<Rightarrow> nat \<Rightarrow> row_editor \<Rightarrow> row_editor" where
  "row_click action i ed =
     (if length (kvRows ed) \<le> i then ed
      else
        (case action of
           RemoveRow \<Rightarrow> set_structured_error [] (ed\<lparr>kvRows := remove_at i (kvRows ed)\<rparr>)
         | MoveRowUp \<Rightarrow> (if 0 < i then ed\<lparr>kvRows := swap_next (i - 1) (kvRows ed)\<rparr> else ed)
         | MoveRowDown \<Rightarrow> ed\<lparr>kvRows := swap_next i (kvRows ed)\<rparr>))"

section \<open>The payload model\<close>

record payload_field =
  pf_name :: jstr
  pf_label :: label
  pf_value :: jstr
  pf_sensitive :: bool
  pf_multiline :: bool

datatype payload_model =
    StructuredPayload "payload_field list"
  | JsonPayload json
  | TextPayload jstr

text \<open>The loop of \<^verbatim>\<open>structuredPayload\<close>; \<open>seen\<close> are the normalised names before this row.\<close>

fun collect_fields :: "jstr list \<Rightarrow> form_row list \<Rightarrow> js_error + payload_field list" where
  "collect_fields seen [] = Inr []"
| "collect_fields seen (r # rs) =
     (let key = trim (fr_key r); normalized = to_lower key
      in if key = [] then Inl (Thrown (js ''Every structured field needs a key.''))
         else if \<not> valid_name key then Inl (Thrown (js ''Invalid field name: '' @ key))
         else if normalized \<in> set seen then Inl (Thrown (js ''Duplicate key: '' @ key))
         else
           (case collect_fields (normalized # seen) rs of
              Inl e \<Rightarrow> Inl e
            | Inr fs \<Rightarrow>
                Inr (\<lparr>pf_name = key, pf_label = labelForField key, pf_value = fr_value r,
                      pf_sensitive = fr_sensitive r, pf_multiline = fr_multiline r\<rparr> # fs)))"

definition structuredPayload :: "form_row list \<Rightarrow> js_error + payload_model" where
  "structuredPayload rows =
     (if rows = [] then Inl (Thrown (js ''Add at least one structured field.''))
      else (case collect_fields [] rows of Inl e \<Rightarrow> Inl e | Inr fs \<Rightarrow> Inr (StructuredPayload fs)))"

definition plainPayload :: "(jstr \<Rightarrow> jstr) \<Rightarrow> form \<Rightarrow> js_error + payload_model" where
  "plainPayload syntax_message data =
     (let raw = form_string data ''secret_plain''
      in if trim raw = [] then Inl (Thrown (js ''Plain text secret content is required.''))
         else if data ''plain_format'' = Some (js ''json'')
         then (case json_parse syntax_message raw of Inl e \<Rightarrow> Inl e | Inr v \<Rightarrow> Inr (JsonPayload v))
         else Inr (TextPayload raw))"

text \<open>A payload model as \<^verbatim>\<open>JSON.stringify\<close> sees it.\<close>

definition field_json :: "payload_field \<Rightarrow> json" where
  "field_json f = obj ([(''name'', JStr (pf_name f))] @ label_property (pf_label f) @
     [(''value'', JStr (pf_value f)), (''sensitive'', JBool (pf_sensitive f)),
      (''multiline'', JBool (pf_multiline f))])"

fun payload_json :: "payload_model \<Rightarrow> json" where
  "payload_json (StructuredPayload fs) =
     obj [(''type'', JStr (js ''structured'')), (''fields'', JArr (map field_json fs))]"
| "payload_json (JsonPayload v) = obj [(''type'', JStr (js ''json'')), (''value'', v)]"
| "payload_json (TextPayload s) = obj [(''type'', JStr (js ''text'')), (''text'', JStr s)]"

definition validateSize :: "payload_model \<Rightarrow> js_error option" where
  "validateSize payload =
     (if MAX_SECRET_BYTES < utf8_length (stringify (payload_json payload))
      then Some (Thrown (js ''Secret payload exceeds the 32 KB limit.'')) else None)"

text \<open>
  The two modes of the form and the \<^verbatim>\<open>try\<close> block of the submit handler: the payload model, or the error
  whose message the status line shows.
\<close>

definition build_payload ::
  "(jstr \<Rightarrow> jstr) \<Rightarrow> jstr \<Rightarrow> form_row list \<Rightarrow> form \<Rightarrow> js_error + payload_model" where
  "build_payload syntax_message mode rows data =
     (case (if mode = js ''structured'' then structuredPayload rows
            else plainPayload syntax_message data) of
        Inl e \<Rightarrow> Inl e
      | Inr payload \<Rightarrow> (case validateSize payload of Some e \<Rightarrow> Inl e | None \<Rightarrow> Inr payload))"

fun error_message :: "js_error \<Rightarrow> jstr" where
  "error_message (Thrown m) = m"
| "error_message TypeError = js ''TypeError''"

section \<open>The structured payload\<close>

text \<open>What the loop accepts, stated over the whole list of rows.\<close>

definition row_key :: "form_row \<Rightarrow> jstr" where
  "row_key r = trim (fr_key r)"

definition row_field :: "form_row \<Rightarrow> payload_field" where
  "row_field r =
     \<lparr>pf_name = row_key r, pf_label = labelForField (row_key r), pf_value = fr_value r,
      pf_sensitive = fr_sensitive r, pf_multiline = fr_multiline r\<rparr>"

definition well_formed_rows :: "form_row list \<Rightarrow> bool" where
  "well_formed_rows rows \<longleftrightarrow>
     rows \<noteq> [] \<and> (\<forall>r \<in> set rows. valid_name (row_key r)) \<and>
     distinct (map (\<lambda>r. to_lower (row_key r)) rows)"

definition row_norm :: "form_row \<Rightarrow> jstr" where
  "row_norm r = to_lower (row_key r)"

text \<open>The rows that the loop passes when it has already seen some names.\<close>

definition rows_pass :: "jstr list \<Rightarrow> form_row list \<Rightarrow> bool" where
  "rows_pass seen rows \<longleftrightarrow>
     (\<forall>r \<in> set rows. valid_name (row_key r) \<and> row_norm r \<notin> set seen) \<and> distinct (map row_norm rows)"

definition row_error :: "jstr list \<Rightarrow> form_row \<Rightarrow> js_error option" where
  "row_error seen r =
     (if row_key r = [] then Some (Thrown (js ''Every structured field needs a key.''))
      else if \<not> valid_name (row_key r) then Some (Thrown (js ''Invalid field name: '' @ row_key r))
      else if row_norm r \<in> set seen then Some (Thrown (js ''Duplicate key: '' @ row_key r))
      else None)"

lemma collect_fields_Cons:
  "collect_fields seen (r # rs) =
     (case row_error seen r of Some e \<Rightarrow> Inl e
      | None \<Rightarrow> map_sum id (Cons (row_field r)) (collect_fields (row_norm r # seen) rs))"
  by (simp add: Let_def row_error_def row_norm_def row_key_def row_field_def split: sum.split)

declare collect_fields.simps(2) [simp del]

lemma row_error_None: "row_error seen r = None \<longleftrightarrow> rows_pass seen [r]"
  by (auto simp: row_error_def rows_pass_def valid_name_def)

lemma rows_pass_Cons:
  "rows_pass seen (r # rs) \<longleftrightarrow> rows_pass seen [r] \<and> rows_pass (row_norm r # seen) rs"
  by (force simp: rows_pass_def image_iff)

lemma collect_fields_append:
  "rows_pass seen pre \<Longrightarrow> collect_fields seen (pre @ rest) =
     map_sum id (append (map row_field pre)) (collect_fields (rev (map row_norm pre) @ seen) rest)"
proof (induction pre arbitrary: seen)
  case Nil
  then show ?case by (cases "collect_fields seen rest") simp_all
next
  case (Cons r pre)
  from Cons.prems have "row_error seen r = None" and "rows_pass (row_norm r # seen) pre"
    by (auto simp: rows_pass_Cons [of seen r pre] row_error_None)
  with Cons.IH [of "row_norm r # seen"] show ?case
    by (simp add: collect_fields_Cons sum.map_comp comp_def id_def)
qed

lemma collect_fields_pass: "rows_pass seen rows \<Longrightarrow> collect_fields seen rows = Inr (map row_field rows)"
  using collect_fields_append [of seen rows "[]"] by simp

lemma collect_fields_passed: "collect_fields seen rows = Inr fs \<Longrightarrow> rows_pass seen rows"
proof (induction rows arbitrary: seen fs)
  case Nil
  then show ?case by (simp add: rows_pass_def)
next
  case (Cons r rs)
  then have "row_error seen r = None" and "\<exists>gs. collect_fields (row_norm r # seen) rs = Inr gs"
    by (cases "collect_fields (row_norm r # seen) rs"; auto simp: collect_fields_Cons split: option.splits)+
  with Cons.IH show ?case by (auto simp: rows_pass_Cons [of seen r rs] row_error_None)
qed

lemma well_formed_rows_pass: "well_formed_rows rows \<longleftrightarrow> rows \<noteq> [] \<and> rows_pass [] rows"
  by (auto simp: well_formed_rows_def rows_pass_def row_norm_def [abs_def])

lemma collect_fields_iff: "collect_fields [] rows = Inr fs \<longleftrightarrow> rows_pass [] rows \<and> fs = map row_field rows"
  using collect_fields_pass [of "[]" rows] collect_fields_passed [of "[]" rows fs] by auto

text \<open>C36: \<^verbatim>\<open>structuredPayload\<close> accepts exactly the non-empty forms whose trimmed keys are valid names, no
  two of them equal up to case, and returns one field for each row in order, with its label.\<close>

theorem structuredPayload_spec:
  "structuredPayload rows = Inr m \<longleftrightarrow>
     well_formed_rows rows \<and> m = StructuredPayload (map row_field rows)"
proof (cases "collect_fields [] rows")
  case (Inl e)
  then have "\<not> rows_pass [] rows" using collect_fields_pass [of "[]" rows] by auto
  with Inl show ?thesis by (auto simp: structuredPayload_def well_formed_rows_pass)
next
  case (Inr fs)
  then have "rows_pass [] rows" and "fs = map row_field rows" by (simp_all add: collect_fields_iff)
  with Inr show ?thesis by (auto simp: structuredPayload_def well_formed_rows_pass)
qed

text \<open>A rejected form names its first offending row: the rows before it pass, and the message is
  that of a missing, an invalid or a duplicate key.\<close>

theorem structuredPayload_first_error:
  assumes "well_formed_rows pre \<or> pre = []" and "\<not> well_formed_rows (pre @ [r])"
  shows "structuredPayload (pre @ r # post) = Inl (Thrown
    (if row_key r = [] then js ''Every structured field needs a key.''
     else if \<not> valid_name (row_key r) then js ''Invalid field name: '' @ row_key r
     else js ''Duplicate key: '' @ row_key r))"
proof -
  have pre: "rows_pass [] pre"
    using assms(1) by (auto simp: well_formed_rows_pass rows_pass_def)
  have "row_norm r \<in> set (map row_norm pre)" if "valid_name (row_key r)"
    using assms(2) pre that by (auto simp: well_formed_rows_pass rows_pass_def)
  then show ?thesis
    using collect_fields_append [OF pre, of "r # post"]
    by (auto simp: structuredPayload_def collect_fields_Cons row_error_def)
qed

definition sample_row :: "string \<Rightarrow> string \<Rightarrow> form_row" where
  "sample_row key v =
     \<lparr>fr_key = js key, fr_value = js v, fr_masked = True, fr_toggle_text = js ''Show'',
      fr_sensitive = True, fr_multiline = False\<rparr>"

theorem structuredPayload_first_error_witness:
  "structuredPayload [sample_row ''user'' ''a'', sample_row '' USER'' ''b'', sample_row '''' ''c''] =
     Inl (Thrown (js ''Duplicate key: USER''))"
proof -
  have ok: "well_formed_rows [sample_row ''user'' ''a'']"
    and no: "\<not> well_formed_rows ([sample_row ''user'' ''a''] @ [sample_row '' USER'' ''b''])"
    and key: "row_key (sample_row '' USER'' ''b'') = js ''USER''" "valid_name (js ''USER'')"
    by code_simp+
  show ?thesis
    using structuredPayload_first_error [OF disjI1 [OF ok] no, of "[sample_row '''' ''c'']"] key
    by (simp add: literal_simps)
qed

section \<open>The editor of the rows\<close>

text \<open>Everything the page can do to the rows: the picker, the two kinds of buttons, typing, the toggles.\<close>

inductive editor_step :: "row_editor \<Rightarrow> row_editor \<Rightarrow> bool" where
  edit_pick: "editor_step ed (picker_change selected ed)"
| edit_add: "editor_step ed (add_row_click ed)"
| edit_click: "editor_step ed (row_click action i ed)"
| edit_key: "i < length (kvRows ed) \<Longrightarrow>
    editor_step ed (ed\<lparr>kvRows := (kvRows ed)[i := (kvRows ed ! i)\<lparr>fr_key := text\<rparr>]\<rparr>)"
| edit_value: "i < length (kvRows ed) \<Longrightarrow>
    editor_step ed (ed\<lparr>kvRows := (kvRows ed)[i := (kvRows ed ! i)\<lparr>fr_value := text\<rparr>]\<rparr>)"
| edit_boxes: "i < length (kvRows ed) \<Longrightarrow>
    editor_step ed (ed\<lparr>kvRows := (kvRows ed)[i := (kvRows ed ! i)\<lparr>fr_sensitive := s, fr_multiline := m\<rparr>]\<rparr>)"
| edit_toggle: "i < length (kvRows ed) \<Longrightarrow>
    editor_step ed (ed\<lparr>kvRows := (kvRows ed)[i := row_toggle (kvRows ed ! i)]\<rparr>)"

lemma kvRows_set_structured_error [simp]: "kvRows (set_structured_error t ed) = kvRows ed"
  by (simp add: set_structured_error_def)

lemma kvRows_addStructuredField:
  "kvRows (fst (addStructuredField name ed)) =
     kvRows ed @ (if snd (addStructuredField name ed)
       then [rowTemplate (if to_lower (trim name) \<noteq> [] then preset_for (to_lower (trim name))
                          else empty_preset)] else [])"
  by (simp add: addStructuredField_def Let_def)

lemma addStructuredField_accepts:
  "snd (addStructuredField name ed) \<longleftrightarrow>
     length (kvRows ed) < MAX_FIELDS \<and>
     (trim name = [] \<or> to_lower (trim name) \<notin> set (currentFieldNames ed))"
  by (auto simp: addStructuredField_def Let_def)

lemma length_swap_next [simp]: "length (swap_next i xs) = length xs"
  by (simp add: swap_next_def)

lemma mset_swap_next [simp]: "mset (swap_next i xs) = mset xs"
  by (simp add: swap_next_def mset_swap)

lemma swap_next_swap_next [simp]: "swap_next i (swap_next i xs) = xs"
  by (auto simp: swap_next_def list_eq_iff_nth_eq nth_list_update)

lemma length_remove_at [simp]: "length (remove_at i xs) \<le> length xs"
  by (simp add: remove_at_def)

lemma add_bounded:
  "length (kvRows ed) \<le> MAX_FIELDS \<Longrightarrow>
   length (kvRows (fst (addStructuredField name ed))) \<le> MAX_FIELDS"
  using addStructuredField_accepts [of name ed] by (simp add: kvRows_addStructuredField)

lemma editor_step_bounded:
  "editor_step ed ed' \<Longrightarrow> length (kvRows ed) \<le> MAX_FIELDS \<Longrightarrow> length (kvRows ed') \<le> MAX_FIELDS"
proof (induction rule: editor_step.induct)
  case (edit_pick ed selected)
  then show ?case
    using add_bounded [of "ed\<lparr>fieldPicker := []\<rparr>"] by (simp add: picker_change_def Let_def)
next
  case (edit_add ed)
  then show ?case using add_bounded by (simp add: add_row_click_def)
next
  case (edit_click ed action i)
  then show ?case
    using length_remove_at [of i "kvRows ed"]
    by (auto simp: row_click_def split: row_action.split intro: le_trans [OF length_remove_at])
qed simp_all

text \<open>Whatever the user does, the form never has more than 50 rows.\<close>

theorem editor_rows_bounded:
  assumes "editor_step\<^sup>*\<^sup>* ed ed'" and "length (kvRows ed) \<le> MAX_FIELDS"
  shows "length (kvRows ed') \<le> MAX_FIELDS"
  using assms by (induction rule: rtranclp_induct) (auto intro: editor_step_bounded)

definition sample_editor :: row_editor where
  "sample_editor = \<lparr>kvRows = [], structuredError = Some [], fieldPicker = [], row_focus = NoFocus\<rparr>"

theorem editor_rows_bounded_witness:
  "length (kvRows (picker_change (js ''port'') sample_editor)) \<le> MAX_FIELDS"
  using editor_rows_bounded [OF r_into_rtranclp, OF edit_pick, of sample_editor]
  by (simp add: sample_editor_def)

lemma set_currentFieldNames:
  "currentFieldNames (fst (addStructuredField name ed)) = currentFieldNames ed @
     (if snd (addStructuredField name ed) \<and> trim name \<noteq> [] then [to_lower (trim name)] else [])"
  by (auto simp: currentFieldNames_def kvRows_addStructuredField rowTemplate_def preset_for_def
      empty_preset_def string_or_empty_def or_default_def trim_to_lower split: option.split)

text \<open>The picker adds a field exactly when there is room and no row has its name up to case and outer
  blanks; then the names of the form grow by the one picked and distinct names stay distinct. A
  refused field leaves the rows alone.\<close>

theorem addStructuredField_spec:
  assumes "addStructuredField name ed = (ed', ok)"
  shows "(ok \<longleftrightarrow> length (kvRows ed) < MAX_FIELDS \<and>
       (trim name = [] \<or> to_lower (trim name) \<notin> set (currentFieldNames ed))) \<and>
     (\<not> ok \<longrightarrow> kvRows ed' = kvRows ed) \<and>
     (ok \<longrightarrow> kvRows ed' \<noteq> [] \<and> butlast (kvRows ed') = kvRows ed \<and> fr_masked (last (kvRows ed')) \<and>
       currentFieldNames ed' =
         currentFieldNames ed @ (if trim name = [] then [] else [to_lower (trim name)])) \<and>
     (distinct (currentFieldNames ed) \<longrightarrow> distinct (currentFieldNames ed'))"
proof -
  have ed': "ed' = fst (addStructuredField name ed)" and ok: "ok = snd (addStructuredField name ed)"
    by (simp_all add: assms)
  show ?thesis
    using addStructuredField_accepts [of name ed]
    unfolding ed' ok set_currentFieldNames kvRows_addStructuredField
    by (auto simp: rowTemplate_def)
qed

definition sample_editor_port :: row_editor where
  "sample_editor_port = fst (addStructuredField (js '' Port'') sample_editor)"

theorem addStructuredField_spec_witness:
  "\<not> snd (addStructuredField (js ''PORT '') sample_editor_port) \<and>
   currentFieldNames sample_editor_port = [js ''port'']"
proof -
  have "to_lower (trim (js ''PORT '')) = js ''port''" "to_lower (trim (js '' Port'')) = js ''port''"
    "trim (js ''PORT '') = js ''PORT''" "trim (js '' Port'') = js ''Port''"
    by (simp_all add: trim_def to_lower_def lower_units_def js_def is_white_def)
  then show ?thesis
    using addStructuredField_spec [OF prod.collapse [symmetric], of "js ''PORT ''" sample_editor_port]
      addStructuredField_spec [OF prod.collapse [symmetric], of "js '' Port''" sample_editor]
    by (simp add: sample_editor_port_def [symmetric])
      (simp add: sample_editor_def currentFieldNames_def MAX_FIELDS_def)
qed

text \<open>The move buttons only permute the rows, and moving a row down and up again, or up and down,
  gives the form back; removing a row drops that one alone.\<close>

theorem row_buttons_spec:
  assumes "i < length (kvRows ed)"
  shows "mset (kvRows (row_click MoveRowUp i ed)) = mset (kvRows ed) \<and>
    mset (kvRows (row_click MoveRowDown i ed)) = mset (kvRows ed) \<and>
    (Suc i < length (kvRows ed) \<longrightarrow> row_click MoveRowUp (Suc i) (row_click MoveRowDown i ed) = ed) \<and>
    (0 < i \<longrightarrow> row_click MoveRowDown (i - 1) (row_click MoveRowUp i ed) = ed) \<and>
    kvRows (row_click RemoveRow i ed) = take i (kvRows ed) @ drop (Suc i) (kvRows ed)"
  using assms by (auto simp: row_click_def remove_at_def)

theorem row_buttons_spec_witness:
  "kvRows (row_click RemoveRow 0 sample_editor_port) = []"
  using row_buttons_spec [of 0 sample_editor_port]
  by (simp add: sample_editor_port_def kvRows_addStructuredField addStructuredField_accepts)
    (simp add: sample_editor_def MAX_FIELDS_def currentFieldNames_def)

lemma validateSize_None:
  "validateSize m = None \<longleftrightarrow> utf8_length (stringify (payload_json m)) \<le> MAX_SECRET_BYTES"
  by (simp add: validateSize_def)

lemma build_payload_Inr:
  "build_payload sm mode rows data = Inr m \<longleftrightarrow>
     (if mode = js ''structured'' then structuredPayload rows else plainPayload sm data) = Inr m \<and>
     validateSize m = None"
  by (auto simp: build_payload_def split: sum.splits option.splits)

lemma sublist_field_value: "sublist (stringify (JStr (pf_value f))) (stringify (field_json f))"
  unfolding field_json_def obj_def by (rule sublist_stringify_object [where k = "js ''value''"]) simp

lemma sublist_payload_field:
  "f \<in> set fs \<Longrightarrow> sublist (stringify (field_json f)) (stringify (payload_json (StructuredPayload fs)))"
  unfolding payload_json.simps obj_def
  by (rule sublist_order.order.trans [OF sublist_stringify_array
        sublist_stringify_object [where k = "js ''fields''"]]) auto

lemma sublist_payload_text:
  "sublist (stringify (JStr s)) (stringify (payload_json (TextPayload s)))"
  unfolding payload_json.simps obj_def by (rule sublist_stringify_object [where k = "js ''text''"]) simp

lemma payload_values_bounded:
  assumes "utf8_length (stringify (payload_json m)) \<le> n"
  shows "m = StructuredPayload fs \<Longrightarrow> f \<in> set fs \<Longrightarrow> utf8_length (pf_value f) \<le> n"
    and "m = TextPayload s \<Longrightarrow> utf8_length s \<le> n"
  using assms utf8_length_stringify_string
    utf8_length_sublist [OF sublist_field_value] utf8_length_sublist [OF sublist_payload_field]
    utf8_length_sublist [OF sublist_payload_text]
  by (meson le_trans)+

text \<open>C37: A payload the form accepts takes at most 32768 bytes as UTF-8 JSON, and so does each field value
  and the text of a plain secret; a form that is not accepted gives an error with a message.\<close>

theorem build_payload_bounded:
  assumes "build_payload sm mode rows data = Inr m"
  shows "utf8_length (stringify (payload_json m)) \<le> 32768 \<and>
    (\<forall>fs. m = StructuredPayload fs \<longrightarrow> well_formed_rows rows \<and>
       (\<forall>f \<in> set fs. utf8_length (pf_value f) \<le> 32768)) \<and>
    (\<forall>s. m = TextPayload s \<longrightarrow> trim s \<noteq> [] \<and> utf8_length s \<le> 32768)"
proof -
  have m: "(if mode = js ''structured'' then structuredPayload rows else plainPayload sm data) = Inr m"
    and size: "utf8_length (stringify (payload_json m)) \<le> 32768"
    using assms by (simp_all add: build_payload_Inr validateSize_None MAX_SECRET_BYTES_def)
  then show ?thesis
    using payload_values_bounded [OF size]
    by (auto simp: structuredPayload_def plainPayload_def Let_def well_formed_rows_pass
        dest: collect_fields_passed split: if_splits sum.splits)
qed

lemma sample_row_pass: "rows_pass [] [sample_row ''user'' ''a'']"
  by (simp add: rows_pass_def sample_row_def row_key_def text_literals)

definition sample_field :: payload_field where
  "sample_field = \<lparr>pf_name = js ''user'', pf_label = LabelText (js ''User''), pf_value = js ''a'',
     pf_sensitive = True, pf_multiline = False\<rparr>"

lemma sample_row_field: "row_field (sample_row ''user'' ''a'') = sample_field"
proof -
  have "labelForField (js ''user'') = LabelText (js ''User'')"
    by (simp add: labelForField_def text_literals Let_def)
      (simp add: js_def separator_char_def word_char_def upper_ascii_def)
  moreover have "row_key (sample_row ''user'' ''a'') = js ''user''"
    by (simp add: row_key_def sample_row_def text_literals)
  ultimately show ?thesis by (simp add: row_field_def sample_field_def) (simp add: sample_row_def)
qed

lemma sample_field_size: "validateSize (StructuredPayload [sample_field]) = None"
  by (simp add: validateSize_None MAX_SECRET_BYTES_def sample_field_def field_json_def obj_def join_def
      text_literals js_append)

lemma sample_payload:
  "build_payload (\<lambda>s. s) (js ''structured'') [sample_row ''user'' ''a''] (\<lambda>k. None) =
     Inr (StructuredPayload [sample_field])"
  by (simp add: build_payload_Inr structuredPayload_def collect_fields_pass [OF sample_row_pass]
      sample_field_size sample_row_field)

theorem build_payload_bounded_witness:
  "utf8_length (stringify (payload_json (StructuredPayload [sample_field]))) \<le> 32768"
  using build_payload_bounded [OF sample_payload] by blast

end
