(* ===== verification/SecretSubmit.thy ===== *)
theory SecretSubmit
  imports SecretForm Browser
begin

text \<open>
  The submission of the create page and its result panel: the rest of \<^verbatim>\<open>setupCreateSecret\<close> in
  \<^verbatim>\<open>web/static/admin.js\<close>. The elements the script uses without a test are those of
  \<^verbatim>\<open>web/templates/new_secret.html\<close>; the ones it tests are options. \<open>create_submit\<close> runs to the request,
  \<open>create_answer\<close> from its result to the end; together they keep the contract \<open>single_flight\<close>.
\<close>

section \<open>The page\<close>

record create_page = ui +
  has_dialog :: bool
  has_time_lib :: bool
  form_data :: form
  form_defaults :: form
  editor :: row_editor
  mode_buttons :: "(jstr \<times> bool) list"
  mode_panels :: "(jstr \<times> bool) list"
  delivery_buttons :: "(jstr \<times> bool) list"
  delivery_panels :: "(jstr \<times> bool) list"
  selected_lifetime :: "jstr option"
  submit_button :: "button option"
  status_line :: "jstr option"
  delivery_status :: "jstr option"
  password_summary :: "jstr option"
  createdID :: val
  createdPayload :: val
  result_hidden :: bool
  created_id :: jstr
  created_expires :: "time_element option"
  created_lifetime :: jstr
  created_password :: jstr
  created_recipient :: jstr
  created_url :: jstr
  created_email_status :: jstr
  created_email_sent :: "time_element option"
  retry_panel_hidden :: "bool option"
  retry_to :: jstr
  retry_name :: jstr
  retry_subject :: jstr
  retry_message :: jstr
  view_link :: jstr
  revoke_button_disabled :: bool

definition setStatus :: "jstr \<Rightarrow> create_page \<Rightarrow> create_page" where
  "setStatus message p = p\<lparr>status_line := map_option (\<lambda>_. message) (status_line p)\<rparr>"

text \<open>
  The segmented controls: a button is a pair of its data attribute and the class \<^verbatim>\<open>active\<close>, a panel a pair
  of its data attribute and the class \<^verbatim>\<open>hidden\<close>.
\<close>

definition active_mode :: "(jstr \<times> bool) list \<Rightarrow> string \<Rightarrow> jstr" where
  "active_mode buttons d = or_default (map_option fst (find snd buttons)) (js d)"

definition mode :: "create_page \<Rightarrow> jstr" where
  "mode p = active_mode (mode_buttons p) ''structured''"

definition deliveryMode :: "create_page \<Rightarrow> jstr" where
  "deliveryMode p = active_mode (delivery_buttons p) ''link''"

definition setMode :: "jstr \<Rightarrow> create_page \<Rightarrow> create_page" where
  "setMode next p = p\<lparr>
     mode_buttons := map (\<lambda>(m, _). (m, m = next)) (mode_buttons p),
     mode_panels := map (\<lambda>(m, _). (m, m \<noteq> next)) (mode_panels p)\<rparr>"

definition setDeliveryMode :: "jstr \<Rightarrow> create_page \<Rightarrow> create_page" where
  "setDeliveryMode next p = p\<lparr>
     delivery_buttons := map (\<lambda>(m, _). (m, m = next)) (delivery_buttons p),
     delivery_panels := map (\<lambda>(m, _). (m, m \<noteq> next)) (delivery_panels p)\<rparr>"

definition selectedLifetimeLabel :: "create_page \<Rightarrow> jstr" where
  "selectedLifetimeLabel p = or_default (selected_lifetime p) (js ''Custom'')"

section \<open>The request\<close>

text \<open>The body of the create request, in the order of the object literal.\<close>

definition email_json :: "form \<Rightarrow> json" where
  "email_json data = obj
     [(''send'', JBool True),
      (''to'', JStr (form_string data ''delivery_to'')),
      (''recipient_name'', JStr (form_string data ''delivery_recipient_name'')),
      (''use_default_template'', JBool (form_checked data ''delivery_use_default_template'')),
      (''subject'', JStr (form_string data ''delivery_subject'')),
      (''message'', JStr (form_string data ''delivery_message''))]"

definition create_body :: "form \<Rightarrow> bool \<Rightarrow> payload_model \<Rightarrow> json" where
  "create_body data sendEmail payloadModel =
     (let password = form_string data ''password''
      in obj ([(''title'', JStr (form_string data ''title'')),
               (''description'', JStr (form_string data ''description'')),
               (''recipient_reference'', JStr (form_string data ''recipient_reference'')),
               (''payload'', payload_json payloadModel),
               (''expires_in_seconds'', form_number_or data ''expires_in_seconds'' 86400),
               (''password'', if password \<noteq> [] then JStr password else JNull),
               (''max_failed_attempts'', form_number_or data ''max_failed_attempts'' 5)] @
              (if sendEmail then [(''delivery'', obj [(''email'', email_json data)])] else [])))"

definition set_loading :: "bool \<Rightarrow> create_page \<Rightarrow> create_page" where
  "set_loading loading p =
     p\<lparr>submit_button := map_option (setButtonLoading loading) (submit_button p)\<rparr>"

text \<open>The submit handler up to its request; the pending call keeps the payload it closes over.\<close>

definition create_submit ::
  "(jstr \<Rightarrow> jstr) \<Rightarrow> create_page \<Rightarrow> create_page \<times> http_request option" where
  "create_submit syntax_message p =
     (let p1 = (setStatus [] p)\<lparr>result_hidden := True\<rparr>;
          data = form_data p1
      in case build_payload syntax_message (mode p1) (kvRows (editor p1)) data of
           Inl err \<Rightarrow> (setStatus (error_message err) p1, None)
         | Inr payloadModel \<Rightarrow>
             (let body = create_body data (deliveryMode p1 = js ''email'') payloadModel
              in (setStatus (js ''Creating encrypted one-time link...'') (set_loading True p1),
                  Some \<lparr>rq_method = ''POST'', rq_url = js ''/api/v1/secret-links'',
                        rq_headers = csrfHeaders p1 json_headers, rq_body = Some body\<rparr>)))"

text \<open>\<^verbatim>\<open>fillResult(response, payload)\<close>; it raises at its first statement when the response is \<^verbatim>\<open>null\<close>.\<close>

definition email_line :: "val \<Rightarrow> jstr" where
  "email_line email =
     (if truthy (get_prop email ''requested'')
      then to_string (get_prop email ''status'') @
           (if truthy (get_prop email ''to'') then js '' to '' @ to_string (get_prop email ''to'') else [])
      else js ''Not requested'')"

definition result_email :: "val \<Rightarrow> val" where
  "result_email response =
     or_val (get_prop (get_prop response ''delivery'') ''email'')
       (Some (obj [(''requested'', JBool False), (''status'', JStr (js ''not_requested''))]))"

definition fillResult :: "date_engine \<Rightarrow> val \<Rightarrow> val \<Rightarrow> create_page \<Rightarrow> create_page" where
  "fillResult e response payload p =
     (let email = result_email response;
          id = get_prop response ''id'';
          retry = get_prop (get_prop payload ''delivery'') ''email'';
          or_blank = (\<lambda>k. input_value (or_val (get_prop retry k) (Some (JStr []))))
      in p\<lparr>createdID := id, createdPayload := payload,
           created_id := text_of id,
           created_expires := renderLocalTime e (has_time_lib p) (created_expires p)
             (get_prop response ''expires_at'') (js ''Invalid date''),
           created_lifetime := selectedLifetimeLabel p,
           created_password := (if truthy (get_prop payload ''password'') then js ''Yes'' else js ''No''),
           created_recipient := message_or (get_prop payload ''recipient_reference'') ''Not provided'',
           created_url := input_value (get_prop response ''url''),
           created_email_status := email_line email,
           created_email_sent := renderLocalTime e (has_time_lib p) (created_email_sent p)
             (get_prop email ''sent_at'') (js ''Not sent''),
           retry_panel_hidden := map_option (\<lambda>_. \<not> truthy (get_prop email ''requested''))
             (retry_panel_hidden p),
           retry_to := or_blank ''to'', retry_name := or_blank ''recipient_name'',
           retry_subject := or_blank ''subject'', retry_message := or_blank ''message'',
           view_link := js ''/admin/secrets/'' @ to_string id,
           revoke_button_disabled := False,
           result_hidden := False\<rparr>)"

text \<open>
  The submit handler from its answer on. There is no \<^verbatim>\<open>catch\<close>: a rejected request and a \<^verbatim>\<open>null\<close> body leave
  the handler as an error, after \<^verbatim>\<open>finally\<close> has given the button back.
\<close>

definition create_answer ::
  "date_engine \<Rightarrow> http_request \<Rightarrow> fetch_result \<Rightarrow> create_page \<Rightarrow> create_page" where
  "create_answer e sent r p =
     set_loading False
       (case r of
          Rejected \<Rightarrow> throw_uncaught TypeError p
        | Answer status b \<Rightarrow>
            (let body = body_or_empty b
             in if \<not> resp_ok status
                then (case body_message body ''The secure link could not be created.'' of
                        Inl err \<Rightarrow> throw_uncaught err p
                      | Inr text \<Rightarrow> setStatus text p)
                else if nullish body then throw_uncaught TypeError p
                else toast (js ''One-time link created.'')
                       (setStatus (js ''Secure link created.'') (fillResult e body (rq_body sent) p))))"

section \<open>The result panel\<close>

text \<open>\<^verbatim>\<open>#revoke-created-url\<close>: the click, the confirmation, the answer.\<close>

definition revoke_created_click :: "create_page \<Rightarrow> confirm_prompt option" where
  "revoke_created_click p =
     (if \<not> truthy (createdID p) then None
      else Some (confirmAction (has_dialog p) ''Revoke this link?''
                   ''Recipients will no longer be able to reveal this secret.''))"

definition revoke_created_confirmed :: "bool \<Rightarrow> create_page \<Rightarrow> http_request option" where
  "revoke_created_confirmed ok p =
     (if \<not> ok then None
      else Some \<lparr>rq_method = ''POST'',
                 rq_url = js ''/api/v1/secret-links/'' @ to_string (createdID p) @ js ''/revoke'',
                 rq_headers = csrfHeaders p [], rq_body = None\<rparr>)"

definition revoke_created_answer :: "fetch_result \<Rightarrow> create_page \<Rightarrow> create_page" where
  "revoke_created_answer r p =
     (case r of
        Rejected \<Rightarrow> throw_uncaught TypeError p
      | Answer status b \<Rightarrow>
          (if resp_ok status
           then toast (js ''Link revoked.'') (p\<lparr>revoke_button_disabled := True\<rparr>)
           else toast (js ''The link was already unavailable.'') p))"

definition create_another :: "create_page \<Rightarrow> create_page" where
  "create_another p =
     (let p1 = p\<lparr>form_data := form_defaults p, createdID := Some (JStr []), createdPayload := Some JNull,
                 result_hidden := True\<rparr>;
          p2 = setStatus [] (setDeliveryMode (js ''link'') (setMode (js ''structured'') p1))
      in p2\<lparr>editor := set_structured_error [] ((editor p2)\<lparr>kvRows := [], fieldPicker := []\<rparr>)\<rparr>)"

text \<open>\<^verbatim>\<open>[data-delivery-preview]\<close>: the request and the answer.\<close>

definition delivery_preview_click :: "create_page \<Rightarrow> http_request" where
  "delivery_preview_click p =
     \<lparr>rq_method = ''POST'', rq_url = js ''/api/v1/settings/email/template-preview'',
      rq_headers = csrfHeaders p json_headers,
      rq_body = Some (obj [(''subject'', JStr (form_string (form_data p) ''delivery_subject'')),
                           (''message'', JStr (form_string (form_data p) ''delivery_message''))])\<rparr>"

definition delivery_preview_answer :: "fetch_result \<Rightarrow> create_page \<Rightarrow> create_page" where
  "delivery_preview_answer r p =
     (case r of
        Rejected \<Rightarrow> throw_uncaught TypeError p
      | Answer status b \<Rightarrow>
          (let body = body_or_empty b
           in if delivery_status p = None then p
              else if nullish body then throw_uncaught TypeError p
              else p\<lparr>delivery_status := Some
                (if resp_ok status
                 then js ''Preview ready: '' @ message_or (get_prop body ''subject'') ''default subject''
                      @ js ''.''
                 else message_or (get_prop body ''message'') ''Preview failed.'')\<rparr>))"

text \<open>\<^verbatim>\<open>#retry-email\<close>: the token is read back from the URL that the panel still shows.\<close>

definition url_token :: "jstr \<Rightarrow> jstr" where
  "url_token url = (if includes_char url 0x23 then split_last 0x23 url else [])"

definition retry_email_click :: "create_page \<Rightarrow> create_page \<times> http_request option" where
  "retry_email_click p =
     (let token = url_token (created_url p)
      in if token = [] then (toast (js ''Retry is unavailable after the raw token is gone.'') p, None)
         else (p, Some
           \<lparr>rq_method = ''POST'', rq_url = js ''/api/v1/secret-links/send-email'',
            rq_headers = csrfHeaders p json_headers,
            rq_body = Some (obj [(''token'', JStr token), (''to'', JStr (retry_to p)),
              (''recipient_name'', JStr (retry_name p)), (''subject'', JStr (retry_subject p)),
              (''message'', JStr (retry_message p))])\<rparr>))"

definition retry_email_answer :: "fetch_result \<Rightarrow> create_page \<Rightarrow> create_page" where
  "retry_email_answer r p =
     (case r of
        Rejected \<Rightarrow> throw_uncaught TypeError p
      | Answer status b \<Rightarrow>
          (let body = body_or_empty b
           in if resp_ok status \<and> nullish body then throw_uncaught TypeError p
              else toast (if resp_ok status \<and>
                    get_prop (get_prop body ''email'') ''status'' = Some (JStr (js ''sent''))
                  then js ''Email retry sent.'' else js ''Email retry failed.'') p))"

definition copy_url_answer :: "bool \<Rightarrow> create_page \<Rightarrow> create_page" where
  "copy_url_answer written p =
     (if written then toast (js ''One-time URL copied.'') p else throw_uncaught TypeError p)"

text \<open>The listener of the form's input events; the new control values are \<open>data\<close>.\<close>

definition form_input :: "form \<Rightarrow> create_page \<Rightarrow> create_page" where
  "form_input data p =
     (let p1 = p\<lparr>form_data := data\<rparr>;
          password = form_string data ''password'';
          p2 = p1\<lparr>password_summary := map_option (\<lambda>_.
                 if password \<noteq> [] then js ''Password protection is enabled for this link.''
                 else js ''Password protection is optional.'') (password_summary p1)\<rparr>
      in if truthy (createdPayload p2) then p2\<lparr>createdPayload := Some JNull\<rparr> else p2)"

section \<open>Everything else that can happen on the page\<close>

inductive create_other :: "create_page \<Rightarrow> create_page \<Rightarrow> bool" where
  other_mode: "create_other p (setMode m p)"
| other_delivery: "create_other p (setDeliveryMode m p)"
| other_input: "create_other p (form_input data p)"
| other_editor: "create_other p (p\<lparr>editor := ed\<rparr>)"
| other_revoke: "create_other p (revoke_created_answer r p)"
| other_another: "create_other p (create_another p)"
| other_preview: "create_other p (delivery_preview_answer r p)"
| other_retry: "create_other p (fst (retry_email_click p))"
| other_retry_answer: "create_other p (retry_email_answer r p)"
| other_copy: "create_other p (copy_url_answer written p)"
| other_timer: "create_other p (toast_expire i p)"

lemma submit_button_toast [simp]: "submit_button (toast m p) = submit_button p"
  by (simp add: toast_def split: option.split)

lemma create_other_button: "create_other p q \<Longrightarrow> submit_button q = submit_button p"
  by (induction rule: create_other.induct)
    (simp_all add: setMode_def setDeliveryMode_def form_input_def revoke_created_answer_def
      throw_uncaught_def create_another_def setStatus_def delivery_preview_answer_def
      retry_email_click_def retry_email_answer_def copy_url_answer_def toast_expire_def Let_def
      split: fetch_result.split)

definition create_busy :: "create_page \<Rightarrow> bool" where
  "create_busy p \<longleftrightarrow> button_busy (submit_button p)"

lemma submit_button_create_submit:
  "create_submit sm p = (p', q) \<Longrightarrow> submit_button p' =
     (if q = None then submit_button p else map_option (setButtonLoading True) (submit_button p))"
  by (auto simp: create_submit_def set_loading_def setStatus_def Let_def split: sum.splits)

lemma submit_button_create_answer:
  "submit_button (create_answer e q r p) = map_option (setButtonLoading False) (submit_button p)"
  by (simp add: create_answer_def set_loading_def throw_uncaught_def setStatus_def fillResult_def Let_def
      split: fetch_result.split sum.split)

interpretation create: single_flight "create_submit sm" "create_answer e" create_busy create_other
    "\<lambda>p. submit_button p \<noteq> None" for sm e
  by unfold_locales
    (auto simp: create_busy_def submit_button_create_answer create_other_button
      dest: submit_button_create_submit split: if_splits)

section \<open>Properties\<close>

text \<open>A page as the template renders it, with one filled row and an answer of the server.\<close>

definition sample_create :: create_page where
  "sample_create = \<lparr>toast_region = Some [], toast_next = 0, csrf_meta = Some (js ''t''),
     window_actions = [], uncaught = [], has_dialog = True, has_time_lib = False,
     form_data = (\<lambda>_. None), form_defaults = (\<lambda>_. None),
     editor = \<lparr>kvRows = [sample_row ''user'' ''a''], structuredError = Some [], fieldPicker = [],
       row_focus = NoFocus\<rparr>,
     mode_buttons = [(js ''structured'', True), (js ''plain'', False)],
     mode_panels = [(js ''structured'', False), (js ''plain'', True)],
     delivery_buttons = [(js ''link'', True), (js ''email'', False)],
     delivery_panels = [(js ''link'', False), (js ''email'', True)],
     selected_lifetime = Some (js ''1 day''),
     submit_button = Some \<lparr>b_text = js ''Create'', b_disabled = False, b_original = None,
       b_loading = None\<rparr>,
     status_line = Some [], delivery_status = Some [], password_summary = Some [],
     createdID = Some (JStr []), createdPayload = Some JNull, result_hidden = True, created_id = [],
     created_expires = None, created_lifetime = [], created_password = [], created_recipient = [],
     created_url = [], created_email_status = [], created_email_sent = None,
     retry_panel_hidden = Some True, retry_to = [], retry_name = [], retry_subject = [],
     retry_message = [], view_link = [], revoke_button_disabled = False\<rparr>"

lemma sample_create_mode: "mode sample_create = js ''structured''"
  "deliveryMode sample_create = js ''link''"
  by (simp_all add: mode_def deliveryMode_def active_mode_def sample_create_def)

lemma setStatus_frame [simp]:
  "mode (setStatus t p) = mode p" "deliveryMode (setStatus t p) = deliveryMode p"
  "form_data (setStatus t p) = form_data p" "editor (setStatus t p) = editor p"
  "csrf_meta (setStatus t p) = csrf_meta p" "result_hidden (setStatus t p) = result_hidden p"
  "uncaught (setStatus t p) = uncaught p"
  "status_line (setStatus t p) = map_option (\<lambda>_. t) (status_line p)"
  by (simp_all add: setStatus_def mode_def deliveryMode_def)

lemma hide_result_frame [simp]:
  "mode (p\<lparr>result_hidden := h\<rparr>) = mode p" "deliveryMode (p\<lparr>result_hidden := h\<rparr>) = deliveryMode p"
  by (simp_all add: mode_def deliveryMode_def)

lemma set_loading_frame [simp]:
  "status_line (set_loading l p) = status_line p" "result_hidden (set_loading l p) = result_hidden p"
  "uncaught (set_loading l p) = uncaught p" "form_data (set_loading l p) = form_data p"
  "created_url (set_loading l p) = created_url p" "createdID (set_loading l p) = createdID p"
  by (simp_all add: set_loading_def)

lemma sample_create_call:
  "\<exists>p q. create_submit (\<lambda>s. s) sample_create = (p, Some q)"
proof -
  have rows: "kvRows (editor sample_create) = [sample_row ''user'' ''a'']"
    and data: "form_data sample_create = (\<lambda>_. None)" by (simp_all add: sample_create_def)
  show ?thesis by (simp add: create_submit_def Let_def rows data sample_create_mode sample_payload)
qed

text \<open>C38: At most one request to create a link is under way at any time, and the button is disabled exactly
  while there is one, whatever else happens on the page.\<close>

theorem create_one_request:
  assumes "flight_run (create_submit sm) (create_answer e) create_busy create_other p0 p qs"
    and "submit_button p0 \<noteq> None" and "\<not> create_busy p0"
  shows "length qs \<le> 1 \<and> (create_busy p \<longleftrightarrow> qs \<noteq> [])"
  using create.flight_invariant [OF assms] by blast

theorem create_one_request_witness:
  "\<exists>p q. create_submit (\<lambda>s. s) sample_create = (p, Some q) \<and> create_busy p"
proof -
  obtain p q where call: "create_submit (\<lambda>s. s) sample_create = (p, Some q)"
    using sample_create_call by blast
  have idle: "submit_button sample_create \<noteq> None" "\<not> create_busy sample_create"
    by (simp_all add: create_busy_def sample_create_def)
  have "flight_run (create_submit (\<lambda>s. s)) (create_answer e) create_busy create_other sample_create p [q]"
    for e
  proof -
    have "flight_run (create_submit (\<lambda>s. s)) (create_answer e) create_busy create_other
        sample_create sample_create []" by (rule flight_load)
    from flight_submit [OF this idle(2) call] show ?thesis by simp
  qed
  from create_one_request [OF this idle] call show ?thesis by blast
qed

text \<open>C39: The request to create a link carries exactly the payload the form accepts, the password or \<open>null\<close>
  when it is empty, and the e-mail part exactly in e-mail mode; it is a POST that carries the CSRF token
  of the page. A form that is not accepted sends nothing and shows its message. Either way the result of
  an earlier link is hidden first.\<close>

theorem create_request_spec:
  assumes "create_submit sm p = (p', r)"
  shows "result_hidden p' \<and>
    (case build_payload sm (mode p) (kvRows (editor p)) (form_data p) of
       Inl err \<Rightarrow> r = None \<and> status_line p' = map_option (\<lambda>_. error_message err) (status_line p)
     | Inr m \<Rightarrow>
         (\<exists>q body. r = Some q \<and> rq_method q = ''POST'' \<and> rq_url q = js ''/api/v1/secret-links'' \<and>
            (\<forall>t. csrf_meta p = Some t \<and> t \<noteq> [] \<longrightarrow> (''X-CSRF-Token'', t) \<in> set (rq_headers q)) \<and>
            rq_body q = Some body \<and> get_prop (Some body) ''payload'' = Some (payload_json m) \<and>
            get_prop (Some body) ''password'' =
              Some (if form_string (form_data p) ''password'' = [] then JNull
                    else JStr (form_string (form_data p) ''password'')) \<and>
            (get_prop (Some body) ''delivery'' \<noteq> None \<longleftrightarrow> deliveryMode p = js ''email'')))"
  using assms
  by (cases "build_payload sm (mode p) (kvRows (editor p)) (form_data p)")
    (auto simp: create_submit_def Let_def create_body_def csrfHeaders_def string_or_empty_def
      option.map_comp comp_def)

theorem create_request_spec_witness:
  "\<exists>p q. create_submit (\<lambda>s. s) sample_create = (p, Some q) \<and> result_hidden p"
proof -
  obtain p q where call: "create_submit (\<lambda>s. s) sample_create = (p, Some q)"
    using sample_create_call by blast
  from create_request_spec [OF call] call show ?thesis by blast
qed

text \<open>When the network fails while a link is being created, the error leaves the handler and nothing tells
  the user: the button works again, but the status line still says that the link is being created.\<close>

theorem create_network_failure:
  assumes "create_submit sm p = (p', Some q)" and "status_line p \<noteq> None"
  shows "(let s = create_answer e q Rejected p'
    in status_line s = Some (js ''Creating encrypted one-time link...'') \<and> \<not> create_busy s \<and>
       uncaught s = uncaught p @ [TypeError] \<and> result_hidden s \<and> toast_region s = toast_region p)"
  using assms
  by (auto simp: create_submit_def create_answer_def Let_def throw_uncaught_def create_busy_def
      set_loading_def setStatus_def split: sum.splits)

theorem create_network_failure_witness:
  "\<exists>p q e. create_submit (\<lambda>s. s) sample_create = (p, Some q) \<and>
     status_line (create_answer e q Rejected p) = Some (js ''Creating encrypted one-time link...'')"
proof -
  obtain p q where call: "create_submit (\<lambda>s. s) sample_create = (p, Some q)"
    using sample_create_call by blast
  have "status_line sample_create \<noteq> None" by (simp add: sample_create_def)
  from create_network_failure [OF call this] call show ?thesis by (auto simp: Let_def)
qed

lemma result_toast [simp]:
  "result_hidden (toast m p) = result_hidden p" "created_id (toast m p) = created_id p"
  "created_url (toast m p) = created_url p" "view_link (toast m p) = view_link p"
  "retry_to (toast m p) = retry_to p"
  by (simp_all add: toast_def split: option.split)

lemma result_status [simp]:
  "created_id (setStatus m p) = created_id p" "created_url (setStatus m p) = created_url p"
  "view_link (setStatus m p) = view_link p" "retry_to (setStatus m p) = retry_to p"
  by (simp_all add: setStatus_def)

lemma result_loading [simp]:
  "created_id (set_loading l p) = created_id p" "view_link (set_loading l p) = view_link p"
  "retry_to (set_loading l p) = retry_to p"
  by (simp_all add: set_loading_def)

lemma fillResult_panel [simp]:
  "\<not> result_hidden (fillResult e v w p)"
  "created_id (fillResult e v w p) = text_of (get_prop v ''id'')"
  "created_url (fillResult e v w p) = input_value (get_prop v ''url'')"
  "view_link (fillResult e v w p) = js ''/admin/secrets/'' @ to_string (get_prop v ''id'')"
  "retry_to (fillResult e v w p) = input_value (or_val
     (get_prop (get_prop (get_prop w ''delivery'') ''email'') ''to'') (Some (JStr [])))"
  by (simp_all add: fillResult_def Let_def)

lemma create_answer_created:
  "resp_ok status \<Longrightarrow> \<not> nullish (Some body) \<Longrightarrow>
     create_answer e q (Answer status (Some body)) p = set_loading False
       (toast (js ''One-time link created.'') (setStatus (js ''Secure link created.'')
         (fillResult e (Some body) (rq_body q) p)))"
  by (simp add: create_answer_def)

lemma retry_email_sends:
  "created_url p = base @ 0x23 # t \<Longrightarrow> 0x23 \<notin> set t \<Longrightarrow> t \<noteq> [] \<Longrightarrow>
     \<exists>call. snd (retry_email_click p) = Some call \<and> get_prop (rq_body call) ''token'' = Some (JStr t) \<and>
       get_prop (rq_body call) ''to'' = Some (JStr (retry_to p))"
  by (simp add: retry_email_click_def url_token_def includes_char_def split_last_append)

text \<open>After a link is created, the panel shows its URL and id, and the e-mail retry sends the token of that
  very URL, the part after its last \<open>#\<close>, to the recipient of the request.\<close>

theorem create_then_retry:
  assumes "get_prop (Some response) ''url'' = Some (JStr (base @ 0x23 # t))"
    and "0x23 \<notin> set t" and "t \<noteq> []" and "resp_ok status"
    and "get_prop (Some response) ''id'' = Some (JStr link)"
  shows "(let s = create_answer e q (Answer status (Some response)) p
    in \<not> result_hidden s \<and> created_id s = link \<and> created_url s = base @ 0x23 # t \<and>
       view_link s = js ''/admin/secrets/'' @ link \<and>
       retry_to s = input_value (or_val
         (get_prop (get_prop (get_prop (rq_body q) ''delivery'') ''email'') ''to'') (Some (JStr []))) \<and>
       (\<exists>call. snd (retry_email_click s) = Some call \<and>
          get_prop (rq_body call) ''token'' = Some (JStr t) \<and>
          get_prop (rq_body call) ''to'' = Some (JStr (retry_to s))))"
proof -
  have "\<not> nullish (Some response)" by (rule get_prop_not_nullish [OF assms(1)])
  from create_answer_created [OF assms(4) this]
  have s: "create_answer e q (Answer status (Some response)) p = set_loading False
       (toast (js ''One-time link created.'') (setStatus (js ''Secure link created.'')
         (fillResult e (Some response) (rq_body q) p)))" .
  have "created_url (create_answer e q (Answer status (Some response)) p) = base @ 0x23 # t"
    using assms(1) by (simp add: s input_value_def)
  from retry_email_sends [OF this assms(2,3)] this show ?thesis
    using assms(5) by (simp add: s Let_def)
qed

definition sample_created :: json where
  "sample_created = obj [(''id'', JStr (js ''7'')), (''url'', JStr (js ''https://x/s'' @ 0x23 # js ''tok''))]"

theorem create_then_retry_witness:
  "\<exists>e q. created_url (create_answer e q (Answer 201 (Some sample_created)) sample_create) =
     js ''https://x/s'' @ 0x23 # js ''tok''"
proof -
  have "0x23 \<notin> set (js ''tok'')" by code_simp
  from create_then_retry [of sample_created "js ''https://x/s''" "js ''tok''" 201 "js ''7''", OF _ this]
  show ?thesis by (simp add: sample_created_def resp_ok_def Let_def)
qed

end
