(* ===== verification/Navigation.thy ===== *)
theory Navigation
  imports Main
begin

text \<open>
  The sidebar of the administration pages: \<^verbatim>\<open>setupNavigation\<close> in \<^verbatim>\<open>web/static/admin.js\<close>. On a narrow
  viewport the sidebar is a drawer that a menu button opens, with the focus kept inside it. The page is a
  state, each listener a function on it, and \<open>nav_step\<close> the events in any order. A viewport change is two
  events: the media query flips, and later its listener runs.
\<close>

section \<open>The state\<close>

text \<open>
  An element of the sidebar: whether it is a link, the close button, an element of the focusable
  selector, has the attribute \<^verbatim>\<open>hidden\<close>, and can take the focus (it is rendered).
\<close>

record nav_item =
  ni_link :: bool
  ni_close :: bool
  ni_selector :: bool
  ni_hidden :: bool
  ni_rendered :: bool

record nav_opener =
  no_expanded :: bool
  no_rendered :: bool

datatype nav_node = NavItem nat | NavOpener nat | OtherNode nat

record nav_page =
  nav_mobile :: bool
  nav_change_due :: bool
  sidebar_open :: bool
  body_navigation_open :: bool
  openers :: "nav_opener list"
  sidebar_items :: "nav_item list"
  lastOpener :: "nat option"
  active_element :: "nav_node option"
  user_menus_open :: "bool list"

section \<open>The operations\<close>

definition focusableElements :: "nav_page \<Rightarrow> nat list" where
  "focusableElements p =
     filter (\<lambda>i. ni_selector (sidebar_items p ! i) \<and> \<not> ni_hidden (sidebar_items p ! i))
       [0..<length (sidebar_items p)]"

definition focus_item :: "nat \<Rightarrow> nav_page \<Rightarrow> nav_page" where
  "focus_item i p =
     (if i < length (sidebar_items p) \<and> ni_rendered (sidebar_items p ! i)
      then p\<lparr>active_element := Some (NavItem i)\<rparr> else p)"

definition focus_opener :: "nat \<Rightarrow> nav_page \<Rightarrow> nav_page" where
  "focus_opener i p =
     (if i < length (openers p) \<and> no_rendered (openers p ! i)
      then p\<lparr>active_element := Some (NavOpener i)\<rparr> else p)"

text \<open>\<^verbatim>\<open>qs("[data-menu-close]", sidebar) || focusableElements()[0]\<close>.\<close>

definition first_target :: "nav_page \<Rightarrow> nat option" where
  "first_target p =
     (case filter (\<lambda>i. ni_close (sidebar_items p ! i)) [0..<length (sidebar_items p)] of
        i # _ \<Rightarrow> Some i
      | [] \<Rightarrow> (case focusableElements p of i # _ \<Rightarrow> Some i | [] \<Rightarrow> None))"

definition setOpen :: "bool \<Rightarrow> bool \<Rightarrow> nav_page \<Rightarrow> nav_page" where
  "setOpen open_it returnFocus p =
     (let shouldOpen = (open_it \<and> nav_mobile p);
          p1 = p\<lparr>sidebar_open := shouldOpen, body_navigation_open := shouldOpen,
                 openers := map (\<lambda>b. b\<lparr>no_expanded := shouldOpen\<rparr>) (openers p)\<rparr>
      in if shouldOpen then (case first_target p1 of None \<Rightarrow> p1 | Some i \<Rightarrow> focus_item i p1)
         else if returnFocus then (case lastOpener p1 of None \<Rightarrow> p1 | Some i \<Rightarrow> focus_opener i p1)
         else p1)"

definition opener_click :: "nat \<Rightarrow> nav_page \<Rightarrow> nav_page" where
  "opener_click i p = setOpen (\<not> sidebar_open p) True (p\<lparr>lastOpener := Some i\<rparr>)"

text \<open>The close buttons and the backdrop.\<close>

definition close_click :: "nav_page \<Rightarrow> nav_page" where
  "close_click p = setOpen False True p"

definition link_click :: "nav_page \<Rightarrow> nav_page" where
  "link_click p = setOpen False False p"

text \<open>The key handler; the second component says that the default action is prevented.\<close>

datatype nav_key = Escape | Tab bool | OtherKey

definition keydown :: "nav_key \<Rightarrow> nav_page \<Rightarrow> nav_page \<times> bool" where
  "keydown key p =
     (case key of
        Escape \<Rightarrow>
          (let p1 = p\<lparr>user_menus_open := map (\<lambda>_. False) (user_menus_open p)\<rparr>
           in if sidebar_open p1 then (setOpen False True p1, True) else (p1, False))
      | OtherKey \<Rightarrow> (p, False)
      | Tab shiftKey \<Rightarrow>
          (if \<not> nav_mobile p \<or> \<not> sidebar_open p then (p, False)
           else
             (case focusableElements p of
                [] \<Rightarrow> (p, False)
              | first # rest \<Rightarrow>
                  (let final = last (first # rest)
                   in if shiftKey \<and> active_element p = Some (NavItem first) then (focus_item final p, True)
                      else if \<not> shiftKey \<and> active_element p = Some (NavItem final)
                      then (focus_item first p, True)
                      else (p, False)))))"

definition resetForViewport :: "nav_page \<Rightarrow> nav_page" where
  "resetForViewport p = (if \<not> nav_mobile p then setOpen False False p else p)"

definition pagehide :: "nav_page \<Rightarrow> nav_page" where
  "pagehide p = setOpen False False p"

section \<open>The events\<close>

inductive nav_step :: "nav_page \<Rightarrow> nav_page \<Rightarrow> bool" where
  nav_open: "i < length (openers p) \<Longrightarrow> nav_step p (opener_click i p)"
| nav_close: "nav_step p (close_click p)"
| nav_link: "nav_step p (link_click p)"
| nav_key: "nav_step p (fst (keydown key p))"
| nav_flip: "nav_step p (p\<lparr>nav_mobile := b, nav_change_due := True\<rparr>)"
| nav_change: "nav_step p (resetForViewport (p\<lparr>nav_change_due := False\<rparr>))"
| nav_hide: "nav_step p (pagehide p)"
| nav_focus: "nav_step p (p\<lparr>active_element := n\<rparr>)"
| nav_menu: "nav_step p (p\<lparr>user_menus_open := ms\<rparr>)"

text \<open>The page as the template renders it: the drawer closed, no opener used yet.\<close>

definition nav_loaded :: "nav_page \<Rightarrow> bool" where
  "nav_loaded p \<longleftrightarrow> \<not> sidebar_open p \<and> \<not> body_navigation_open p \<and> lastOpener p = None \<and>
     list_all (\<lambda>b. \<not> no_expanded b) (openers p)"

section \<open>The invariant\<close>

definition nav_inv :: "nav_page \<Rightarrow> bool" where
  "nav_inv p \<longleftrightarrow>
     body_navigation_open p = sidebar_open p \<and>
     list_all (\<lambda>b. no_expanded b = sidebar_open p) (openers p) \<and>
     (sidebar_open p \<longrightarrow> lastOpener p \<noteq> None \<and> (nav_mobile p \<or> nav_change_due p)) \<and>
     (\<forall>i. lastOpener p = Some i \<longrightarrow> i < length (openers p))"

lemma focus_frame [simp]:
  "nav_inv (focus_item i p) = nav_inv p" "nav_inv (focus_opener i p) = nav_inv p"
  "sidebar_open (focus_item i p) = sidebar_open p" "sidebar_open (focus_opener i p) = sidebar_open p"
  "openers (focus_item i p) = openers p" "openers (focus_opener i p) = openers p"
  by (simp_all add: focus_item_def focus_opener_def nav_inv_def)

lemma setOpen_closes [simp]: "sidebar_open (setOpen False r p) = False"
  by (simp add: setOpen_def Let_def split: option.split)

lemma setOpen_openers [simp]: "length (openers (setOpen b r p)) = length (openers p)"
  by (simp add: setOpen_def Let_def split: option.split)

text \<open>\<open>setOpen\<close> establishes the invariant: it writes all three copies of the flag.\<close>

lemma setOpen_inv:
  assumes "\<forall>i. lastOpener p = Some i \<longrightarrow> i < length (openers p)" and "b \<longrightarrow> lastOpener p \<noteq> None"
  shows "nav_inv (setOpen b r p)"
  using assms
  by (auto simp: setOpen_def Let_def nav_inv_def list_all_iff focus_item_def focus_opener_def
      split: option.split)

lemma nav_inv_last: "nav_inv p \<Longrightarrow> \<forall>i. lastOpener p = Some i \<longrightarrow> i < length (openers p)"
  by (simp add: nav_inv_def)

lemma keydown_inv: "nav_inv p \<Longrightarrow> nav_inv (fst (keydown key p))"
proof (cases key)
  case Escape
  assume "nav_inv p"
  then show ?thesis
    using Escape by (auto simp: keydown_def Let_def intro!: setOpen_inv) (auto simp: nav_inv_def)
qed (auto simp: keydown_def Let_def split: list.split)

lemma resetForViewport_inv:
  "nav_inv p \<Longrightarrow> nav_inv (resetForViewport (p\<lparr>nav_change_due := False\<rparr>))"
  using setOpen_inv [of "p\<lparr>nav_change_due := False\<rparr>" False False]
  by (auto simp: resetForViewport_def nav_inv_def)

lemma nav_step_inv: "nav_step p q \<Longrightarrow> nav_inv p \<Longrightarrow> nav_inv q"
proof (induction rule: nav_step.induct)
  case (nav_open i p)
  then show ?case unfolding opener_click_def by (intro setOpen_inv) simp_all
next
  case (nav_key p key)
  then show ?case by (rule keydown_inv)
next
  case (nav_change p)
  then show ?case by (rule resetForViewport_inv)
qed (auto simp: close_click_def link_click_def pagehide_def intro!: setOpen_inv dest: nav_inv_last,
     auto simp: nav_inv_def)

lemma nav_steps_inv: "nav_step\<^sup>*\<^sup>* p q \<Longrightarrow> nav_inv p \<Longrightarrow> nav_inv q"
  by (induction rule: rtranclp_induct) (auto intro: nav_step_inv)

lemma nav_loaded_inv: "nav_loaded p \<Longrightarrow> nav_inv p"
  by (auto simp: nav_loaded_def nav_inv_def list_all_iff)

definition sample_nav :: nav_page where
  "sample_nav = \<lparr>nav_mobile = True, nav_change_due = False, sidebar_open = False,
     body_navigation_open = False, openers = [\<lparr>no_expanded = False, no_rendered = True\<rparr>],
     sidebar_items =
       [\<lparr>ni_link = False, ni_close = True, ni_selector = True, ni_hidden = False, ni_rendered = True\<rparr>,
        \<lparr>ni_link = True, ni_close = False, ni_selector = True, ni_hidden = False, ni_rendered = True\<rparr>],
     lastOpener = None, active_element = None, user_menus_open = [True]\<rparr>"

lemma sample_nav_loaded: "nav_loaded sample_nav"
  by (simp add: sample_nav_def nav_loaded_def)

text \<open>In every reachable page the drawer, the class of the body and the expanded state of every menu
  button agree, and an open drawer on a wide viewport is about to be closed by the viewport listener.\<close>

theorem navigation_consistent:
  assumes "nav_loaded p0" and "nav_step\<^sup>*\<^sup>* p0 p"
  shows "body_navigation_open p = sidebar_open p \<and>
    (\<forall>b \<in> set (openers p). no_expanded b = sidebar_open p) \<and>
    (sidebar_open p \<and> \<not> nav_mobile p \<longrightarrow> nav_change_due p)"
  using nav_steps_inv [OF assms(2) nav_loaded_inv [OF assms(1)]]
  by (auto simp: nav_inv_def list_all_iff)

theorem navigation_consistent_witness:
  "body_navigation_open (opener_click 0 sample_nav) = sidebar_open (opener_click 0 sample_nav)"
  using navigation_consistent [OF sample_nav_loaded r_into_rtranclp, OF nav_open [of 0]]
  by (simp add: sample_nav_def)

text \<open>A menu button opens the drawer on a narrow viewport, and Escape then closes it, closes the account
  menus, suppresses the default action and gives the focus back to that button.\<close>

theorem navigation_escape_returns_focus:
  assumes "\<not> sidebar_open p" and "nav_mobile p" and "i < length (openers p)"
    and "no_rendered (openers p ! i)"
  shows "sidebar_open (opener_click i p) \<and>
    (let (q, prevented) = keydown Escape (opener_click i p)
     in prevented \<and> \<not> sidebar_open q \<and> active_element q = Some (NavOpener i) \<and>
        True \<notin> set (user_menus_open q))"
  using assms
  by (simp add: opener_click_def keydown_def setOpen_def focus_item_def focus_opener_def Let_def
      image_constant_conv split: option.split)

theorem navigation_escape_returns_focus_witness:
  "active_element (fst (keydown Escape (opener_click 0 sample_nav))) = Some (NavOpener 0)"
  using navigation_escape_returns_focus [of sample_nav 0]
  by (simp add: sample_nav_def case_prod_beta)

lemma focusable_bound: "i \<in> set (focusableElements p) \<Longrightarrow> i < length (sidebar_items p)"
  by (simp add: focusableElements_def)

text \<open>In an open drawer whose first and last focusable elements are rendered, Tab on the last goes to the
  first and Shift+Tab on the first goes to the last; anywhere else the browser moves the focus. On a wide
  viewport, or with the drawer closed, Tab is never touched.\<close>

theorem navigation_focus_trap:
  assumes "focusableElements p = xs" and "xs \<noteq> []"
    and "ni_rendered (sidebar_items p ! hd xs)" and "ni_rendered (sidebar_items p ! last xs)"
  shows "keydown (Tab shiftKey) p =
    (if nav_mobile p \<and> sidebar_open p \<and>
        active_element p = Some (NavItem (if shiftKey then hd xs else last xs))
     then (p\<lparr>active_element := Some (NavItem (if shiftKey then last xs else hd xs))\<rparr>, True)
     else (p, False))"
proof -
  obtain x ys where xs: "xs = x # ys" using assms(2) by (cases xs) auto
  have "x < length (sidebar_items p)" and "last xs < length (sidebar_items p)"
    using focusable_bound [of _ p] assms(1,2) xs by auto
  then show ?thesis
    using assms xs by (simp add: keydown_def focus_item_def Let_def)
qed

theorem navigation_focus_trap_witness:
  "keydown (Tab True) (opener_click 0 sample_nav) =
     ((opener_click 0 sample_nav)\<lparr>active_element := Some (NavItem 1)\<rparr>, True)"
proof -
  have f: "focusableElements (opener_click 0 sample_nav) = [0, 1]"
    and q: "sidebar_open (opener_click 0 sample_nav)" "nav_mobile (opener_click 0 sample_nav)"
      "active_element (opener_click 0 sample_nav) = Some (NavItem 0)"
      "sidebar_items (opener_click 0 sample_nav) = sidebar_items sample_nav"
    by code_simp+
  show ?thesis
    using navigation_focus_trap [OF f, of True] q by (simp add: sample_nav_def)
qed

end
