(* ===== verification/Session.thy ===== *)
theory Session
  imports Browser
begin

text \<open>
  The forms around a user's session in \<^verbatim>\<open>web/static/admin.js\<close>: the theme button (\<^verbatim>\<open>setupTheme\<close>), the login
  form (\<^verbatim>\<open>setupLogin\<close>), and the account page (\<^verbatim>\<open>setupAccount\<close>): the password form and the button that
  revokes the other sessions.
\<close>

section \<open>The theme\<close>

record theme_button = button +
  tb_preference :: "jstr option"
  tb_aria :: "jstr option"

record theme_page = ui +
  dataset_theme :: "jstr option"
  theme_buttons :: "theme_button list"

definition themes :: "jstr list" where
  "themes = [js ''system'', js ''light'', js ''dark'']"

definition theme_label :: "jstr \<Rightarrow> jstr" where
  "theme_label theme = (case theme of [] \<Rightarrow> [] | c # cs \<Rightarrow> upper_units c @ cs)"

definition index_of :: "'a list \<Rightarrow> 'a \<Rightarrow> nat" where
  "index_of xs x = length (takeWhile (\<lambda>y. y \<noteq> x) xs)"

definition current_theme :: "jstr option \<Rightarrow> jstr" where
  "current_theme stored =
     (case stored of None \<Rightarrow> js ''system'' | Some t \<Rightarrow> if t \<in> set themes then t else js ''system'')"

definition next_theme :: "jstr \<Rightarrow> jstr" where
  "next_theme current = themes ! ((index_of themes current + 1) mod length themes)"

definition theme_loading :: "nat \<Rightarrow> bool \<Rightarrow> theme_page \<Rightarrow> theme_page" where
  "theme_loading i loading p =
     p\<lparr>theme_buttons := (theme_buttons p)[i := setButtonLoading loading (theme_buttons p ! i)]\<rparr>"

definition theme_click :: "nat \<Rightarrow> theme_page \<Rightarrow> theme_page \<times> http_request option" where
  "theme_click i p =
     (let next = next_theme (current_theme (dataset_theme p));
          p1 = theme_loading i True p
      in (p1, Some (json_call p1 ''PUT'' (js ''/api/v1/me/preferences/theme'')
            (obj [(''theme'', JStr next)]))))"

text \<open>
  The \<^verbatim>\<open>try\<close> block from the answer on: the page and \<^verbatim>\<open>savedTheme\<close>. Its \<^verbatim>\<open>catch\<close> also takes the TypeError of a
  \<^verbatim>\<open>null\<close> body.
\<close>

definition theme_unsaved :: jstr where
  "theme_unsaved = js ''Theme preference could not be saved. Check your connection and try again.''"

definition theme_try :: "fetch_result \<Rightarrow> theme_page \<Rightarrow> theme_page \<times> val" where
  "theme_try r p =
     (case r of
        Rejected \<Rightarrow> (toast theme_unsaved p, Some (JStr []))
      | Answer status b \<Rightarrow>
          (let body = body_or_empty b
           in if nullish body then (toast theme_unsaved p, Some (JStr []))
              else if \<not> resp_ok status
              then (toast (message_or (get_prop body ''message'')
                      ''Theme preference could not be saved.'') p, Some (JStr []))
              else (p, get_prop body ''theme'')))"

text \<open>
  What follows \<^verbatim>\<open>finally\<close>. A \<^verbatim>\<open>return\<close> in the \<^verbatim>\<open>try\<close> block leaves the handler, which is the same as an empty
  \<^verbatim>\<open>savedTheme\<close>. A theme that is not a string is stored and then fails at \<^verbatim>\<open>charAt\<close>.
\<close>

definition theme_apply :: "nat \<Rightarrow> val \<Rightarrow> theme_page \<Rightarrow> theme_page" where
  "theme_apply i savedTheme p =
     (let text = to_string savedTheme;
          p1 = p\<lparr>dataset_theme := Some text,
                 theme_buttons := (theme_buttons p)
                   [i := (theme_buttons p ! i)\<lparr>tb_preference := Some text\<rparr>]\<rparr>
      in case savedTheme of
           Some (JStr s) \<Rightarrow>
             (let shown = js ''Theme: '' @ theme_label s
              in toast (theme_label s @ js '' theme saved to your account.'')
                   (p1\<lparr>theme_buttons := (theme_buttons p1)
                     [i := (theme_buttons p1 ! i)\<lparr>b_text := shown, b_original := Some shown,
                            tb_aria := Some (js ''Color theme: '' @ theme_label s)\<rparr>]\<rparr>))
         | _ \<Rightarrow> throw_uncaught TypeError p1)"

definition theme_answer :: "nat \<Rightarrow> http_request \<Rightarrow> fetch_result \<Rightarrow> theme_page \<Rightarrow> theme_page" where
  "theme_answer i sent r p =
     (let (p1, savedTheme) = theme_try r p;
          p2 = theme_loading i False p1
      in if truthy savedTheme then theme_apply i savedTheme p2 else p2)"

definition theme_busy :: "nat \<Rightarrow> theme_page \<Rightarrow> bool" where
  "theme_busy i p \<longleftrightarrow> b_disabled (theme_buttons p ! i)"

text \<open>The other theme buttons of the page, and the timers.\<close>

inductive theme_other :: "nat \<Rightarrow> theme_page \<Rightarrow> theme_page \<Rightarrow> bool" for i where
  theme_other_click: "j \<noteq> i \<Longrightarrow> theme_other i p (fst (theme_click j p))"
| theme_other_answer: "j \<noteq> i \<Longrightarrow> theme_other i p (theme_answer j q r p)"
| theme_other_timer: "theme_other i p (toast_expire k p)"

lemma theme_buttons_ui [simp]:
  "theme_buttons (toast m p) = theme_buttons p" "dataset_theme (toast m p) = dataset_theme p"
  "theme_buttons (throw_uncaught e p) = theme_buttons p"
  "theme_buttons (toast_expire k p) = theme_buttons p"
  by (simp_all add: toast_def throw_uncaught_def toast_expire_def split: option.split)

lemma theme_try_frame [simp]:
  "theme_buttons (fst (theme_try r p)) = theme_buttons p"
  "dataset_theme (fst (theme_try r p)) = dataset_theme p"
  by (simp_all add: theme_try_def Let_def split: fetch_result.split)

lemma theme_apply_buttons:
  "length (theme_buttons (theme_apply i v p)) = length (theme_buttons p)"
  "k < length (theme_buttons p) \<Longrightarrow>
     b_disabled (theme_buttons (theme_apply i v p) ! k) = b_disabled (theme_buttons p ! k)"
  by (cases "k = i"; simp add: theme_apply_def Let_def split: option.split json.split)+

lemma theme_loading_buttons [simp]:
  "length (theme_buttons (theme_loading i l p)) = length (theme_buttons p)"
  "k < length (theme_buttons p) \<Longrightarrow> b_disabled (theme_buttons (theme_loading i l p) ! k) =
     (if k = i then l else b_disabled (theme_buttons p ! k))"
  by (auto simp: theme_loading_def nth_list_update)

lemma theme_click_buttons [simp]: "fst (theme_click i p) = theme_loading i True p"
  by (simp add: theme_click_def Let_def)

lemma theme_answer_buttons:
  "length (theme_buttons (theme_answer i q r p)) = length (theme_buttons p)"
  "k < length (theme_buttons p) \<Longrightarrow> b_disabled (theme_buttons (theme_answer i q r p) ! k) =
     (k \<noteq> i \<and> b_disabled (theme_buttons p ! k))"
  by (simp_all add: theme_answer_def case_prod_beta Let_def theme_apply_buttons)

lemma theme_other_buttons:
  "theme_other i p q \<Longrightarrow> i < length (theme_buttons p) \<Longrightarrow>
     length (theme_buttons q) = length (theme_buttons p) \<and>
     b_disabled (theme_buttons q ! i) = b_disabled (theme_buttons p ! i)"
  by (induction rule: theme_other.induct) (auto simp: theme_answer_buttons)

interpretation theme: single_flight "theme_click i" "theme_answer i" "theme_busy i" "theme_other i"
    "\<lambda>p. i < length (theme_buttons p)" for i
  by unfold_locales
    (auto simp: theme_busy_def theme_answer_buttons theme_click_def Let_def dest: theme_other_buttons)

section \<open>Login\<close>

record login_page = ui +
  login_form :: form
  login_error :: "jstr option"
  login_button :: "button option"

definition set_login_error :: "jstr \<Rightarrow> login_page \<Rightarrow> login_page" where
  "set_login_error text p = p\<lparr>login_error := map_option (\<lambda>_. text) (login_error p)\<rparr>"

definition login_loading :: "bool \<Rightarrow> login_page \<Rightarrow> login_page" where
  "login_loading loading p =
     p\<lparr>login_button := map_option (setButtonLoading loading) (login_button p)\<rparr>"

definition login_submit :: "login_page \<Rightarrow> login_page \<times> http_request option" where
  "login_submit p =
     (login_loading True (set_login_error [] p),
      Some \<lparr>rq_method = ''POST'', rq_url = js ''/api/v1/auth/login'', rq_headers = json_headers,
            rq_body = Some (obj [(''login'', JStr (form_string (login_form p) ''login'')),
                                 (''password'', JStr (form_string (login_form p) ''password''))])\<rparr>)"

definition login_answer :: "http_request \<Rightarrow> fetch_result \<Rightarrow> login_page \<Rightarrow> login_page" where
  "login_answer sent r p =
     login_loading False
       (case r of
          Rejected \<Rightarrow> set_login_error (js ''SecureShare could not be reached.'') p
        | Answer status b \<Rightarrow>
            (if \<not> resp_ok status
             then set_login_error (js ''The username, email, or password was not accepted.'') p
             else assign_location (js ''/admin'') p))"

inductive login_other :: "login_page \<Rightarrow> login_page \<Rightarrow> bool" where
  login_input: "login_other p (p\<lparr>login_form := data\<rparr>)"

lemma login_button_frame [simp]:
  "login_button (set_login_error t p) = login_button p"
  "login_button (assign_location u p) = login_button p"
  by (simp_all add: set_login_error_def assign_location_def)

interpretation login: single_flight login_submit login_answer "\<lambda>p. button_busy (login_button p)"
    login_other "\<lambda>p. login_button p \<noteq> None"
  by unfold_locales
    (auto simp: login_submit_def login_answer_def login_loading_def elim!: login_other.cases
      split: fetch_result.split)

section \<open>The account page\<close>

record account_page = ui +
  account_dialog :: bool
  account_form :: form
  account_defaults :: form
  account_error :: "jstr option"
  account_button :: "button option"

definition account_loading :: "bool \<Rightarrow> account_page \<Rightarrow> account_page" where
  "account_loading loading p =
     p\<lparr>account_button := map_option (setButtonLoading loading) (account_button p)\<rparr>"

definition set_account_error :: "jstr \<Rightarrow> account_page \<Rightarrow> account_page" where
  "set_account_error text p = p\<lparr>account_error := map_option (\<lambda>_. text) (account_error p)\<rparr>"

definition account_submit :: "account_page \<Rightarrow> account_page \<times> http_request option" where
  "account_submit p =
     (let p1 = account_loading True (set_account_error [] p); data = account_form p
      in (p1, Some (json_call p1 ''POST'' (js ''/api/v1/me/password'')
            (obj [(''current_password'', JStr (form_string data ''current_password'')),
                  (''new_password'', JStr (form_string data ''new_password''))]))))"

definition account_answer :: "http_request \<Rightarrow> fetch_result \<Rightarrow> account_page \<Rightarrow> account_page" where
  "account_answer sent r p =
     account_loading False
       (case r of
          Rejected \<Rightarrow> throw_uncaught TypeError p
        | Answer status b \<Rightarrow>
            (if \<not> resp_ok status then set_account_error (js ''Password could not be changed.'') p
             else (toast (js ''Password changed. Your session was rotated.'') p)
                    \<lparr>account_form := account_defaults p\<rparr>))"

definition revoke_sessions_click :: "account_page \<Rightarrow> confirm_prompt" where
  "revoke_sessions_click p = confirmAction (account_dialog p) ''Revoke other sessions?''
     ''Other browser sessions for this account will be invalidated.''"

definition revoke_sessions_confirmed ::
  "confirm_prompt \<Rightarrow> bool \<Rightarrow> account_page \<Rightarrow> account_page \<times> http_request option" where
  "revoke_sessions_confirmed shown ok p =
     (if \<not> ok then (p, None)
      else (p, Some (json_call p ''POST'' (js ''/api/v1/me/sessions/revoke-other'') (obj []))))"

definition revoke_sessions_answer :: "fetch_result \<Rightarrow> account_page \<Rightarrow> account_page" where
  "revoke_sessions_answer r p =
     (case r of
        Rejected \<Rightarrow> throw_uncaught TypeError p
      | Answer status b \<Rightarrow>
          (let p1 = toast (if resp_ok status then js ''Other sessions revoked.''
                           else js ''Session revocation failed.'') p
           in if resp_ok status then reload p1 else p1))"

inductive account_other :: "account_page \<Rightarrow> account_page \<Rightarrow> bool" where
  account_input: "account_other p (p\<lparr>account_form := data\<rparr>)"
| account_revoked: "account_other p (revoke_sessions_answer r p)"
| account_timer: "account_other p (toast_expire i p)"

lemma account_button_frame [simp]:
  "account_button (toast m p) = account_button p"
  "account_button (set_account_error t p) = account_button p"
  "account_button (throw_uncaught e p) = account_button p"
  "account_button (toast_expire i p) = account_button p"
  "account_button (reload p) = account_button p"
  by (simp_all add: toast_def set_account_error_def throw_uncaught_def toast_expire_def reload_def
      split: option.split)

lemma account_other_button: "account_other p q \<Longrightarrow> account_button q = account_button p"
  by (induction rule: account_other.induct)
    (simp_all add: revoke_sessions_answer_def Let_def split: fetch_result.split)

interpretation account: single_flight account_submit account_answer
    "\<lambda>p. button_busy (account_button p)" account_other "\<lambda>p. account_button p \<noteq> None"
  by unfold_locales
    (auto simp: account_submit_def account_answer_def account_loading_def account_other_button Let_def
      split: fetch_result.split)

interpretation sessions: confirmed_action "\<lambda>p. Some (revoke_sessions_click p)" revoke_sessions_confirmed
    account_other "\<lambda>_. (''POST'', js ''/api/v1/me/sessions/revoke-other'')"
  by unfold_locales (simp_all add: revoke_sessions_confirmed_def)

section \<open>Properties\<close>

lemma next_theme_in: "next_theme t \<in> set themes"
  unfolding next_theme_def by (rule nth_mem) (simp add: themes_def)

lemma current_theme_in: "current_theme stored \<in> set themes"
  by (simp add: current_theme_def themes_def split: option.split)

lemma next_theme_values:
  "next_theme (js ''system'') = js ''light''" "next_theme (js ''light'') = js ''dark''"
  "next_theme (js ''dark'') = js ''system''"
  by (simp_all add: next_theme_def themes_def index_of_def)

lemma next_theme_three: "t \<in> set themes \<Longrightarrow> next_theme (next_theme (next_theme t)) = t"
  by (auto simp: themes_def next_theme_values)

lemma theme_request:
  "snd (theme_click i p) = Some q \<Longrightarrow>
     rq_body q = Some (obj [(''theme'', JStr (next_theme (current_theme (dataset_theme p))))])"
  by (auto simp: theme_click_def Let_def)

lemma dataset_theme_loading [simp]: "dataset_theme (theme_loading i l p) = dataset_theme p"
  by (simp add: theme_loading_def)

text \<open>A click whose request the server grants: it answers with the theme it was sent.\<close>

definition theme_granted :: "nat \<Rightarrow> theme_page \<Rightarrow> theme_page" where
  "theme_granted i p =
     (let (p1, q) = theme_click i p
      in theme_answer i (the q)
           (Answer 200 (Some (obj [(''theme'', JStr (next_theme (current_theme (dataset_theme p))))]))) p1)"

lemma theme_granted_page:
  assumes "i < length (theme_buttons p)"
  shows "dataset_theme (theme_granted i p) = Some (next_theme (current_theme (dataset_theme p)))"
    and "length (theme_buttons (theme_granted i p)) = length (theme_buttons p)"
    and "b_text (theme_buttons (theme_granted i p) ! i) =
      js ''Theme: '' @ theme_label (next_theme (current_theme (dataset_theme p)))"
    and "\<not> b_disabled (theme_buttons (theme_granted i p) ! i)"
proof -
  have "next_theme (current_theme (dataset_theme p)) \<noteq> []"
    using next_theme_in [of "current_theme (dataset_theme p)"] by (auto simp: themes_def)
  then show "dataset_theme (theme_granted i p) = Some (next_theme (current_theme (dataset_theme p)))"
    "length (theme_buttons (theme_granted i p)) = length (theme_buttons p)"
    "b_text (theme_buttons (theme_granted i p) ! i) =
      js ''Theme: '' @ theme_label (next_theme (current_theme (dataset_theme p)))"
    "\<not> b_disabled (theme_buttons (theme_granted i p) ! i)"
    using assms
    by (simp_all add: theme_granted_def theme_click_def theme_answer_def theme_try_def resp_ok_def
        theme_apply_def theme_loading_def Let_def)
qed

lemma current_theme_Some: "t \<in> set themes \<Longrightarrow> current_theme (Some t) = t"
  by (simp add: current_theme_def)

text \<open>A granted click stores the next theme, names it on the button and enables the button; three granted
  clicks give back the theme the page had, a theme it does not know counting as \<open>system\<close>.\<close>

theorem theme_cycle:
  assumes "i < length (theme_buttons p)"
  shows "(let q = theme_granted i p; t = next_theme (current_theme (dataset_theme p))
      in dataset_theme q = Some t \<and> t \<noteq> current_theme (dataset_theme p) \<and>
         b_text (theme_buttons q ! i) = js ''Theme: '' @ theme_label t \<and>
         \<not> b_disabled (theme_buttons q ! i)) \<and>
    dataset_theme (theme_granted i (theme_granted i (theme_granted i p))) =
      Some (current_theme (dataset_theme p))"
  using current_theme_in [of "dataset_theme p"] assms
  by (auto simp: theme_granted_page current_theme_Some next_theme_in next_theme_three themes_def
      next_theme_values)

definition sample_theme_page :: theme_page where
  "sample_theme_page = \<lparr>toast_region = Some [], toast_next = 0, csrf_meta = Some (js ''t''),
     window_actions = [], uncaught = [], dataset_theme = Some (js ''dark''),
     theme_buttons = [\<lparr>b_text = js ''Theme: Dark'', b_disabled = False, b_original = None,
       b_loading = None, tb_preference = Some (js ''dark''), tb_aria = None\<rparr>]\<rparr>"

theorem theme_cycle_witness:
  "dataset_theme (theme_granted 0 sample_theme_page) = Some (js ''system'')"
  using theme_cycle [of 0 sample_theme_page]
  by (simp add: sample_theme_page_def Let_def current_theme_def themes_def next_theme_values)

lemma theme_loading_ui:
  "toast_region (theme_loading i l p) = toast_region p"
  "toast_texts (theme_loading i l p) = toast_texts p"
  by (simp_all add: theme_loading_def toast_texts_def)

lemma theme_loading_text:
  "i < length (theme_buttons p) \<Longrightarrow> b_text (theme_buttons p ! i) \<noteq> [] \<Longrightarrow>
     b_text (theme_buttons (theme_loading i False (toast m (theme_loading i True p))) ! i) =
       b_text (theme_buttons p ! i)"
  by (simp add: theme_loading_def setButtonLoading_restores)

text \<open>When the theme is not saved (the network fails, the server refuses, or the body cannot be used) the
  page keeps its theme, the button gets its text back and is enabled, and one toast tells the user.\<close>

theorem theme_not_saved:
  assumes "i < length (theme_buttons p)" and "b_text (theme_buttons p ! i) \<noteq> []"
    and "r = Rejected \<or> (\<exists>status b. r = Answer status b \<and> \<not> resp_ok status)"
  shows "(let q = theme_answer i sent r (fst (theme_click i p))
    in dataset_theme q = dataset_theme p \<and> b_text (theme_buttons q ! i) = b_text (theme_buttons p ! i) \<and>
       \<not> b_disabled (theme_buttons q ! i) \<and>
       (toast_region p \<noteq> None \<longrightarrow> length (toast_texts q) = Suc (length (toast_texts p))))"
proof -
  have "\<exists>m. theme_try r (theme_loading i True p) = (toast m (theme_loading i True p), Some (JStr []))"
    using assms(3) by (auto simp: theme_try_def Let_def)
  then obtain m where
    "theme_try r (theme_loading i True p) = (toast m (theme_loading i True p), Some (JStr []))" ..
  then show ?thesis
    using assms(1,2)
    by (simp add: theme_answer_def theme_loading_text theme_loading_ui)
      (auto simp: theme_loading_ui toast_texts_toast)
qed

theorem theme_not_saved_witness:
  "dataset_theme (theme_answer 0 (plain_call sample_theme_page ''PUT'' []) Rejected
     (fst (theme_click 0 sample_theme_page))) =
     Some (js ''dark'')"
  using theme_not_saved [of 0 sample_theme_page Rejected
      "plain_call sample_theme_page ''PUT'' []"]
  by (simp add: sample_theme_page_def Let_def)

text \<open>The login form tells a refused login nothing about why: every answer that is not 2xx leaves the same
  page, with one fixed text. It leaves for the administration pages exactly on a 2xx answer, and its
  button is enabled after every outcome.\<close>

theorem login_outcome:
  "(\<not> resp_ok status \<and> \<not> resp_ok status' \<longrightarrow>
     login_answer sent (Answer status b) p = login_answer sent' (Answer status' b') p) \<and>
   (window_actions (login_answer sent r p) = window_actions p @ [Assign (js ''/admin'')] \<longleftrightarrow>
     (\<exists>st bd. r = Answer st bd \<and> resp_ok st)) \<and>
   (\<not> (\<exists>st bd. r = Answer st bd \<and> resp_ok st) \<longrightarrow>
     window_actions (login_answer sent r p) = window_actions p) \<and>
   \<not> button_busy (login_button (login_answer sent r p))"
  by (auto simp: login_answer_def login_loading_def set_login_error_def assign_location_def
      split: fetch_result.split)

definition sample_login_page :: login_page where
  "sample_login_page = \<lparr>toast_region = None, toast_next = 0, csrf_meta = None, window_actions = [],
     uncaught = [], login_form = (\<lambda>k. Some (js ''x'')), login_error = Some [],
     login_button = Some \<lparr>b_text = js ''Sign in'', b_disabled = False, b_original = None,
       b_loading = None\<rparr>\<rparr>"

theorem login_outcome_witness:
  "login_answer (plain_call sample_login_page ''POST'' []) (Answer 401 None) sample_login_page =
     login_answer (plain_call sample_login_page ''POST'' []) (Answer 429 None) sample_login_page"
  using login_outcome [of 401 429 "plain_call sample_login_page ''POST'' []" None sample_login_page
      "plain_call sample_login_page ''POST'' []" None]
  by (simp add: resp_ok_def)

end
