(* ===== verification/Protection.thy ===== *)
theory Protection
  imports Browser
begin

text \<open>
  The link page of the administration: the password protection of a link
  (\<^verbatim>\<open>setupPasswordProtection\<close> in \<^verbatim>\<open>web/static/admin.js\<close>) and the buttons that revoke links
  (\<^verbatim>\<open>setupRevokeButtons\<close>). The save and the remove button have independent requests, so their answers can
  cross.
\<close>

section \<open>Password protection\<close>

text \<open>
  The elements of \<^verbatim>\<open>web/templates/secret_detail.html\<close>; \<open>remove_hidden\<close> is the class of the remove button,
  which exists when \<open>remove_button\<close> does.
\<close>

record protection_page = ui +
  prot_dialog :: bool
  secretID :: jstr
  passwordProtected :: jstr
  prot_form :: form
  prot_defaults :: form
  prot_error :: "jstr option"
  save_button :: "button option"
  remove_button :: "button option"
  remove_hidden :: bool
  prot_status :: "jstr option"
  prot_badge :: "jstr option"
  prot_guidance :: "jstr option"

definition guidance_text :: "bool \<Rightarrow> jstr" where
  "guidance_text protectedNow =
     (if protectedNow
      then js ''The current link password cannot be recovered. If it was lost, you can replace it with a new password.''
      else js ''This active link does not currently require a separate password.'')"

definition save_text :: "bool \<Rightarrow> jstr" where
  "save_text protectedNow = (if protectedNow then js ''Replace password'' else js ''Set password'')"

definition bool_text :: "bool \<Rightarrow> jstr" where
  "bool_text b = (if b then js ''true'' else js ''false'')"

definition updateProtectionUI :: "bool \<Rightarrow> protection_page \<Rightarrow> protection_page" where
  "updateProtectionUI protectedNow p = p\<lparr>
     passwordProtected := bool_text protectedNow,
     prot_status := map_option (\<lambda>_. if protectedNow then js ''Yes'' else js ''No'') (prot_status p),
     prot_badge := map_option (\<lambda>_. if protectedNow then js ''Protected'' else js ''Not protected'')
       (prot_badge p),
     prot_guidance := map_option (\<lambda>_. guidance_text protectedNow) (prot_guidance p),
     save_button := map_option (\<lambda>b. b\<lparr>b_text := save_text protectedNow\<rparr>) (save_button p),
     remove_hidden := \<not> protectedNow\<rparr>"

definition set_prot_error :: "jstr \<Rightarrow> protection_page \<Rightarrow> protection_page" where
  "set_prot_error text p = p\<lparr>prot_error := map_option (\<lambda>_. text) (prot_error p)\<rparr>"

definition save_loading :: "bool \<Rightarrow> protection_page \<Rightarrow> protection_page" where
  "save_loading loading p = p\<lparr>save_button := map_option (setButtonLoading loading) (save_button p)\<rparr>"

definition remove_loading :: "bool \<Rightarrow> protection_page \<Rightarrow> protection_page" where
  "remove_loading loading p =
     p\<lparr>remove_button := map_option (setButtonLoading loading) (remove_button p)\<rparr>"

definition password_url :: "protection_page \<Rightarrow> jstr" where
  "password_url p = js ''/api/v1/secret-links/'' @ secretID p @ js ''/password''"

text \<open>The pending call of the save button keeps \<^verbatim>\<open>wasProtected\<close>.\<close>

definition protection_submit ::
  "protection_page \<Rightarrow> protection_page \<times> (bool \<times> http_request) option" where
  "protection_submit p =
     (let p1 = set_prot_error [] p;
          password = form_string (prot_form p1) ''password'';
          wasProtected = (passwordProtected p1 = js ''true'')
      in (save_loading True p1,
          Some (wasProtected, json_call p1 ''PUT'' (password_url p1) (obj [(''password'', JStr password)]))))"

text \<open>The \<^verbatim>\<open>try\<close> block of both handlers from the answer on; the second component is \<^verbatim>\<open>updated\<close>.\<close>

definition protection_try ::
  "string \<Rightarrow> string \<Rightarrow> fetch_result \<Rightarrow> protection_page \<Rightarrow> protection_page \<times> bool" where
  "protection_try refused unreachable r p =
     (case r of
        Rejected \<Rightarrow> (set_prot_error (js unreachable) p, False)
      | Answer status b \<Rightarrow>
          (let body = body_or_empty b
           in if \<not> resp_ok status
              then (if prot_error p = None then p
                    else if nullish body then set_prot_error (js unreachable) p
                    else set_prot_error (message_or (get_prop body ''message'') refused) p, False)
              else (p\<lparr>prot_form := prot_defaults p\<rparr>, True)))"

definition protection_answer ::
  "bool \<times> http_request \<Rightarrow> fetch_result \<Rightarrow> protection_page \<Rightarrow> protection_page" where
  "protection_answer call r p =
     (let (p1, updated) = protection_try ''Link password could not be updated.''
            ''Link password could not be updated. Check your connection and try again.'' r p;
          p2 = save_loading False p1
      in if updated
         then toast (if fst call then js ''Link password replaced.'' else js ''Link password set.'')
                (updateProtectionUI True p2)
         else p2)"

definition remove_click :: "protection_page \<Rightarrow> confirm_prompt" where
  "remove_click p = confirmAction (prot_dialog p) ''Remove link password?''
     ''The same one-time URL will remain active without password protection.''"

definition remove_confirmed ::
  "jstr \<Rightarrow> bool \<Rightarrow> protection_page \<Rightarrow> protection_page \<times> http_request option" where
  "remove_confirmed url ok p =
     (if \<not> ok then (p, None)
      else (remove_loading True (set_prot_error [] p), Some (plain_call p ''DELETE'' url)))"

definition remove_answer :: "fetch_result \<Rightarrow> protection_page \<Rightarrow> protection_page" where
  "remove_answer r p =
     (let (p1, updated) = protection_try ''Link password could not be removed.''
            ''Link password could not be removed. Check your connection and try again.'' r p;
          p2 = remove_loading False p1
      in if updated then toast (js ''Link password removed.'') (updateProtectionUI False p2) else p2)"

inductive protection_other :: "protection_page \<Rightarrow> protection_page \<Rightarrow> bool" where
  protection_input: "protection_other p (p\<lparr>prot_form := data\<rparr>)"
| protection_remove: "protection_other p (fst (remove_confirmed url ok p))"
| protection_removed: "protection_other p (remove_answer r p)"
| protection_timer: "protection_other p (toast_expire i p)"

lemma prot_frames [simp]:
  "save_button (toast m p) = save_button p" "save_button (toast_expire i p) = save_button p"
  "save_button (set_prot_error t p) = save_button p"
  "save_button (remove_loading l p) = save_button p"
  "remove_button (save_loading l p) = remove_button p"
  "remove_button (toast m p) = remove_button p"
  "remove_button (set_prot_error t p) = remove_button p"
  "remove_button (updateProtectionUI b p) = remove_button p"
  "save_button (fst (protection_try x y r p)) = save_button p"
  "remove_button (fst (protection_try x y r p)) = remove_button p"
  by (simp_all add: toast_def toast_expire_def set_prot_error_def remove_loading_def save_loading_def
      updateProtectionUI_def protection_try_def Let_def split: option.split fetch_result.split)

lemma protection_other_button:
  "protection_other p q \<Longrightarrow> button_busy (save_button q) = button_busy (save_button p) \<and>
     (save_button q = None \<longleftrightarrow> save_button p = None)"
  by (induction rule: protection_other.induct)
    (auto simp: remove_confirmed_def remove_answer_def case_prod_beta Let_def updateProtectionUI_def
      button_busy_def split: option.split)

interpretation protect: single_flight protection_submit protection_answer
    "\<lambda>p. button_busy (save_button p)" protection_other "\<lambda>p. save_button p \<noteq> None"
  by unfold_locales
    (auto simp: protection_submit_def protection_answer_def save_loading_def case_prod_beta Let_def
      updateProtectionUI_def button_busy_def dest: protection_other_button split: option.splits)

interpretation unprotect: confirmed_action "\<lambda>p. Some (password_url p)" remove_confirmed protection_other
    "\<lambda>url. (''DELETE'', url)"
  by unfold_locales (simp_all add: remove_confirmed_def)

section \<open>Everything that can happen to the protection form\<close>

inductive protection_step :: "protection_page \<Rightarrow> protection_page \<Rightarrow> bool" where
  prot_submit: "protection_step p (fst (protection_submit p))"
| prot_answer: "protection_step p (protection_answer call r p)"
| prot_other: "protection_other p q \<Longrightarrow> protection_step p q"

text \<open>What the page shows, apart from the text of the save button.\<close>

definition protection_shown :: "bool \<Rightarrow> protection_page \<Rightarrow> bool" where
  "protection_shown b p \<longleftrightarrow>
     passwordProtected p = bool_text b \<and> remove_hidden p = (\<not> b) \<and>
     (prot_status p = None \<or> prot_status p = Some (if b then js ''Yes'' else js ''No'')) \<and>
     (prot_badge p = None \<or> prot_badge p = Some (if b then js ''Protected'' else js ''Not protected'')) \<and>
     (prot_guidance p = None \<or> prot_guidance p = Some (guidance_text b))"

lemma protection_shown_update [simp]: "protection_shown c (updateProtectionUI b p) \<longleftrightarrow> c = b"
  by (cases b; cases c; cases "prot_status p"; cases "prot_badge p"; cases "prot_guidance p")
    (simp_all add: protection_shown_def updateProtectionUI_def bool_text_def)

lemma protection_shown_frames [simp]:
  "protection_shown b (toast m p) = protection_shown b p"
  "protection_shown b (toast_expire i p) = protection_shown b p"
  "protection_shown b (set_prot_error t p) = protection_shown b p"
  "protection_shown b (save_loading l p) = protection_shown b p"
  "protection_shown b (remove_loading l p) = protection_shown b p"
  "protection_shown b (p\<lparr>prot_form := data\<rparr>) = protection_shown b p"
  "protection_shown b (fst (protection_try x y r p)) = protection_shown b p"
  by (simp_all add: toast_def toast_expire_def set_prot_error_def remove_loading_def save_loading_def
      protection_try_def Let_def protection_shown_def split: option.split fetch_result.split)

lemma protection_other_shown:
  "protection_other p q \<Longrightarrow> protection_shown b p \<Longrightarrow> \<exists>c. protection_shown c q"
  by (induction rule: protection_other.induct)
    (auto simp: remove_confirmed_def remove_answer_def case_prod_beta Let_def)

lemma protection_step_shown:
  "protection_step p q \<Longrightarrow> protection_shown b p \<Longrightarrow> \<exists>c. protection_shown c q"
  by (induction rule: protection_step.induct)
    (auto simp: protection_submit_def protection_answer_def case_prod_beta Let_def protection_other_shown)

lemma protection_steps_shown:
  "protection_step\<^sup>*\<^sup>* p q \<Longrightarrow> protection_shown b p \<Longrightarrow> \<exists>c. protection_shown c q"
  by (induction rule: rtranclp_induct) (auto dest: protection_step_shown)

definition sample_protection :: protection_page where
  "sample_protection = \<lparr>toast_region = Some [], toast_next = 0, csrf_meta = Some (js ''t''),
     window_actions = [], uncaught = [], prot_dialog = True, secretID = js ''7'',
     passwordProtected = js ''true'', prot_form = (\<lambda>_. None), prot_defaults = (\<lambda>_. None),
     prot_error = Some [],
     save_button = Some \<lparr>b_text = js ''Replace password'', b_disabled = False, b_original = None,
       b_loading = Some (js ''Saving...'')\<rparr>,
     remove_button = Some \<lparr>b_text = js ''Remove password'', b_disabled = False, b_original = None,
       b_loading = None\<rparr>,
     remove_hidden = False, prot_status = Some (js ''Yes''), prot_badge = Some (js ''Protected''),
     prot_guidance = Some (guidance_text True)\<rparr>"

lemma sample_protection_shown: "protection_shown True sample_protection"
  by (simp add: sample_protection_def protection_shown_def bool_text_def)

text \<open>The text of the save button belongs to the panel too: what it says, or, while a save is under way, what it
  will say again.\<close>

definition save_shown :: "bool \<Rightarrow> protection_page \<Rightarrow> bool" where
  "save_shown b p \<longleftrightarrow> (case save_button p of None \<Rightarrow> True | Some x \<Rightarrow>
     if b_disabled x then b_original x = Some (save_text b) else b_text x = save_text b)"

text \<open>The steps that the browser and the network allow (a save starts when none is under way, and is answered when one is),
  but for a removal that succeeds while a save is under way.\<close>

inductive panel_step :: "protection_page \<Rightarrow> protection_page \<Rightarrow> bool" where
  panel_submit: "\<not> button_busy (save_button p) \<Longrightarrow> panel_step p (fst (protection_submit p))"
| panel_answer: "save_button p = None \<or> button_busy (save_button p) \<Longrightarrow> panel_step p (protection_answer call r p)"
| panel_removed: "\<not> button_busy (save_button p) \<or> \<not> (\<exists>status b. r = Answer status b \<and> resp_ok status) \<Longrightarrow>
    panel_step p (remove_answer r p)"
| panel_remove: "panel_step p (fst (remove_confirmed url ok p))"
| panel_input: "panel_step p (p\<lparr>prot_form := data\<rparr>)"
| panel_timer: "panel_step p (toast_expire i p)"

lemma save_shown_frames [simp]:
  "save_shown b (toast m p) = save_shown b p" "save_shown b (toast_expire i p) = save_shown b p"
  "save_shown b (set_prot_error t p) = save_shown b p" "save_shown b (remove_loading l p) = save_shown b p"
  "save_shown b (p\<lparr>prot_form := data\<rparr>) = save_shown b p" "save_shown b (fst (protection_try x y r p)) = save_shown b p"
  by (simp_all add: save_shown_def)

lemma save_text_some [simp]: "save_text b \<noteq> []"
  by (simp add: save_text_def js_def)

lemma save_shown_loading:
  "\<not> button_busy (save_button p) \<Longrightarrow> save_shown b p \<Longrightarrow> save_shown b (save_loading True p)"
  "save_button p = None \<or> button_busy (save_button p) \<Longrightarrow> save_shown b p \<Longrightarrow> save_shown b (save_loading False p)"
  by (cases "save_button p"; simp add: save_shown_def save_loading_def setButtonLoading_def)+

lemma save_shown_update:
  "\<not> button_busy (save_button p) \<Longrightarrow> save_shown b (updateProtectionUI b p)"
  by (cases "save_button p") (simp_all add: save_shown_def updateProtectionUI_def)

lemma updated_answered: "snd (protection_try x y r p) \<Longrightarrow> \<exists>status b. r = Answer status b \<and> resp_ok status"
  by (cases r) (simp_all add: protection_try_def Let_def split: if_splits)

lemma idle_loading [simp]: "\<not> button_busy (save_button (save_loading False p))"
  by (simp add: save_loading_def)

lemma panel_step_shown:
  assumes "panel_step p q" and "protection_shown b p \<and> save_shown b p"
  shows "\<exists>c. protection_shown c q \<and> save_shown c q"
  using assms
proof (induction rule: panel_step.induct)
  case (panel_submit p)
  have "protection_shown b (fst (protection_submit p))"
    using panel_submit(2) by (simp add: protection_submit_def Let_def)
  moreover have "save_shown b (fst (protection_submit p))"
    using panel_submit save_shown_loading(1) [of "set_prot_error [] p" b] by (simp add: protection_submit_def Let_def)
  ultimately show ?case by blast
next
  case (panel_answer p call r)
  obtain p1 u where tried: "protection_try ''Link password could not be updated.''
    ''Link password could not be updated. Check your connection and try again.'' r p = (p1, u)" by fastforce
  then have p1: "protection_shown b p1" "save_shown b p1" "save_button p1 = save_button p"
    using panel_answer(2) protection_shown_frames(7) save_shown_frames(6) prot_frames(9) by (metis fst_conv)+
  then have p2: "protection_shown b (save_loading False p1)" "save_shown b (save_loading False p1)"
    using panel_answer(1) save_shown_loading(2) [of p1 b] by simp_all
  show ?case
  proof (cases u)
    case True
    then have "protection_shown True (protection_answer call r p) \<and> save_shown True (protection_answer call r p)"
      by (simp add: protection_answer_def tried save_shown_update)
    then show ?thesis by blast
  next
    case False
    with p2 have "protection_shown b (protection_answer call r p) \<and> save_shown b (protection_answer call r p)"
      by (simp add: protection_answer_def tried)
    then show ?thesis by blast
  qed
next
  case (panel_removed p r)
  obtain p1 u where tried: "protection_try ''Link password could not be removed.''
    ''Link password could not be removed. Check your connection and try again.'' r p = (p1, u)" by fastforce
  then have p1: "protection_shown b p1" "save_shown b p1" "save_button p1 = save_button p"
    using panel_removed(2) protection_shown_frames(7) save_shown_frames(6) prot_frames(9) by (metis fst_conv)+
  show ?case
  proof (cases u)
    case True
    with updated_answered tried have "\<exists>status b. r = Answer status b \<and> resp_ok status" by (metis snd_conv)
    with panel_removed(1) have "\<not> button_busy (save_button (remove_loading False p1))"
      unfolding prot_frames(4) p1(3) by blast
    from save_shown_update [OF this, of False] True
    have "protection_shown False (remove_answer r p) \<and> save_shown False (remove_answer r p)"
      by (simp add: remove_answer_def tried)
    then show ?thesis by blast
  next
    case False
    with p1 have "protection_shown b (remove_answer r p) \<and> save_shown b (remove_answer r p)"
      by (simp add: remove_answer_def tried)
    then show ?thesis by blast
  qed
next
  case (panel_remove p url ok)
  then have "protection_shown b (fst (remove_confirmed url ok p)) \<and> save_shown b (fst (remove_confirmed url ok p))"
    by (simp add: remove_confirmed_def)
  then show ?case by blast
next
  case (panel_input p data)
  then have "protection_shown b (p\<lparr>prot_form := data\<rparr>) \<and> save_shown b (p\<lparr>prot_form := data\<rparr>)" by simp
  then show ?case by blast
next
  case (panel_timer p i)
  then have "protection_shown b (toast_expire i p) \<and> save_shown b (toast_expire i p)" by simp
  then show ?case by blast
qed

lemma panel_steps_shown:
  "panel_step\<^sup>*\<^sup>* p q \<Longrightarrow> protection_shown b p \<and> save_shown b p \<Longrightarrow> \<exists>c. protection_shown c q \<and> save_shown c q"
  by (induction rule: rtranclp_induct) (use panel_step_shown in blast)+

text \<open>C40: Whatever the order of clicks and answers, the data attribute, the badge, the status, the guidance and the visibility of
  the remove button all say the same. The text of the save button says it too, unless a removal succeeds while a
  save is under way: with any other order of clicks and answers it agrees whenever no save is under way, and while one
  is, the text that it will get back agrees.\<close>

theorem protection_consistent:
  assumes "protection_shown b p" and "save_shown b p"
  shows "(protection_step\<^sup>*\<^sup>* p q \<longrightarrow> (\<exists>c. protection_shown c q)) \<and>
    (panel_step\<^sup>*\<^sup>* p q \<longrightarrow> (\<exists>c. protection_shown c q \<and> save_shown c q))"
  using protection_steps_shown assms(1) panel_steps_shown assms by blast

lemma sample_save_shown: "save_shown True sample_protection"
  by (simp add: sample_protection_def save_shown_def save_text_def)

theorem protection_consistent_witness:
  "\<exists>c. protection_shown c (remove_answer (Answer 200 None) sample_protection) \<and>
     save_shown c (remove_answer (Answer 200 None) sample_protection)"
proof -
  have "panel_step sample_protection (remove_answer (Answer 200 None) sample_protection)"
    by (rule panel_removed) (simp add: sample_protection_def)
  then show ?thesis
    using protection_consistent [OF sample_protection_shown sample_save_shown] by blast
qed

text \<open>Saving a password: on a 2xx answer the page shows the link as protected, the form is reset and the
  toast says \<open>replaced\<close> exactly when the link was protected at the time of the click; on any other
  outcome the panel is unchanged and an error text is shown.\<close>

theorem protection_save_outcome:
  assumes "protection_submit p = (p1, Some (was, request))" and "prot_error p \<noteq> None"
    and "toast_region p \<noteq> None"
  shows "rq_method request = ''PUT'' \<and> rq_url request = password_url p \<and>
    (resp_ok status \<longrightarrow>
       (let q = protection_answer (was, request) (Answer status b) p1
        in protection_shown True q \<and> prot_form q = prot_defaults p \<and>
           toast_texts q = toast_texts p @ [if passwordProtected p = js ''true''
             then js ''Link password replaced.'' else js ''Link password set.''])) \<and>
    (\<not> resp_ok status \<and> protection_shown c p \<and>
       (get_prop (body_or_empty b) ''message'' = None \<or>
        (\<exists>m. get_prop (body_or_empty b) ''message'' = Some (JStr m))) \<longrightarrow>
       (let q = protection_answer (was, request) (Answer status b) p1
        in protection_shown c q \<and> prot_error q \<noteq> Some [] \<and> toast_texts q = toast_texts p))"
proof -
  have was: "was = (passwordProtected p = js ''true'')"
    and p1: "p1 = save_loading True (set_prot_error [] p)"
    and url: "rq_method request = ''PUT''" "rq_url request = password_url p"
    using assms(1) by (auto simp: protection_submit_def Let_def set_prot_error_def password_url_def)
  have ok: "protection_shown True (protection_answer (was, request) (Answer status b) p1) \<and>
      prot_form (protection_answer (was, request) (Answer status b) p1) = prot_defaults p \<and>
      toast_texts (protection_answer (was, request) (Answer status b) p1) = toast_texts p @
        [if passwordProtected p = js ''true'' then js ''Link password replaced.'' else js ''Link password set.'']"
    if "resp_ok status"
    using that assms(3)
    by (simp add: protection_answer_def protection_try_def Let_def p1 was)
      (auto simp: save_loading_def set_prot_error_def updateProtectionUI_def toast_def toast_texts_def)
  have no: "protection_shown c (protection_answer (was, request) (Answer status b) p1) \<and>
      prot_error (protection_answer (was, request) (Answer status b) p1) \<noteq> Some [] \<and>
      toast_texts (protection_answer (was, request) (Answer status b) p1) = toast_texts p"
    if "\<not> resp_ok status" "protection_shown c p" "get_prop (body_or_empty b) ''message'' = None \<or>
        (\<exists>m. get_prop (body_or_empty b) ''message'' = Some (JStr m))"
    using that assms(2) unfolding p1
    by (auto simp: protection_answer_def protection_try_def Let_def message_or_def)
      (auto simp: save_loading_def set_prot_error_def toast_texts_def)
  from url ok no show ?thesis by (simp add: Let_def)
qed

theorem protection_save_outcome_witness:
  "toast_texts (protection_answer (the (snd (protection_submit sample_protection))) (Answer 200 None)
     (fst (protection_submit sample_protection))) = [js ''Link password replaced.'']"
proof -
  have "protection_submit sample_protection = (fst (protection_submit sample_protection),
      Some (True, snd (the (snd (protection_submit sample_protection)))))"
    by (simp add: protection_submit_def Let_def) (simp add: sample_protection_def set_prot_error_def)
  from protection_save_outcome [OF this, of 200 None]
  have "toast_texts (protection_answer (True, snd (the (snd (protection_submit sample_protection))))
      (Answer 200 None) (fst (protection_submit sample_protection))) = [js ''Link password replaced.'']"
    by (simp add: resp_ok_def Let_def) (simp add: sample_protection_def toast_texts_def)
  moreover have "fst (the (snd (protection_submit sample_protection)))"
    by (simp add: protection_submit_def Let_def) (simp add: sample_protection_def set_prot_error_def)
  ultimately show ?thesis by (metis prod.collapse)
qed

text \<open>When the answers of the two buttons cross, the save button can be left with the wrong text. The user
  asks to replace the password and then to remove it; the removal succeeds first and the replacement is
  refused: the page shows an unprotected link whose button still says \<open>Replace password\<close>.\<close>

theorem protection_stale_button:
  "\<exists>p q. protection_shown True p \<and> protection_step\<^sup>*\<^sup>* p q \<and> protection_shown False q \<and>
     map_option b_text (save_button q) = Some (save_text True) \<and> \<not> button_busy (save_button q)"
proof -
  let ?p1 = "fst (protection_submit sample_protection)"
  let ?p2 = "fst (remove_confirmed (password_url ?p1) True ?p1)"
  let ?p3 = "remove_answer (Answer 200 None) ?p2"
  let ?call = "(True, plain_call ?p3 ''PUT'' [])"
  let ?p4 = "protection_answer ?call (Answer 409 None) ?p3"
  have "protection_step sample_protection ?p1" by (rule prot_submit)
  moreover have "protection_step ?p1 ?p2" by (rule prot_other, rule protection_remove)
  moreover have "protection_step ?p2 ?p3" by (rule prot_other, rule protection_removed)
  moreover have "protection_step ?p3 ?p4" by (rule prot_answer)
  ultimately have steps: "protection_step\<^sup>*\<^sup>* sample_protection ?p4"
    by (meson rtranclp.rtrancl_into_rtrancl rtranclp.rtrancl_refl)
  have p3: "protection_shown False ?p3" by (simp add: remove_answer_def protection_try_def resp_ok_def)
  then have p4: "protection_shown False ?p4"
    by (simp add: protection_answer_def protection_try_def resp_ok_def Let_def)
  have button: "map_option b_text (save_button ?p4) = Some (save_text True)"
    "\<not> button_busy (save_button ?p4)"
    by (simp_all add: protection_answer_def remove_answer_def remove_confirmed_def protection_submit_def
        protection_try_def resp_ok_def save_loading_def updateProtectionUI_def setButtonLoading_def
        sample_protection_def set_prot_error_def remove_loading_def toast_def save_text_def Let_def)
  from steps p4 button sample_protection_shown show ?thesis by blast
qed

section \<open>The revoke buttons\<close>

record revoke_button = button +
  data_revoke_id :: jstr

record revoke_page = ui +
  revoke_dialog :: bool
  revoke_buttons :: "revoke_button list"

text \<open>
  The click on button \<open>i\<close>, which the browser dispatches to an enabled button only; the handler keeps the
  button and its id across the dialog.
\<close>

definition revoke_prompt :: "revoke_page \<Rightarrow> confirm_prompt" where
  "revoke_prompt p = confirmAction (revoke_dialog p) ''Revoke this link?''
     ''Recipients will receive the generic unavailable message.''"

definition revoke_click :: "nat \<Rightarrow> revoke_page \<Rightarrow> (nat \<times> jstr) option" where
  "revoke_click i p =
     (if i < length (revoke_buttons p) \<and> \<not> b_disabled (revoke_buttons p ! i)
      then Some (i, data_revoke_id (revoke_buttons p ! i)) else None)"

definition revoke_url :: "jstr \<Rightarrow> jstr" where
  "revoke_url link = js ''/api/v1/secret-links/'' @ link @ js ''/revoke''"

definition revoke_confirmed ::
  "nat \<times> jstr \<Rightarrow> bool \<Rightarrow> revoke_page \<Rightarrow> revoke_page \<times> http_request option" where
  "revoke_confirmed k ok p =
     (if \<not> ok then (p, None)
      else (p\<lparr>revoke_buttons := (revoke_buttons p)
              [fst k := (revoke_buttons p ! fst k)\<lparr>b_disabled := True\<rparr>]\<rparr>,
            Some (plain_call p ''POST'' (revoke_url (snd k)))))"

definition revoke_text :: "nat \<Rightarrow> jstr \<Rightarrow> revoke_page \<Rightarrow> revoke_page" where
  "revoke_text i text p =
     p\<lparr>revoke_buttons := (revoke_buttons p)[i := (revoke_buttons p ! i)\<lparr>b_text := text\<rparr>]\<rparr>"

definition revoke_answer :: "nat \<Rightarrow> fetch_result \<Rightarrow> revoke_page \<Rightarrow> revoke_page" where
  "revoke_answer i r p =
     (case r of
        Rejected \<Rightarrow> throw_uncaught TypeError p
      | Answer status b \<Rightarrow>
          (if resp_ok status then toast (js ''Link revoked.'') (revoke_text i (js ''Revoked'') p)
           else toast (js ''The link was already unavailable.'') (revoke_text i (js ''Unavailable'') p)))"

inductive revoke_other :: "revoke_page \<Rightarrow> revoke_page \<Rightarrow> bool" where
  revoke_answered: "revoke_other p (revoke_answer i r p)"
| revoke_timer: "revoke_other p (toast_expire i p)"

interpretation revoking: confirmed_action "revoke_click i" revoke_confirmed revoke_other
    "\<lambda>k. (''POST'', revoke_url (snd k))" for i
  by unfold_locales (simp_all add: revoke_confirmed_def)

lemma revoke_buttons_ui [simp]:
  "revoke_buttons (toast m p) = revoke_buttons p"
  "revoke_buttons (throw_uncaught e p) = revoke_buttons p"
  "uncaught (revoke_text i t p) = uncaught p"
  by (simp_all add: toast_def throw_uncaught_def revoke_text_def split: option.split)

definition sample_revoke_page :: revoke_page where
  "sample_revoke_page = \<lparr>toast_region = Some [], toast_next = 0, csrf_meta = Some (js ''t''),
     window_actions = [], uncaught = [], revoke_dialog = True,
     revoke_buttons = [\<lparr>b_text = js ''Revoke'', b_disabled = False, b_original = None,
       b_loading = None, data_revoke_id = js ''7''\<rparr>]\<rparr>"

text \<open>A link is revoked only after the user has confirmed it: in every run the requests sent are the POSTs
  for the confirmed clicks, in order, each for the id of the button that was clicked.\<close>

theorem revoke_only_confirmed:
  assumes "confirm_run (revoke_click i) revoke_confirmed revoke_other p0 p ks sent yes"
  shows "map (\<lambda>q. (rq_method q, rq_url q)) sent = map (\<lambda>k. (''POST'', revoke_url (snd k))) yes"
  by (rule revoking.requests_confirmed [OF assms])

lemma sample_revoke_run:
  "confirm_run (revoke_click 0) revoke_confirmed revoke_other sample_revoke_page
     (fst (revoke_confirmed (0, js ''7'') True sample_revoke_page)) []
     [plain_call sample_revoke_page ''POST'' (revoke_url (js ''7''))] [(0, js ''7'')]"
proof -
  have "confirm_run (revoke_click 0) revoke_confirmed revoke_other sample_revoke_page
      sample_revoke_page ([] @ (0, js ''7'') # []) [] []"
    using confirm_click [OF confirm_load [of "revoke_click 0"], of _ "(0, js ''7'')"]
    by (simp add: revoke_click_def sample_revoke_page_def)
  from confirm_choice [OF this prod.collapse [symmetric], of True]
  show ?thesis by (simp add: revoke_confirmed_def)
qed

theorem revoke_only_confirmed_witness:
  "rq_url (plain_call sample_revoke_page ''POST'' (revoke_url (js ''7''))) = revoke_url (js ''7'')"
  using revoke_only_confirmed [OF sample_revoke_run] by simp

text \<open>A confirmed revocation disables its button for good. An answer renames it, \<open>Revoked\<close> for 2xx and
  \<open>Unavailable\<close> otherwise, even for a refused session or a server error; when the network fails the
  button stays disabled under its old text and the error is not handled.\<close>

theorem revoke_button_outcome:
  assumes "revoke_click i p = Some k" and "revoke_confirmed k True p = (p1, q)"
  shows "(let b = revoke_buttons (revoke_answer i r p1) ! i
    in b_disabled b \<and> data_revoke_id b = snd k \<and>
       b_text b = (case r of Rejected \<Rightarrow> b_text (revoke_buttons p ! i)
         | Answer status _ \<Rightarrow> if resp_ok status then js ''Revoked'' else js ''Unavailable'')) \<and>
    uncaught (revoke_answer i r p1) = uncaught p @ (if r = Rejected then [TypeError] else [])"
proof -
  have i: "i < length (revoke_buttons p)" and k: "k = (i, data_revoke_id (revoke_buttons p ! i))"
    using assms(1) by (auto simp: revoke_click_def split: if_splits)
  then show ?thesis
    using assms(2)
    by (cases r) (auto simp: revoke_answer_def revoke_confirmed_def revoke_text_def throw_uncaught_def Let_def)
qed

theorem revoke_button_outcome_witness:
  "b_text (revoke_buttons (revoke_answer 0 Rejected
     (fst (revoke_confirmed (0, js ''7'') True sample_revoke_page))) ! 0) = js ''Revoke''"
  using revoke_button_outcome [of 0 sample_revoke_page "(0, js ''7'')", OF _ prod.collapse [symmetric],
      of Rejected]
  by (simp add: revoke_click_def sample_revoke_page_def Let_def)

end
