(* ===== verification/UserAdmin.thy ===== *)
theory UserAdmin
  imports Browser
begin

text \<open>
  The user administration: \<^verbatim>\<open>setupUserManagement\<close> in \<^verbatim>\<open>web/static/admin.js\<close>. The form that creates a user, the
  two forms of a user's page, and the buttons of the list that enable or disable a user after a question.
\<close>

record user_button = button +
  ub_user :: jstr
  ub_action :: jstr

record user_page = ui +
  user_dialog :: bool
  user_form :: form
  user_error :: "jstr option"
  user_create_button :: "button option"
  update_user :: jstr
  update_form :: form
  reset_user :: jstr
  reset_form :: form
  reset_defaults :: form
  user_buttons :: "user_button list"

section \<open>Creating a user\<close>

definition set_user_error :: "jstr \<Rightarrow> user_page \<Rightarrow> user_page" where
  "set_user_error text p = p\<lparr>user_error := map_option (\<lambda>_. text) (user_error p)\<rparr>"

definition user_loading :: "bool \<Rightarrow> user_page \<Rightarrow> user_page" where
  "user_loading loading p =
     p\<lparr>user_create_button := map_option (setButtonLoading loading) (user_create_button p)\<rparr>"

definition user_fields :: "form \<Rightarrow> (string \<times> json) list" where
  "user_fields data =
     [(''role'', JStr (form_string_or data ''role'' ''developer'')),
      (''status'', JStr (form_string_or data ''status'' ''active'')),
      (''force_password_change'', JBool (form_checked data ''force_password_change''))]"

definition user_create_submit :: "user_page \<Rightarrow> user_page \<times> http_request option" where
  "user_create_submit p =
     (let p1 = set_user_error [] p; data = user_form p1
      in (user_loading True p1,
          Some (json_call p1 ''POST'' (js ''/api/v1/users'')
            (obj ([(''username'', JStr (form_string data ''username'')),
                   (''email'', JStr (form_string data ''email'')),
                   (''password'', JStr (form_string data ''password''))] @ user_fields data)))))"

text \<open>
  There is no \<^verbatim>\<open>catch\<close> here, neither around the request nor on \<^verbatim>\<open>response.json()\<close>: the errors leave the
  handler; \<open>unreadable\<close> is the message of the engine's SyntaxError.
\<close>

definition user_create_answer ::
  "jstr \<Rightarrow> http_request \<Rightarrow> fetch_result \<Rightarrow> user_page \<Rightarrow> user_page" where
  "user_create_answer unreadable sent r p =
     user_loading False
       (case r of
          Rejected \<Rightarrow> throw_uncaught TypeError p
        | Answer status b \<Rightarrow>
            (if \<not> resp_ok status then set_user_error (js ''User could not be created.'') p
             else (case b of
                     None \<Rightarrow> throw_uncaught (Thrown unreadable) p
                   | Some user \<Rightarrow>
                       (let p1 = toast (js ''User created.'') p
                        in if nullish (Some user) then throw_uncaught TypeError p1
                           else assign_location
                             (js ''/admin/users/'' @ to_string (get_prop (Some user) ''id'')) p1))))"

section \<open>The forms of a user's page\<close>

definition user_update_submit :: "user_page \<Rightarrow> http_request" where
  "user_update_submit p =
     json_call p ''PATCH'' (js ''/api/v1/users/'' @ update_user p)
       (obj ([(''username'', JStr (form_string (update_form p) ''username'')),
              (''email'', JStr (form_string (update_form p) ''email''))] @ user_fields (update_form p)))"

definition user_update_answer :: "fetch_result \<Rightarrow> user_page \<Rightarrow> user_page" where
  "user_update_answer r p =
     (case r of
        Rejected \<Rightarrow> throw_uncaught TypeError p
      | Answer status b \<Rightarrow>
          toast (if resp_ok status then js ''User updated.'' else js ''User could not be updated.'') p)"

definition user_reset_submit :: "user_page \<Rightarrow> http_request" where
  "user_reset_submit p =
     json_call p ''POST'' (js ''/api/v1/users/'' @ reset_user p @ js ''/reset-password'')
       (obj [(''password'', JStr (form_string (reset_form p) ''password'')),
             (''force_password_change'', JBool (form_checked (reset_form p) ''force_password_change''))])"

definition user_reset_answer :: "fetch_result \<Rightarrow> user_page \<Rightarrow> user_page" where
  "user_reset_answer r p =
     (case r of
        Rejected \<Rightarrow> throw_uncaught TypeError p
      | Answer status b \<Rightarrow>
          (let p1 = (if resp_ok status then p\<lparr>reset_form := reset_defaults p\<rparr> else p)
           in toast (if resp_ok status then js ''Password reset.'' else js ''Password could not be reset.'')
                p1))"

section \<open>Enabling and disabling\<close>

definition user_action_prompt :: "jstr \<Rightarrow> user_page \<Rightarrow> confirm_prompt" where
  "user_action_prompt action p = confirmAction (user_dialog p)
     (if action = js ''disable'' then ''Disable this user?'' else ''Enable this user?'')
     ''User access changes take effect immediately.''"

definition user_action_click :: "nat \<Rightarrow> user_page \<Rightarrow> (nat \<times> jstr \<times> jstr) option" where
  "user_action_click i p =
     (if i < length (user_buttons p) \<and> \<not> b_disabled (user_buttons p ! i)
      then Some (i, ub_user (user_buttons p ! i), ub_action (user_buttons p ! i)) else None)"

definition user_action_url :: "jstr \<Rightarrow> jstr \<Rightarrow> jstr" where
  "user_action_url user action = js ''/api/v1/users/'' @ user @ js ''/'' @ action"

definition user_action_confirmed ::
  "nat \<times> jstr \<times> jstr \<Rightarrow> bool \<Rightarrow> user_page \<Rightarrow> user_page \<times> http_request option" where
  "user_action_confirmed k ok p =
     (if \<not> ok then (p, None)
      else (p\<lparr>user_buttons := (user_buttons p)
              [fst k := (user_buttons p ! fst k)\<lparr>b_disabled := True\<rparr>]\<rparr>,
            Some (json_call p ''POST'' (user_action_url (fst (snd k)) (snd (snd k))) (obj []))))"

definition user_action_answer :: "fetch_result \<Rightarrow> user_page \<Rightarrow> user_page" where
  "user_action_answer r p =
     (case r of
        Rejected \<Rightarrow> throw_uncaught TypeError p
      | Answer status b \<Rightarrow>
          (let p1 = toast (if resp_ok status then js ''User updated.'' else js ''User update failed.'') p
           in if resp_ok status then reload p1 else p1))"

section \<open>Contracts\<close>

inductive user_other :: "user_page \<Rightarrow> user_page \<Rightarrow> bool" where
  user_input: "user_other p (p\<lparr>user_form := data\<rparr>)"
| user_updated: "user_other p (user_update_answer r p)"
| user_reset: "user_other p (user_reset_answer r p)"
| user_action: "user_other p (fst (user_action_confirmed k ok p))"
| user_acted: "user_other p (user_action_answer r p)"
| user_timer: "user_other p (toast_expire i p)"

lemma user_frames [simp]:
  "user_create_button (toast m p) = user_create_button p" "user_buttons (toast m p) = user_buttons p"
  "user_create_button (throw_uncaught e p) = user_create_button p"
  "user_buttons (throw_uncaught e p) = user_buttons p"
  "user_create_button (reload p) = user_create_button p" "user_buttons (reload p) = user_buttons p"
  "user_create_button (assign_location u p) = user_create_button p"
  "user_create_button (set_user_error t p) = user_create_button p"
  "user_create_button (toast_expire i p) = user_create_button p"
  by (simp_all add: toast_def throw_uncaught_def reload_def assign_location_def set_user_error_def
      toast_expire_def split: option.split)

lemma user_other_button: "user_other p q \<Longrightarrow> user_create_button q = user_create_button p"
  by (induction rule: user_other.induct)
    (simp_all add: user_update_answer_def user_reset_answer_def user_action_confirmed_def
      user_action_answer_def Let_def split: fetch_result.split)

interpretation users: single_flight user_create_submit "user_create_answer unreadable"
    "\<lambda>p. button_busy (user_create_button p)" user_other "\<lambda>p. user_create_button p \<noteq> None" for unreadable
  by unfold_locales
    (auto simp: user_create_submit_def user_create_answer_def user_loading_def user_other_button Let_def
      split: fetch_result.split option.split)

interpretation user_actions: confirmed_action "user_action_click i" user_action_confirmed user_other
    "\<lambda>k. (''POST'', user_action_url (fst (snd k)) (snd (snd k)))" for i
  by unfold_locales (simp_all add: user_action_confirmed_def)

section \<open>Properties\<close>

definition sample_user_page :: user_page where
  "sample_user_page = \<lparr>toast_region = Some [], toast_next = 0, csrf_meta = Some (js ''t''),
     window_actions = [], uncaught = [], user_dialog = False, user_form = (\<lambda>_. None),
     user_error = Some [],
     user_create_button = Some \<lparr>b_text = js ''Create user'', b_disabled = False, b_original = None,
       b_loading = None\<rparr>,
     update_user = [], update_form = (\<lambda>_. None), reset_user = [], reset_form = (\<lambda>_. None),
     reset_defaults = (\<lambda>_. None),
     user_buttons = [\<lparr>b_text = js ''Disable'', b_disabled = False, b_original = None,
       b_loading = None, ub_user = js ''7'', ub_action = js ''disable''\<rparr>]\<rparr>"

lemma window_actions_user [simp]:
  "window_actions (user_loading l p) = window_actions p"
  "window_actions (set_user_error t p) = window_actions p"
  "window_actions (throw_uncaught e p) = window_actions p"
  "uncaught (user_loading l p) = uncaught p" "uncaught (set_user_error t p) = uncaught p"
  "uncaught (assign_location u p) = uncaught p"
  by (simp_all add: user_loading_def set_user_error_def throw_uncaught_def assign_location_def)

text \<open>The page leaves for the new user exactly when the server created it and described it in the body; a
  refusal, a network failure, an unreadable or a \<open>null\<close> body keep the page, and all but the refusal
  escape as an unhandled error. The button is enabled in every case.\<close>

theorem user_create_outcome:
  "(let q = user_create_answer unreadable sent r p
    in \<not> button_busy (user_create_button q) \<and>
       (case r of
          Rejected \<Rightarrow> window_actions q = window_actions p \<and> uncaught q = uncaught p @ [TypeError]
        | Answer status b \<Rightarrow>
            if \<not> resp_ok status then
              window_actions q = window_actions p \<and> uncaught q = uncaught p \<and>
              user_error q = map_option (\<lambda>_. js ''User could not be created.'') (user_error p)
            else (case b of
                None \<Rightarrow> window_actions q = window_actions p \<and> uncaught q = uncaught p @ [Thrown unreadable]
              | Some u \<Rightarrow>
                  if u = JNull then window_actions q = window_actions p \<and> uncaught q = uncaught p @ [TypeError]
                  else window_actions q = window_actions p @
                    [Assign (js ''/admin/users/'' @ to_string (get_prop (Some u) ''id''))] \<and>
                    uncaught q = uncaught p)))"
  by (auto simp: user_create_answer_def Let_def nullish_def split: fetch_result.split option.split)
    (simp_all add: user_loading_def set_user_error_def assign_location_def throw_uncaught_def)

text \<open>A user is enabled or disabled only after the question is answered with yes, and the request names the
  user and the action of the button that was clicked.\<close>

theorem user_action_only_confirmed:
  assumes "confirm_run (user_action_click i) user_action_confirmed user_other p0 p ks sent yes"
  shows "map (\<lambda>q. (rq_method q, rq_url q)) sent =
    map (\<lambda>(_, user, action). (''POST'', js ''/api/v1/users/'' @ user @ js ''/'' @ action)) yes"
  using user_actions.requests_confirmed [OF assms] by (simp add: user_action_url_def case_prod_beta')

theorem user_action_only_confirmed_witness:
  "rq_url (json_call sample_user_page ''POST'' (user_action_url (js ''7'') (js ''disable'')) (obj [])) =
     js ''/api/v1/users/'' @ js ''7'' @ js ''/'' @ js ''disable''"
proof -
  have "confirm_run (user_action_click 0) user_action_confirmed user_other sample_user_page
      sample_user_page ([] @ (0, js ''7'', js ''disable'') # []) [] []"
    using confirm_click [OF confirm_load [of "user_action_click 0"], of _ "(0, js ''7'', js ''disable'')"]
    by (simp add: user_action_click_def sample_user_page_def)
  from user_action_only_confirmed [OF confirm_choice [OF this prod.collapse [symmetric], of True]]
  show ?thesis by (simp add: user_action_confirmed_def)
qed

text \<open>When the server refuses to enable or disable a user, the button that was clicked stays disabled until
  the page is loaded again, although nothing changed; only a success reloads the page.\<close>

theorem user_action_refused_stays_disabled:
  assumes "user_action_click i p = Some k" and "user_action_confirmed k True p = (p1, Some q)"
  shows "b_disabled (user_buttons (user_action_answer r p1) ! i) \<and>
    window_actions (user_action_answer r p1) =
      window_actions p @ (case r of Rejected \<Rightarrow> [] | Answer status _ \<Rightarrow> if resp_ok status then [Reload] else [])"
proof -
  have "i < length (user_buttons p)" and "fst k = i"
    using assms(1) by (auto simp: user_action_click_def split: if_splits)
  then show ?thesis
    using assms(2)
    by (auto simp: user_action_answer_def user_action_confirmed_def Let_def split: fetch_result.split)
      (simp_all add: reload_def)
qed

theorem user_action_refused_stays_disabled_witness:
  "b_disabled (user_buttons (user_action_answer (Answer 409 None)
     (fst (user_action_confirmed (0, js ''7'', js ''disable'') True sample_user_page))) ! 0)"
  using user_action_refused_stays_disabled [of 0 sample_user_page "(0, js ''7'', js ''disable'')"]
  by (simp add: user_action_click_def user_action_confirmed_def) (simp add: sample_user_page_def)

end
