(* ===== verification/ApiClients.thy ===== *)
theory ApiClients
  imports Browser
begin

text \<open>
  The API clients: \<^verbatim>\<open>setupAPIClients\<close> in \<^verbatim>\<open>web/static/admin.js\<close>. The form that creates a client, the buttons that
  disable, enable, revoke a client or rotate its secret, the panel that shows the credentials once, and
  the copy buttons. \<^verbatim>\<open>new Date\<close> on a text is the argument \<open>date_engine\<close>, as in \<open>TimeFormat\<close>.
\<close>

record client_button = button +
  cb_client :: jstr
  cb_action :: jstr

record client_page = ui +
  client_dialog :: bool
  client_form :: form
  client_defaults :: form
  client_scopes :: "(jstr \<times> bool) list"
  scope_defaults :: "(jstr \<times> bool) list"
  client_error :: "jstr option"
  client_create_button :: "button option"
  client_panel_hidden :: "bool option"
  api_client_id :: "jstr option"
  api_client_secret :: "jstr option"
  view_api_client :: "jstr option"
  client_buttons :: "client_button list"

section \<open>Creating a client\<close>

definition selectedScopes :: "client_page \<Rightarrow> jstr list" where
  "selectedScopes p = map fst (filter snd (client_scopes p))"

definition expirationValue :: "date_engine \<Rightarrow> jstr \<Rightarrow> js_error + jstr" where
  "expirationValue e raw =
     (let value = trim raw
      in if value = [] then Inr []
         else (case parse_date e value of
                 None \<Rightarrow> Inl (Thrown (js ''Expiration must be a valid date and time.''))
               | Some t \<Rightarrow> Inr (to_iso_string t)))"

definition set_client_error :: "jstr \<Rightarrow> client_page \<Rightarrow> client_page" where
  "set_client_error text p = p\<lparr>client_error := map_option (\<lambda>_. text) (client_error p)\<rparr>"

definition client_loading :: "bool \<Rightarrow> client_page \<Rightarrow> client_page" where
  "client_loading loading p =
     p\<lparr>client_create_button := map_option (setButtonLoading loading) (client_create_button p)\<rparr>"

definition hide_client_panel :: "bool \<Rightarrow> client_page \<Rightarrow> client_page" where
  "hide_client_panel hide p = p\<lparr>client_panel_hidden := map_option (\<lambda>_. hide) (client_panel_hidden p)\<rparr>"

text \<open>\<^verbatim>\<open>showCredentials\<close>; reading a property of a \<^verbatim>\<open>null\<close> client raises at the first element that exists.\<close>

definition showCredentials :: "val \<Rightarrow> client_page \<Rightarrow> client_page \<times> js_error option" where
  "showCredentials client p =
     (if nullish client \<and>
         (api_client_id p \<noteq> None \<or> api_client_secret p \<noteq> None \<or> view_api_client p \<noteq> None)
      then (p, Some TypeError)
      else
        (let value = (\<lambda>k. input_value (or_val (get_prop client k) (Some (JStr []))));
             link = get_prop client ''id''
         in (hide_client_panel False
               (p\<lparr>api_client_id := map_option (\<lambda>_. value ''client_id'') (api_client_id p),
                  api_client_secret := map_option (\<lambda>_. value ''client_secret'') (api_client_secret p),
                  view_api_client := map_option (\<lambda>href. if truthy link
                    then js ''/admin/api-clients/'' @ to_string link else href) (view_api_client p)\<rparr>),
             None)))"

definition client_create_submit ::
  "date_engine \<Rightarrow> client_page \<Rightarrow> client_page \<times> http_request option" where
  "client_create_submit e p =
     (let p1 = hide_client_panel True (set_client_error [] p); data = client_form p1
      in case expirationValue e (string_or_empty (data ''expires_at'')) of
           Inl (Thrown m) \<Rightarrow> (set_client_error m p1, None)
         | Inl TypeError \<Rightarrow> (set_client_error (js ''TypeError'') p1, None)
         | Inr expiresAt \<Rightarrow>
             (client_loading True p1,
              Some (json_call p1 ''POST'' (js ''/api/v1/api-clients'')
                (obj [(''name'', JStr (form_string data ''name'')),
                      (''scopes'', JArr (map JStr (selectedScopes p1))),
                      (''expires_at'', JStr expiresAt)]))))"

definition reset_client_form :: "client_page \<Rightarrow> client_page" where
  "reset_client_form p = p\<lparr>client_form := client_defaults p, client_scopes := scope_defaults p\<rparr>"

definition client_create_answer :: "http_request \<Rightarrow> fetch_result \<Rightarrow> client_page \<Rightarrow> client_page" where
  "client_create_answer sent r p =
     client_loading False
       (case r of
          Rejected \<Rightarrow> throw_uncaught TypeError p
        | Answer status b \<Rightarrow>
            (let body = body_or_empty b
             in if \<not> resp_ok status
                then (if client_error p = None then p
                      else (case body_message body ''API client could not be created.'' of
                              Inl err \<Rightarrow> throw_uncaught err p
                            | Inr text \<Rightarrow> set_client_error text p))
                else (case showCredentials body p of
                        (p1, Some err) \<Rightarrow> throw_uncaught err p1
                      | (p1, None) \<Rightarrow> reset_client_form (toast (js ''API client created.'') p1))))"

text \<open>The copy buttons; a button whose target is missing does nothing.\<close>

definition copy_target_answer :: "bool \<Rightarrow> client_page \<Rightarrow> client_page" where
  "copy_target_answer written p =
     (if written then toast (js ''Copied.'') p else throw_uncaught TypeError p)"

section \<open>The actions on a client\<close>

text \<open>The action comes from the template, so it is not the name of a property of \<^verbatim>\<open>Object.prototype\<close>.\<close>

definition action_labels :: "(string \<times> string \<times> string) list" where
  "action_labels =
     [(''disable'', ''Disable this API client?'',
       ''Existing integrations using this client will stop authenticating.''),
      (''enable'', ''Enable this API client?'',
       ''Integrations can authenticate again if the client has not expired.''),
      (''revoke'', ''Revoke this API client?'',
       ''Revoked clients cannot authenticate and the secret cannot be recovered.''),
      (''rotate-secret'', ''Rotate this client secret?'',
       ''The previous client secret will stop authenticating immediately.'')]"

definition client_action_prompt :: "jstr \<Rightarrow> client_page \<Rightarrow> confirm_prompt" where
  "client_action_prompt action p =
     (case map_of (map (\<lambda>(k, v). (js k, v)) action_labels) action of
        Some (title, message) \<Rightarrow> confirmAction (client_dialog p) title message
      | None \<Rightarrow> confirmAction (client_dialog p) ''Confirm action?'' ''This change takes effect immediately.'')"

definition client_action_click :: "nat \<Rightarrow> client_page \<Rightarrow> (nat \<times> jstr \<times> jstr) option" where
  "client_action_click i p =
     (if i < length (client_buttons p) \<and> \<not> b_disabled (client_buttons p ! i)
      then Some (i, cb_client (client_buttons p ! i), cb_action (client_buttons p ! i)) else None)"

definition client_disable :: "nat \<Rightarrow> bool \<Rightarrow> client_page \<Rightarrow> client_page" where
  "client_disable i b p =
     p\<lparr>client_buttons := (client_buttons p)[i := (client_buttons p ! i)\<lparr>b_disabled := b\<rparr>]\<rparr>"

definition client_action_url :: "jstr \<Rightarrow> jstr \<Rightarrow> jstr" where
  "client_action_url client action = js ''/api/v1/api-clients/'' @ client @ js ''/'' @ action"

definition client_action_confirmed ::
  "nat \<times> jstr \<times> jstr \<Rightarrow> bool \<Rightarrow> client_page \<Rightarrow> client_page \<times> http_request option" where
  "client_action_confirmed k ok p =
     (if \<not> ok then (p, None)
      else (hide_client_panel True (client_disable (fst k) True p),
            Some (plain_call p ''POST'' (client_action_url (fst (snd k)) (snd (snd k))))))"

definition client_action_answer :: "nat \<times> jstr \<times> jstr \<Rightarrow> fetch_result \<Rightarrow> client_page \<Rightarrow> client_page" where
  "client_action_answer k r p =
     (case r of
        Rejected \<Rightarrow> throw_uncaught TypeError p
      | Answer status b \<Rightarrow>
          (if \<not> resp_ok status
           then client_disable (fst k) False (toast (js ''API client update failed.'') p)
           else if snd (snd k) = js ''rotate-secret''
           then (case showCredentials (body_or_empty b) p of
                   (p1, Some err) \<Rightarrow> throw_uncaught err p1
                 | (p1, None) \<Rightarrow> client_disable (fst k) False (toast (js ''Client secret rotated.'') p1))
           else reload (toast (js ''API client updated.'') p)))"

section \<open>Contracts\<close>

inductive client_other :: "client_page \<Rightarrow> client_page \<Rightarrow> bool" where
  client_input: "client_other p (p\<lparr>client_form := data, client_scopes := scopes\<rparr>)"
| client_action: "client_other p (fst (client_action_confirmed k ok p))"
| client_acted: "client_other p (client_action_answer k r p)"
| client_copied: "client_other p (copy_target_answer written p)"
| client_timer: "client_other p (toast_expire i p)"

lemma client_frames [simp]:
  "client_create_button (toast m p) = client_create_button p"
  "client_create_button (throw_uncaught e p) = client_create_button p"
  "client_create_button (reload p) = client_create_button p"
  "client_create_button (set_client_error t p) = client_create_button p"
  "client_create_button (hide_client_panel h p) = client_create_button p"
  "client_create_button (client_disable i b p) = client_create_button p"
  "client_create_button (reset_client_form p) = client_create_button p"
  "client_create_button (toast_expire i p) = client_create_button p"
  "client_buttons (toast m p) = client_buttons p"
  "client_buttons (throw_uncaught e p) = client_buttons p"
  "client_buttons (reload p) = client_buttons p"
  "client_buttons (hide_client_panel h p) = client_buttons p"
  by (simp_all add: toast_def throw_uncaught_def reload_def set_client_error_def hide_client_panel_def
      client_disable_def reset_client_form_def toast_expire_def split: option.split)

lemma showCredentials_frame [simp]:
  "client_create_button (fst (showCredentials v p)) = client_create_button p"
  "client_buttons (fst (showCredentials v p)) = client_buttons p"
  by (simp_all add: showCredentials_def Let_def)

lemma showCredentials_page:
  "showCredentials v p = (p1, x) \<Longrightarrow>
     client_create_button p1 = client_create_button p \<and> client_buttons p1 = client_buttons p"
  using showCredentials_frame [of v p] by simp

lemma client_other_button: "client_other p q \<Longrightarrow> client_create_button q = client_create_button p"
  by (induction rule: client_other.induct)
    (auto simp: client_action_confirmed_def client_action_answer_def copy_target_answer_def
      dest: showCredentials_page split: fetch_result.split prod.split option.split)

lemma client_answer_button:
  "client_create_button (client_create_answer q r p) =
     map_option (setButtonLoading False) (client_create_button p)"
  by (auto simp: client_create_answer_def client_loading_def Let_def dest: showCredentials_page
      split: fetch_result.split prod.split option.split sum.split)

interpretation clients: single_flight "client_create_submit e" client_create_answer
    "\<lambda>p. button_busy (client_create_button p)" client_other "\<lambda>p. client_create_button p \<noteq> None" for e
  by unfold_locales
    (auto simp: client_create_submit_def client_loading_def client_answer_button client_other_button
      Let_def split: sum.splits js_error.splits)

interpretation client_actions: confirmed_action "client_action_click i" client_action_confirmed client_other
    "\<lambda>k. (''POST'', client_action_url (fst (snd k)) (snd (snd k)))" for i
  by unfold_locales (simp_all add: client_action_confirmed_def)

section \<open>Properties\<close>

definition sample_client_page :: client_page where
  "sample_client_page = \<lparr>toast_region = Some [], toast_next = 0, csrf_meta = Some (js ''t''),
     window_actions = [], uncaught = [], client_dialog = True,
     client_form = (\<lambda>k. if k = ''expires_at'' then Some (js ''soon'') else None),
     client_defaults = (\<lambda>_. None), client_scopes = [(js ''secret:create'', True), (js ''user:read'', False)],
     scope_defaults = [(js ''secret:create'', True), (js ''user:read'', False)],
     client_error = Some [],
     client_create_button = Some \<lparr>b_text = js ''Create'', b_disabled = False, b_original = None,
       b_loading = None\<rparr>,
     client_panel_hidden = Some True, api_client_id = Some [], api_client_secret = Some [],
     view_api_client = None,
     client_buttons = [\<lparr>b_text = js ''Rotate secret'', b_disabled = False, b_original = None,
       b_loading = None, cb_client = js ''7'', cb_action = js ''rotate-secret''\<rparr>]\<rparr>"

definition never_engine :: date_engine where
  "never_engine = \<lparr>parse_date = (\<lambda>_. None), intl_format = (\<lambda>_ _ _. None)\<rparr>"

lemma client_error_frames [simp]:
  "client_error (hide_client_panel h p) = client_error p"
  "client_form (hide_client_panel h p) = client_form p"
  "client_form (set_client_error m p) = client_form p"
  "client_scopes (hide_client_panel h p) = client_scopes p"
  "client_scopes (set_client_error m p) = client_scopes p"
  "client_error (set_client_error m p) = map_option (\<lambda>_. m) (client_error p)"
  by (simp_all add: hide_client_panel_def set_client_error_def)

text \<open>The form of a client sends its expiration as an ISO 8601 text in UTC, or the empty text when the field
  is blank, with exactly the scopes that are checked; a date the engine cannot read sends nothing, shows
  the reason and leaves the button enabled.\<close>

theorem client_create_request:
  assumes "client_create_submit e p = (p', r)" and "\<not> button_busy (client_create_button p)"
  shows "(let raw = trim (string_or_empty (client_form p ''expires_at''));
          sent = (\<lambda>text. \<exists>q body. r = Some q \<and> rq_body q = Some body \<and>
            get_prop (Some body) ''expires_at'' = Some (JStr text) \<and>
            get_prop (Some body) ''scopes'' =
              Some (JArr [JStr s. (s, checked) \<leftarrow> client_scopes p, checked]))
    in if raw = [] then sent []
       else (case parse_date e raw of
           Some t \<Rightarrow> sent (to_iso_string t)
         | None \<Rightarrow> r = None \<and> \<not> button_busy (client_create_button p') \<and>
             client_error p' = map_option
               (\<lambda>_. js ''Expiration must be a valid date and time.'') (client_error p)))"
proof -
  have scopes: "map JStr (map fst (filter snd xs)) = [JStr s. (s, checked) \<leftarrow> xs, checked]" for xs
    by (induction xs) auto
  show ?thesis
    using assms scopes [of "client_scopes p"]
    by (auto simp: client_create_submit_def expirationValue_def Let_def selectedScopes_def
        option.map_comp comp_def split: option.splits if_splits)
qed

theorem client_create_request_witness:
  "snd (client_create_submit never_engine sample_client_page) = None"
proof -
  have "trim (js ''soon'') = js ''soon''" by code_simp
  then show ?thesis
    using client_create_request [where p = sample_client_page and e = never_engine,
        OF prod.collapse [symmetric]]
    by (simp add: never_engine_def sample_client_page_def string_or_empty_def Let_def)
qed

lemma client_disable_nth:
  "i < length (client_buttons p) \<Longrightarrow> b_disabled (client_buttons (client_disable i b p) ! i) = b"
  by (simp add: client_disable_def)

lemma credentials_frames [simp]:
  "api_client_secret (toast m p) = api_client_secret p"
  "client_panel_hidden (toast m p) = client_panel_hidden p"
  "api_client_secret (client_disable i b p) = api_client_secret p"
  "client_panel_hidden (client_disable i b p) = client_panel_hidden p"
  "api_client_secret (hide_client_panel h p) = api_client_secret p"
  "client_panel_hidden (hide_client_panel h p) = map_option (\<lambda>_. h) (client_panel_hidden p)"
  by (simp_all add: toast_def client_disable_def hide_client_panel_def split: option.split)

lemma client_confirmed_page:
  "client_action_confirmed k True p = (p1, Some q) \<Longrightarrow>
     p1 = hide_client_panel True (client_disable (fst k) True p)"
  by (simp add: client_action_confirmed_def)

lemma client_disable_length [simp]:
  "length (client_buttons (client_disable i b p)) = length (client_buttons p)"
  by (simp add: client_disable_def)

text \<open>Rotating a secret: a successful answer shows the new secret in the panel and enables the button again;
  a refusal enables it too, keeps the credentials panel hidden and changes no credential.\<close>

theorem client_rotate_outcome:
  assumes "client_action_click i p = Some (i, client, js ''rotate-secret'')"
    and "client_action_confirmed (i, client, js ''rotate-secret'') True p = (p1, Some q)"
    and "api_client_secret p \<noteq> None" and "client_panel_hidden p \<noteq> None"
    and "get_prop (Some body) ''client_secret'' = Some (JStr secret)" and "secret \<noteq> []"
  shows "(let s = client_action_answer (i, client, js ''rotate-secret'') (Answer status (Some body)) p1
    in \<not> b_disabled (client_buttons s ! i) \<and>
       (if resp_ok status
        then api_client_secret s = Some secret \<and> client_panel_hidden s = Some False
        else api_client_secret s = api_client_secret p \<and> client_panel_hidden s = Some True))"
proof -
  have i: "i < length (client_buttons p)" using assms(1) by (auto simp: client_action_click_def split: if_splits)
  have p1: "p1 = hide_client_panel True (client_disable i True p)"
    using client_confirmed_page [OF assms(2)] by simp
  have body: "\<not> nullish (Some body)" by (rule get_prop_not_nullish [OF assms(5)])
  have len: "i < length (client_buttons p1)" using i by (simp add: p1)
  have "snd (showCredentials (Some body) p1) = None"
    and "api_client_secret (fst (showCredentials (Some body) p1)) = Some secret"
    and "client_panel_hidden (fst (showCredentials (Some body) p1)) = Some False"
    using body assms(3-6)
    by (auto simp: p1 showCredentials_def Let_def or_val_def input_value_def)
  then show ?thesis
    using len assms(3,4)
    by (cases "showCredentials (Some body) p1")
      (auto simp: client_action_answer_def Let_def client_disable_nth p1 dest!: showCredentials_page)
qed

theorem client_rotate_outcome_witness:
  "api_client_secret (client_action_answer (0, js ''7'', js ''rotate-secret'')
     (Answer 200 (Some (obj [(''client_secret'', JStr (js ''s3'')) ])))
     (fst (client_action_confirmed (0, js ''7'', js ''rotate-secret'') True sample_client_page)))
   = Some (js ''s3'')"
proof -
  have a: "client_action_click 0 sample_client_page = Some (0, js ''7'', js ''rotate-secret'')"
    and b: "api_client_secret sample_client_page \<noteq> None" "client_panel_hidden sample_client_page \<noteq> None"
    by (simp_all add: client_action_click_def sample_client_page_def)
  have c: "client_action_confirmed (0, js ''7'', js ''rotate-secret'') True sample_client_page =
     (fst (client_action_confirmed (0, js ''7'', js ''rotate-secret'') True sample_client_page),
      Some (plain_call sample_client_page ''POST''
        (client_action_url (js ''7'') (js ''rotate-secret''))))"
    by (simp add: client_action_confirmed_def)
  show ?thesis
    using client_rotate_outcome [OF a c b, of "obj [(''client_secret'', JStr (js ''s3''))]" "js ''s3''" 200]
    by (simp add: Let_def resp_ok_def)
qed

end
