(* ===== verification/EmailSettings.thy ===== *)
theory EmailSettings
  imports Browser
begin

text \<open>
  The e-mail settings: \<^verbatim>\<open>setupEmailSettings\<close> in \<^verbatim>\<open>web/static/admin.js\<close>. The settings form, the preview of the
  templates, the buttons that test, enable or disable the delivery, and the form that sends a test
  message. The test and the enable button save the form first and send their own request only when the
  server has taken it, so their handlers are chains of two requests.
\<close>

section \<open>The page\<close>

text \<open>
  \<open>settings_names\<close> are the names of the controls of the settings form, \<open>invalid_names\<close> those that carry
  \<^verbatim>\<open>aria-invalid\<close>. The names in an answer of the server are identifiers, so the selector that
  \<^verbatim>\<open>smtpErrorMessage\<close> builds from one finds the control of that name.
\<close>

record email_button = button +
  eb_action :: jstr

record email_page = ui +
  settings_form :: "form option"
  settings_names :: "jstr list"
  invalid_names :: "jstr list"
  settings_error :: "jstr option"
  email_status :: "jstr option"
  settings_button :: "button option"
  preview_button :: "button option"
  preview_text :: "jstr option"
  preview_html :: "jstr option"
  preview_hidden :: "bool option"
  action_buttons :: "email_button list"
  test_form :: form
  test_status :: "jstr option"
  test_button :: "button option"

definition settings_data :: "email_page \<Rightarrow> form" where
  "settings_data p = (case settings_form p of None \<Rightarrow> (\<lambda>_. None) | Some data \<Rightarrow> data)"

definition settingsPayload :: "form \<Rightarrow> json" where
  "settingsPayload data = obj
     [(''enabled'', JBool (form_checked data ''enabled'')),
      (''smtp_host'', JStr (form_string data ''smtp_host'')),
      (''smtp_port'', form_number_or data ''smtp_port'' 0),
      (''encryption_mode'', JStr (form_string_or data ''encryption_mode'' ''starttls'')),
      (''smtp_username'', JStr (form_string data ''smtp_username'')),
      (''smtp_password'', JStr (form_string data ''smtp_password'')),
      (''clear_smtp_password'', JBool (form_checked data ''clear_smtp_password'')),
      (''from_name'', JStr (form_string data ''from_name'')),
      (''from_email'', JStr (form_string data ''from_email'')),
      (''reply_to_email'', JStr (form_string data ''reply_to_email'')),
      (''connection_timeout_seconds'', form_number_or data ''connection_timeout_seconds'' 5),
      (''send_timeout_seconds'', form_number_or data ''send_timeout_seconds'' 10),
      (''default_subject'', JStr (form_string data ''default_subject'')),
      (''default_message'', JStr (form_string data ''default_message'')),
      (''footer_text'', JStr (form_string data ''footer_text''))]"

definition set_settings_error :: "jstr \<Rightarrow> email_page \<Rightarrow> email_page" where
  "set_settings_error text p = p\<lparr>settings_error := map_option (\<lambda>_. text) (settings_error p)\<rparr>"

definition set_email_status :: "jstr \<Rightarrow> email_page \<Rightarrow> email_page" where
  "set_email_status text p = p\<lparr>email_status := map_option (\<lambda>_. text) (email_status p)\<rparr>"

definition set_test_status :: "jstr \<Rightarrow> email_page \<Rightarrow> email_page" where
  "set_test_status text p = p\<lparr>test_status := map_option (\<lambda>_. text) (test_status p)\<rparr>"

definition clearSMTPFieldErrors :: "email_page \<Rightarrow> email_page" where
  "clearSMTPFieldErrors p = (if settings_form p = None then p else p\<lparr>invalid_names := []\<rparr>)"

section \<open>Errors of the server\<close>

text \<open>\<^verbatim>\<open>Object.entries\<close> of the member \<^verbatim>\<open>fields\<close>, when it is an object or an array.\<close>

definition field_entries :: "val \<Rightarrow> (jstr \<times> json) list" where
  "field_entries v =
     (case v of
        Some (JObj kvs) \<Rightarrow> kvs
      | Some (JArr xs) \<Rightarrow> zip (map nat_digits [0..<length xs]) xs
      | _ \<Rightarrow> [])"

definition mark_invalid :: "jstr list \<Rightarrow> email_page \<Rightarrow> email_page" where
  "mark_invalid names p =
     (if settings_form p = None then p
      else p\<lparr>invalid_names :=
        fold List.insert (filter (\<lambda>n. n \<in> set (settings_names p)) names) (invalid_names p)\<rparr>)"

definition smtpErrorMessage :: "val \<Rightarrow> string \<Rightarrow> email_page \<Rightarrow> email_page \<times> jstr" where
  "smtpErrorMessage body fallback p =
     (let entries = field_entries (get_prop body ''fields'');
          messages = map (\<lambda>(n, m). json_string m) entries
      in (mark_invalid (map fst entries) p,
          join (js '' '') (message_or (get_prop body ''message'') fallback #
            filter (\<lambda>m. m \<noteq> []) messages)))"

section \<open>Saving the settings\<close>

text \<open>\<^verbatim>\<open>saveCurrentSettings\<close> up to its request; without the form it returns at once (\<open>None\<close>).\<close>

definition save_start :: "email_page \<Rightarrow> (email_page \<times> http_request) option" where
  "save_start p =
     (case settings_form p of
        None \<Rightarrow> None
      | Some data \<Rightarrow>
          (let p1 = clearSMTPFieldErrors (set_settings_error [] p)
           in Some (p1, json_call p1 ''PUT'' (js ''/api/v1/settings/email'') (settingsPayload data))))"

text \<open>From the answer on: an error that leaves the function, or the member \<^verbatim>\<open>ok\<close> of its result.\<close>

definition save_answer :: "bool \<Rightarrow> fetch_result \<Rightarrow> email_page \<Rightarrow> email_page \<times> (js_error + bool)" where
  "save_answer announce r p =
     (case r of
        Rejected \<Rightarrow> (p, Inl TypeError)
      | Answer status b \<Rightarrow>
          (let body = body_or_empty b
           in if \<not> resp_ok status
              then (if settings_error p = None then (p, Inr False)
                    else (let (p1, text) = smtpErrorMessage body ''Email settings could not be saved.'' p
                          in (set_settings_error text p1, Inr False)))
              else
                (let p1 = p\<lparr>settings_form := map_option
                       (\<lambda>data. data(''smtp_password'' := Some [], ''clear_smtp_password'' := None))
                       (settings_form p)\<rparr>
                 in if \<not> announce then (p1, Inr True)
                    else if email_status p1 \<noteq> None \<and> nullish body then (p1, Inl TypeError)
                    else (toast (js ''Email settings saved.'')
                            (set_email_status
                              (if truthy (get_prop body ''password_configured'')
                               then js ''Settings saved. Password configured.''
                               else js ''Settings saved. No password is stored.'') p1), Inr True))))"

definition settings_loading :: "bool \<Rightarrow> email_page \<Rightarrow> email_page" where
  "settings_loading l p = p\<lparr>settings_button := map_option (setButtonLoading l) (settings_button p)\<rparr>"

definition preview_loading :: "bool \<Rightarrow> email_page \<Rightarrow> email_page" where
  "preview_loading l p = p\<lparr>preview_button := map_option (setButtonLoading l) (preview_button p)\<rparr>"

definition action_loading :: "nat \<Rightarrow> bool \<Rightarrow> email_page \<Rightarrow> email_page" where
  "action_loading i l p =
     p\<lparr>action_buttons := (action_buttons p)[i := setButtonLoading l (action_buttons p ! i)]\<rparr>"

definition test_loading :: "bool \<Rightarrow> email_page \<Rightarrow> email_page" where
  "test_loading l p = p\<lparr>test_button := map_option (setButtonLoading l) (test_button p)\<rparr>"

text \<open>An error that leaves a handler.\<close>

definition raise_if :: "js_error + bool \<Rightarrow> email_page \<Rightarrow> email_page" where
  "raise_if outcome p = (case outcome of Inl err \<Rightarrow> throw_uncaught err p | Inr _ \<Rightarrow> p)"

text \<open>The settings form; its submit handler exists when the form does.\<close>

definition settings_submit :: "email_page \<Rightarrow> email_page \<times> http_request option" where
  "settings_submit p =
     (let p1 = settings_loading True (set_email_status [] (set_settings_error [] p))
      in case save_start p1 of None \<Rightarrow> (p, None) | Some (p2, q) \<Rightarrow> (p2, Some q))"

definition settings_answer :: "http_request \<Rightarrow> fetch_result \<Rightarrow> email_page \<Rightarrow> email_page" where
  "settings_answer sent r p =
     (let (p1, outcome) = save_answer True r p in settings_loading False (raise_if outcome p1))"

section \<open>The preview\<close>

definition preview_click :: "email_page \<Rightarrow> email_page \<times> http_request option" where
  "preview_click p =
     (case settings_form p of
        None \<Rightarrow> (p, None)
      | Some data \<Rightarrow>
          (let p1 = preview_loading True p; payload = Some (settingsPayload data);
               text = (\<lambda>k. case get_prop payload k of None \<Rightarrow> JNull | Some v \<Rightarrow> v)
           in (p1, Some (json_call p1 ''POST'' (js ''/api/v1/settings/email/template-preview'')
                 (obj [(''subject'', text ''default_subject''), (''message'', text ''default_message''),
                       (''footer_text'', text ''footer_text'')])))))"

definition preview_shown :: "val \<Rightarrow> email_page \<Rightarrow> email_page" where
  "preview_shown body p = p\<lparr>
     preview_text := map_option (\<lambda>_. js ''Subject: '' @ to_string (get_prop body ''subject'') @
       [0x0A, 0x0A] @ to_string (get_prop body ''text'')) (preview_text p),
     preview_html := map_option (\<lambda>_. to_string (or_val (get_prop body ''html'') (Some (JStr []))))
       (preview_html p),
     preview_hidden := map_option (\<lambda>_. False) (preview_hidden p)\<rparr>"

definition preview_answer :: "http_request \<Rightarrow> fetch_result \<Rightarrow> email_page \<Rightarrow> email_page" where
  "preview_answer sent r p =
     preview_loading False
       (case r of
          Rejected \<Rightarrow> throw_uncaught TypeError p
        | Answer status b \<Rightarrow>
            (let body = body_or_empty b
             in if \<not> resp_ok status
                then (if email_status p = None then p
                      else (case body_message body ''Template preview could not be generated.'' of
                              Inl err \<Rightarrow> throw_uncaught err p
                            | Inr text \<Rightarrow> set_email_status text p))
                else if nullish body \<and> (preview_text p \<noteq> None \<or> preview_html p \<noteq> None)
                then throw_uncaught TypeError p
                else preview_shown body p))"

section \<open>Test, enable, disable\<close>

text \<open>
  A pending call of an action: the request that saves the form, or that of the action itself. The
  closure holds the action of the button.
\<close>

datatype email_call = SavingFirst http_request | Acting http_request

definition action_request :: "jstr \<Rightarrow> email_page \<Rightarrow> http_request" where
  "action_request action p = json_call p ''POST'' (js ''/api/v1/settings/email/'' @ action) (obj [])"

text \<open>The click; without the form the lookup of the status line raises before anything else.\<close>

definition email_action_click :: "nat \<Rightarrow> email_page \<Rightarrow> email_page \<times> (jstr \<times> email_call) option" where
  "email_action_click i p =
     (let action = eb_action (action_buttons p ! i)
      in if settings_form p = None then (throw_uncaught TypeError p, None)
         else
           (let p1 = action_loading i True p
            in if action = js ''disable'' then (p1, Some (action, Acting (action_request action p1)))
               else (case save_start p1 of
                       None \<Rightarrow> (p1, Some (action, Acting (action_request action p1)))
                     | Some (p2, q) \<Rightarrow> (p2, Some (action, SavingFirst q)))))"

text \<open>The status line after the action's answer; \<open>None\<close> when reading the body raises.\<close>

definition action_status :: "jstr \<Rightarrow> nat \<Rightarrow> val \<Rightarrow> email_page \<Rightarrow> email_page option" where
  "action_status action status body p =
     (let failed = (\<lambda>text. let (p1, message) = smtpErrorMessage body text p in Some (set_email_status message p1))
      in if email_status p = None then Some p
         else if action = js ''test-connection''
         then (if nullish body then None
               else if truthy (get_prop body ''ok'')
               then Some (set_email_status (js ''Connection test succeeded in '' @
                      to_string (get_prop body ''duration_ms'') @ js '' ms.'') p)
               else failed ''Connection test failed.'')
         else if action = js ''enable''
         then (if resp_ok status then Some (set_email_status (js ''SMTP delivery enabled.'') p)
               else failed ''SMTP delivery could not be enabled.'')
         else if action = js ''disable''
         then (if resp_ok status then Some (set_email_status (js ''SMTP delivery disabled.'') p)
               else failed ''SMTP delivery could not be disabled.'')
         else Some p)"

definition action_settle :: "jstr \<Rightarrow> fetch_result \<Rightarrow> email_page \<Rightarrow> email_page" where
  "action_settle action r p =
     (case r of
        Rejected \<Rightarrow> throw_uncaught TypeError p
      | Answer status b \<Rightarrow>
          (let body = body_or_empty b
           in case action_status action status body p of
                None \<Rightarrow> throw_uncaught TypeError p
              | Some p1 \<Rightarrow>
                  (if resp_ok status \<and> nullish body then throw_uncaught TypeError p1
                   else toast (if resp_ok status \<and> get_prop body ''ok'' \<noteq> Some (JBool False)
                     then js ''Email settings action completed.''
                     else js ''Email settings action finished with warnings.'') p1)))"

definition email_action_continue ::
  "nat \<Rightarrow> jstr \<times> email_call \<Rightarrow> fetch_result \<Rightarrow> email_page \<Rightarrow> email_page \<times> (jstr \<times> email_call) option" where
  "email_action_continue i call r p =
     (case snd call of
        Acting _ \<Rightarrow> (action_loading i False (action_settle (fst call) r p), None)
      | SavingFirst _ \<Rightarrow>
          (case save_answer False r p of
             (p1, Inl err) \<Rightarrow> (action_loading i False (throw_uncaught err p1), None)
           | (p1, Inr False) \<Rightarrow>
               (action_loading i False
                  (set_email_status (js ''Fix the highlighted SMTP settings before testing.'') p1), None)
           | (p1, Inr True) \<Rightarrow> (p1, Some (fst call, Acting (action_request (fst call) p1)))))"

section \<open>The test message\<close>

definition test_request :: "jstr \<Rightarrow> email_page \<Rightarrow> http_request" where
  "test_request recipient p =
     json_call p ''POST'' (js ''/api/v1/settings/email/send-test'') (obj [(''to'', JStr recipient)])"

definition test_submit :: "email_page \<Rightarrow> email_page \<times> (jstr \<times> email_call) option" where
  "test_submit p =
     (let recipient = form_string (test_form p) ''to''; p1 = test_loading True p
      in case save_start p1 of
           None \<Rightarrow> (p1, Some (recipient, Acting (test_request recipient p1)))
         | Some (p2, q) \<Rightarrow> (p2, Some (recipient, SavingFirst q)))"

definition test_settle :: "fetch_result \<Rightarrow> email_page \<Rightarrow> email_page" where
  "test_settle r p =
     (case r of
        Rejected \<Rightarrow> throw_uncaught TypeError p
      | Answer status b \<Rightarrow>
          (let body = body_or_empty b
           in if test_status p = None then p
              else if nullish body then throw_uncaught TypeError p
              else if truthy (get_prop body ''ok'')
              then set_test_status (js ''Test email sent in '' @ to_string (get_prop body ''duration_ms'') @
                     js '' ms.'') p
              else (let (p1, message) = smtpErrorMessage body ''Test email failed.'' p
                    in set_test_status message p1)))"

definition test_continue ::
  "jstr \<times> email_call \<Rightarrow> fetch_result \<Rightarrow> email_page \<Rightarrow> email_page \<times> (jstr \<times> email_call) option" where
  "test_continue call r p =
     (case snd call of
        Acting _ \<Rightarrow> (test_loading False (test_settle r p), None)
      | SavingFirst _ \<Rightarrow>
          (case save_answer False r p of
             (p1, Inl err) \<Rightarrow> (test_loading False (throw_uncaught err p1), None)
           | (p1, Inr False) \<Rightarrow>
               (test_loading False (set_test_status
                  (js ''Fix the highlighted SMTP settings before sending a test email.'') p1), None)
           | (p1, Inr True) \<Rightarrow> (p1, Some (fst call, Acting (test_request (fst call) p1)))))"

section \<open>The events of the page\<close>

datatype email_source = FromSettings | FromPreview | FromAction nat | FromTest | FromUser

inductive email_event :: "email_source \<Rightarrow> email_page \<Rightarrow> email_page \<Rightarrow> bool" where
  ev_settings: "email_event FromSettings p (fst (settings_submit p))"
| ev_settings_answer: "email_event FromSettings p (settings_answer q r p)"
| ev_preview: "email_event FromPreview p (fst (preview_click p))"
| ev_preview_answer: "email_event FromPreview p (preview_answer q r p)"
| ev_action: "email_event (FromAction i) p (fst (email_action_click i p))"
| ev_action_answer: "email_event (FromAction i) p (fst (email_action_continue i call r p))"
| ev_test: "email_event FromTest p (fst (test_submit p))"
| ev_test_answer: "email_event FromTest p (fst (test_continue call r p))"
| ev_input: "settings_form p = Some old \<Longrightarrow>
    email_event FromUser p (p\<lparr>settings_form := Some data, test_form := data'\<rparr>)"
| ev_timer: "email_event FromUser p (toast_expire i p)"

definition email_env :: "email_source \<Rightarrow> email_page \<Rightarrow> email_page \<Rightarrow> bool" where
  "email_env own p q \<longleftrightarrow> (\<exists>source. source \<noteq> own \<and> email_event source p q)"

section \<open>Contracts\<close>

text \<open>What an event of one handler leaves alone: the buttons of the others, and the form's existence.\<close>

definition email_buttons where
  "email_buttons p = (settings_button p, preview_button p, action_buttons p, test_button p,
     settings_form p = None)"

lemma email_buttons_frames [simp]:
  "email_buttons (toast m p) = email_buttons p"
  "email_buttons (throw_uncaught e p) = email_buttons p"
  "email_buttons (toast_expire i p) = email_buttons p"
  "email_buttons (set_settings_error t p) = email_buttons p"
  "email_buttons (set_email_status t p) = email_buttons p"
  "email_buttons (set_test_status t p) = email_buttons p"
  "email_buttons (mark_invalid ns p) = email_buttons p"
  "email_buttons (preview_shown v p) = email_buttons p"
  "email_buttons (raise_if x p) = email_buttons p"
  by (simp_all add: email_buttons_def toast_def throw_uncaught_def toast_expire_def set_settings_error_def
      set_email_status_def set_test_status_def mark_invalid_def preview_shown_def raise_if_def
      split: option.split sum.split)

lemma email_buttons_error: "smtpErrorMessage b f p = (p1, t) \<Longrightarrow> email_buttons p1 = email_buttons p"
  by (auto simp: smtpErrorMessage_def Let_def)

lemma email_buttons_save: "save_answer a r p = (p1, x) \<Longrightarrow> email_buttons p1 = email_buttons p"
  by (auto simp: save_answer_def Let_def email_buttons_error split: fetch_result.splits if_splits prod.splits)
    (auto simp: email_buttons_def)

lemma email_buttons_start: "save_start p = Some (p1, q) \<Longrightarrow> email_buttons p1 = email_buttons p"
  by (auto simp: save_start_def clearSMTPFieldErrors_def Let_def split: option.splits)
    (auto simp: email_buttons_def set_settings_error_def)

lemma save_start_None: "save_start p = None \<longleftrightarrow> settings_form p = None"
  by (simp add: save_start_def Let_def split: option.split)

lemma email_buttons_message [simp]: "email_buttons (fst (smtpErrorMessage b f p)) = email_buttons p"
  by (simp add: smtpErrorMessage_def Let_def)

lemma email_buttons_status: "action_status a s b p = Some p1 \<Longrightarrow> email_buttons p1 = email_buttons p"
  by (auto simp: action_status_def Let_def case_prod_beta split: if_splits)

lemma email_buttons_settle [simp]: "email_buttons (action_settle a r p) = email_buttons p"
proof (cases r)
  case (Answer status b)
  then show ?thesis
    using email_buttons_status [of a status "body_or_empty b" p]
    by (cases "action_status a status (body_or_empty b) p") (simp_all add: action_settle_def Let_def)
qed (simp add: action_settle_def)

lemma email_buttons_test [simp]: "email_buttons (test_settle r p) = email_buttons p"
  by (simp add: test_settle_def Let_def case_prod_beta split: fetch_result.split)

lemma email_buttons_cong:
  assumes "email_buttons p1 = email_buttons p"
  shows "email_buttons (settings_loading l p1) = email_buttons (settings_loading l p)"
    and "email_buttons (preview_loading l p1) = email_buttons (preview_loading l p)"
    and "email_buttons (action_loading i l p1) = email_buttons (action_loading i l p)"
    and "email_buttons (test_loading l p1) = email_buttons (test_loading l p)"
  using assms
  by (auto simp: email_buttons_def settings_loading_def preview_loading_def action_loading_def test_loading_def)

text \<open>Each operation touches its own button only, and says whether it is loading afterwards.\<close>

lemma settings_submit_buttons:
  "settings_submit p = (p1, n) \<Longrightarrow>
     (n = None \<longrightarrow> settings_form p = None \<and> p1 = p) \<and>
     (n \<noteq> None \<longrightarrow> email_buttons p1 = email_buttons (settings_loading True p))"
  by (auto simp: settings_submit_def Let_def save_start_None dest!: email_buttons_start
      split: option.splits)
    (auto simp: settings_loading_def set_email_status_def set_settings_error_def email_buttons_def)

lemma settings_answer_buttons:
  "email_buttons (settings_answer q r p) = email_buttons (settings_loading False p)"
  by (auto simp: settings_answer_def case_prod_beta intro!: email_buttons_cong
      email_buttons_save [OF prod.collapse [symmetric]])

lemma preview_click_buttons:
  "preview_click p = (p1, n) \<Longrightarrow>
     (n = None \<longrightarrow> settings_form p = None \<and> p1 = p) \<and>
     (n \<noteq> None \<longrightarrow> email_buttons p1 = email_buttons (preview_loading True p))"
  by (auto simp: preview_click_def Let_def split: option.splits)

lemma preview_answer_buttons:
  "email_buttons (preview_answer q r p) = email_buttons (preview_loading False p)"
  by (auto simp: preview_answer_def Let_def intro!: email_buttons_cong
      split: fetch_result.split sum.split)

lemma action_click_buttons:
  "email_action_click i p = (p1, n) \<Longrightarrow>
     (n = None \<longrightarrow> settings_form p = None \<and> email_buttons p1 = email_buttons p) \<and>
     (n \<noteq> None \<longrightarrow> email_buttons p1 = email_buttons (action_loading i True p))"
  by (auto simp: email_action_click_def Let_def dest!: email_buttons_start split: if_splits option.splits)

lemma action_continue_buttons:
  "email_action_continue i call r p = (p1, n) \<Longrightarrow>
     email_buttons p1 = email_buttons (if n = None then action_loading i False p else p)"
  by (auto simp: email_action_continue_def dest!: email_buttons_save intro!: email_buttons_cong
      split: email_call.splits prod.splits sum.splits bool.splits)

lemma test_submit_buttons:
  "test_submit p = (p1, n) \<Longrightarrow> n \<noteq> None \<and> email_buttons p1 = email_buttons (test_loading True p)"
  by (auto simp: test_submit_def Let_def dest!: email_buttons_start split: option.splits)

lemma test_continue_buttons:
  "test_continue call r p = (p1, n) \<Longrightarrow>
     email_buttons p1 = email_buttons (if n = None then test_loading False p else p)"
  by (auto simp: test_continue_def dest!: email_buttons_save intro!: email_buttons_cong
      split: email_call.splits prod.splits sum.splits bool.splits)

definition email_frame :: "email_source \<Rightarrow> email_page \<Rightarrow> email_page \<Rightarrow> bool" where
  "email_frame source p q \<longleftrightarrow>
     (source \<noteq> FromSettings \<longrightarrow> settings_button q = settings_button p) \<and>
     (source \<noteq> FromPreview \<longrightarrow> preview_button q = preview_button p) \<and>
     (source \<noteq> FromTest \<longrightarrow> test_button q = test_button p) \<and>
     length (action_buttons q) = length (action_buttons p) \<and>
     (\<forall>i. source \<noteq> FromAction i \<longrightarrow> action_buttons q ! i = action_buttons p ! i) \<and>
     (settings_form q = None \<longleftrightarrow> settings_form p = None)"

lemma email_frame_same: "email_buttons q = email_buttons p \<Longrightarrow> email_frame source p q"
  by (auto simp: email_frame_def email_buttons_def)

lemma email_frame_loading:
  "email_buttons q = email_buttons (settings_loading l p) \<Longrightarrow> email_frame FromSettings p q"
  "email_buttons q = email_buttons (preview_loading l p) \<Longrightarrow> email_frame FromPreview p q"
  "email_buttons q = email_buttons (action_loading i l p) \<Longrightarrow> email_frame (FromAction i) p q"
  "email_buttons q = email_buttons (test_loading l p) \<Longrightarrow> email_frame FromTest p q"
  by (auto simp: email_frame_def email_buttons_def settings_loading_def preview_loading_def
      action_loading_def test_loading_def nth_list_update_neq)

lemma email_event_frame: "email_event source p q \<Longrightarrow> email_frame source p q"
proof (induction rule: email_event.induct)
  case (ev_settings p)
  show ?case
    using settings_submit_buttons [OF prod.collapse [symmetric], of p]
    by (cases "snd (settings_submit p)") (auto intro: email_frame_same email_frame_loading)
next
  case (ev_preview p)
  show ?case
    using preview_click_buttons [OF prod.collapse [symmetric], of p]
    by (cases "snd (preview_click p)") (auto intro: email_frame_same email_frame_loading)
next
  case (ev_action i p)
  show ?case
    using action_click_buttons [where i = i and p = p, OF prod.collapse [symmetric]]
    by (cases "snd (email_action_click i p)") (auto intro: email_frame_same email_frame_loading)
next
  case (ev_action_answer i p call r)
  show ?case
    using action_continue_buttons [where i = i and call = call and r = r and p = p, OF prod.collapse [symmetric]]
    by (cases "snd (email_action_continue i call r p)") (auto intro: email_frame_same email_frame_loading)
next
  case (ev_test p)
  show ?case
    using test_submit_buttons [OF prod.collapse [symmetric], of p] by (auto intro: email_frame_loading)
next
  case (ev_test_answer p call r)
  show ?case
    using test_continue_buttons [where call = call and r = r and p = p, OF prod.collapse [symmetric]]
    by (cases "snd (test_continue call r p)") (auto intro: email_frame_same email_frame_loading)
next
  case (ev_settings_answer p q r)
  show ?case by (rule email_frame_loading) (rule settings_answer_buttons)
next
  case (ev_preview_answer p q r)
  show ?case by (rule email_frame_loading) (rule preview_answer_buttons)
next
  case (ev_input p old data data')
  then show ?case by (auto intro!: email_frame_same simp: email_buttons_def)
next
  case (ev_timer p i)
  show ?case by (rule email_frame_same) simp
qed

lemma email_env_frame:
  "email_env own p q \<Longrightarrow> \<exists>source. source \<noteq> own \<and> email_frame source p q"
  by (auto simp: email_env_def dest: email_event_frame)

lemma settings_button_ops:
  "settings_submit p = (p1, n) \<Longrightarrow> settings_button p1 =
     (if n = None then settings_button p else map_option (setButtonLoading True) (settings_button p))"
  "settings_button (settings_answer q r p) = map_option (setButtonLoading False) (settings_button p)"
  using settings_submit_buttons [of p p1 n] settings_answer_buttons [of q r p]
  by (auto simp: email_buttons_def settings_loading_def)

lemma preview_button_ops:
  "preview_click p = (p1, n) \<Longrightarrow> preview_button p1 =
     (if n = None then preview_button p else map_option (setButtonLoading True) (preview_button p))"
  "preview_button (preview_answer q r p) = map_option (setButtonLoading False) (preview_button p)"
  using preview_click_buttons [of p p1 n] preview_answer_buttons [of q r p]
  by (auto simp: email_buttons_def preview_loading_def)

lemma test_button_ops:
  "test_submit p = (p1, n) \<Longrightarrow> n \<noteq> None \<and> test_button p1 = map_option (setButtonLoading True) (test_button p)"
  "test_continue call r p = (p1, n) \<Longrightarrow> test_button p1 =
     (if n = None then map_option (setButtonLoading False) (test_button p) else test_button p)"
  using test_submit_buttons [of p p1 n] test_continue_buttons [of call r p p1 n]
  by (auto simp: email_buttons_def test_loading_def)

lemma action_button_ops:
  "email_action_click i p = (p1, n) \<Longrightarrow> action_buttons p1 = (if n = None then action_buttons p
     else (action_buttons p)[i := setButtonLoading True (action_buttons p ! i)])"
  "email_action_continue i call r p = (p1, n) \<Longrightarrow> action_buttons p1 = (if n = None
     then (action_buttons p)[i := setButtonLoading False (action_buttons p ! i)] else action_buttons p)"
  using action_click_buttons [of i p p1 n] action_continue_buttons [of i call r p p1 n]
  by (auto simp: email_buttons_def action_loading_def)

interpretation save_settings: single_flight settings_submit settings_answer
    "\<lambda>p. button_busy (settings_button p)" "email_env FromSettings" "\<lambda>p. settings_button p \<noteq> None"
  by unfold_locales
    (auto simp: settings_button_ops(2) email_frame_def dest!: email_env_frame settings_button_ops(1)
      split: if_splits)

interpretation email_preview: single_flight preview_click preview_answer
    "\<lambda>p. button_busy (preview_button p)" "email_env FromPreview" "\<lambda>p. preview_button p \<noteq> None"
  by unfold_locales
    (auto simp: preview_button_ops(2) email_frame_def dest!: email_env_frame preview_button_ops(1)
      split: if_splits)

interpretation email_action: chained_flight "email_action_click i" "email_action_continue i"
    "\<lambda>p. b_disabled (action_buttons p ! i)" "email_env (FromAction i)"
    "\<lambda>p. i < length (action_buttons p)" for i
  by unfold_locales
    (auto simp: email_frame_def dest!: email_env_frame action_button_ops split: if_splits)

interpretation email_test: chained_flight test_submit test_continue
    "\<lambda>p. button_busy (test_button p)" "email_env FromTest" "\<lambda>p. test_button p \<noteq> None"
  by unfold_locales
    (auto simp: email_frame_def dest!: email_env_frame test_button_ops split: if_splits)

section \<open>Properties\<close>

lemma form_frames [simp]:
  "settings_form (toast m p) = settings_form p" "settings_form (set_email_status t p) = settings_form p"
  "settings_form (set_settings_error t p) = settings_form p"
  "settings_form (action_loading i l p) = settings_form p"
  "settings_form (test_loading l p) = settings_form p"
  "settings_form (mark_invalid ns p) = settings_form p"
  "settings_names (mark_invalid ns p) = settings_names p"
  by (simp_all add: toast_def set_email_status_def set_settings_error_def action_loading_def
      test_loading_def mark_invalid_def split: option.split)

lemma save_start_Some:
  "settings_form p = Some data \<Longrightarrow> \<exists>p1 q. save_start p = Some (p1, q) \<and> settings_form p1 = Some data \<and>
     rq_method q = ''PUT'' \<and> rq_url q = js ''/api/v1/settings/email'' \<and>
     rq_body q = Some (settingsPayload data)"
  by (simp add: save_start_def clearSMTPFieldErrors_def Let_def)

lemma save_answer_quiet:
  "snd (save_answer False r p) = Inr True \<longleftrightarrow> (\<exists>status b. r = Answer status b \<and> resp_ok status)"
  by (auto simp: save_answer_def Let_def case_prod_beta split: fetch_result.split)

lemma save_answer_cases:
  obtains (saved) p1 status b where "save_answer False r p = (p1, Inr True)"
      "r = Answer status b" "resp_ok status"
  | (stopped) p1 x where "save_answer False r p = (p1, x)" "x \<noteq> Inr True"
      "\<not> (\<exists>status b. r = Answer status b \<and> resp_ok status)"
  using save_answer_quiet [of r p] by (cases "save_answer False r p") auto

lemma test_continue_saving:
  "test_continue (t, SavingFirst q) r p = (s, n) \<Longrightarrow>
     (if \<exists>status b. r = Answer status b \<and> resp_ok status then n = Some (t, Acting (test_request t s))
      else n = None)"
  by (cases rule: save_answer_cases [of r p])
    (auto simp: test_continue_def split: sum.splits bool.splits)

lemma action_continue_saving:
  "email_action_continue i (a, SavingFirst q) r p = (s, n) \<Longrightarrow>
     (if \<exists>status b. r = Answer status b \<and> resp_ok status then n = Some (a, Acting (action_request a s))
      else n = None)"
  by (cases rule: save_answer_cases [of r p])
    (auto simp: email_action_continue_def split: sum.splits bool.splits)

lemma rq_url_action: "rq_url (action_request (js ''disable'') p) = js ''/api/v1/settings/email/disable''"
  by (simp add: action_request_def literal_simps)

definition sample_email_page :: email_page where
  "sample_email_page = \<lparr>toast_region = Some [], toast_next = 0, csrf_meta = Some (js ''t''),
     window_actions = [], uncaught = [],
     settings_form = Some (\<lambda>k. if k = ''smtp_password'' then Some (js ''pw'') else None),
     settings_names = [js ''smtp_host'', js ''smtp_port''], invalid_names = [],
     settings_error = Some [], email_status = Some [],
     settings_button = Some \<lparr>b_text = js ''Save'', b_disabled = False, b_original = None, b_loading = None\<rparr>,
     preview_button = None, preview_text = None, preview_html = None, preview_hidden = None,
     action_buttons = [\<lparr>b_text = js ''Enable'', b_disabled = False, b_original = None,
       b_loading = None, eb_action = js ''enable''\<rparr>],
     test_form = (\<lambda>k. Some (js ''a@b'')), test_status = Some [],
     test_button = Some \<lparr>b_text = js ''Send'', b_disabled = False, b_original = None, b_loading = None\<rparr>\<rparr>"

text \<open>A test message is sent with the settings on the screen: the handler first saves the form, and sends the
  test request, to the address entered at the click, exactly when the server has accepted the settings;
  otherwise its chain ends.\<close>

theorem email_test_after_save:
  assumes "settings_form p = Some data"
  shows "\<exists>p1 q. test_submit p = (p1, Some (form_string (test_form p) ''to'', SavingFirst q)) \<and>
    rq_method q = ''PUT'' \<and> rq_url q = js ''/api/v1/settings/email'' \<and>
    rq_body q = Some (settingsPayload data) \<and>
    (\<forall>r p2 s n. test_continue (form_string (test_form p) ''to'', SavingFirst q) r p2 = (s, n) \<longrightarrow>
       (if \<exists>status b. r = Answer status b \<and> resp_ok status
        then n = Some (form_string (test_form p) ''to'',
               Acting (test_request (form_string (test_form p) ''to'') s))
        else n = None))"
proof -
  obtain p1 q where "save_start (test_loading True p) = Some (p1, q)"
    and "rq_method q = ''PUT''" "rq_url q = js ''/api/v1/settings/email''"
      "rq_body q = Some (settingsPayload data)"
    using save_start_Some [of "test_loading True p" data] assms by auto
  then show ?thesis
    using test_continue_saving by (auto simp: test_submit_def Let_def)
qed

theorem email_test_after_save_witness:
  "\<exists>p1 q. test_submit sample_email_page = (p1, Some (js ''a@b'', SavingFirst q)) \<and>
     snd (test_continue (js ''a@b'', SavingFirst q) (Answer 422 None) p1) = None"
proof -
  have "settings_form sample_email_page = Some (\<lambda>k. if k = ''smtp_password'' then Some (js ''pw'') else None)"
    and t: "form_string (test_form sample_email_page) ''to'' = js ''a@b''"
    by (simp_all add: sample_email_page_def form_string_def string_or_empty_def)
  from email_test_after_save [OF this(1), unfolded t] obtain p1 q where
    "test_submit sample_email_page = (p1, Some (js ''a@b'', SavingFirst q))"
    and stops: "\<forall>r p2 s n. test_continue (js ''a@b'', SavingFirst q) r p2 = (s, n) \<longrightarrow>
       (if \<exists>status b. r = Answer status b \<and> resp_ok status
        then n = Some (js ''a@b'', Acting (test_request (js ''a@b'') s)) else n = None)" by blast
  moreover from stops [rule_format, OF prod.collapse [symmetric], of "Answer 422 None" p1]
  have "snd (test_continue (js ''a@b'', SavingFirst q) (Answer 422 None) p1) = None"
    by (simp add: resp_ok_def)
  ultimately show ?thesis by blast
qed

text \<open>The buttons that enable the delivery or test the connection save the form first too, and act only on
  saved settings; the button that disables it acts at once and saves nothing.\<close>

theorem email_action_order:
  assumes "settings_form p = Some data" and "eb_action (action_buttons p ! i) = action"
  shows "(action = js ''disable'' \<longrightarrow>
      (\<exists>p1 q. email_action_click i p = (p1, Some (action, Acting q)) \<and>
         rq_url q = js ''/api/v1/settings/email/disable'' \<and> settings_form p1 = settings_form p)) \<and>
    (action \<noteq> js ''disable'' \<longrightarrow>
      (\<exists>p1 q. email_action_click i p = (p1, Some (action, SavingFirst q)) \<and>
         rq_body q = Some (settingsPayload data) \<and>
         (\<forall>r p2 s n. email_action_continue i (action, SavingFirst q) r p2 = (s, n) \<longrightarrow>
            (if \<exists>status b. r = Answer status b \<and> resp_ok status
             then n = Some (action, Acting (action_request action s)) else n = None))))"
proof -
  obtain p1 q where "save_start (action_loading i True p) = Some (p1, q)"
    and "rq_body q = Some (settingsPayload data)"
    using save_start_Some [of "action_loading i True p" data] assms(1) by auto
  then show ?thesis
    using assms action_continue_saving
    by (auto simp: email_action_click_def Let_def rq_url_action)
qed

theorem email_action_order_witness:
  "\<exists>p1 q. email_action_click 0 sample_email_page = (p1, Some (js ''enable'', SavingFirst q))"
  using email_action_order [of sample_email_page _ 0 "js ''enable''"]
  by (auto simp: sample_email_page_def)

lemma fold_insert_set: "set (fold List.insert xs ys) = set xs \<union> set ys"
  by (induction xs arbitrary: ys) auto

lemma save_answer_refused:
  "\<not> resp_ok status \<Longrightarrow> settings_error p \<noteq> None \<Longrightarrow>
     save_answer a (Answer status b) p =
       (let (p1, m) = smtpErrorMessage (body_or_empty b) ''Email settings could not be saved.'' p
        in (set_settings_error m p1, Inr False))"
  by (auto simp: save_answer_def Let_def case_prod_beta)

text \<open>Saving the settings clears the SMTP password in the form and nothing else of it but the box that asks
  to forget the password; a refusal keeps every value the user typed and marks exactly the controls that
  the server names.\<close>

theorem email_save_outcome:
  assumes "settings_form p = Some data" and "save_start p = Some (p1, q)" and "settings_error p \<noteq> None"
  shows "(resp_ok status \<longrightarrow>
      (\<exists>new. settings_form (fst (save_answer a (Answer status b) p1)) = Some new \<and>
         new ''smtp_password'' = Some [] \<and>
         (\<forall>k. k \<noteq> ''smtp_password'' \<and> k \<noteq> ''clear_smtp_password'' \<longrightarrow> new k = data k))) \<and>
    (\<not> resp_ok status \<longrightarrow>
      (let s = fst (save_answer a (Answer status b) p1)
       in settings_form s = Some data \<and>
          set (invalid_names s) = {n \<in> set (settings_names p).
            n \<in> fst ` set (field_entries (get_prop (body_or_empty b) ''fields''))}))"
proof -
  have p1: "p1 = clearSMTPFieldErrors (set_settings_error [] p)"
    using assms(1,2) by (simp add: save_start_def Let_def)
  then have form: "settings_form p1 = Some data" "settings_names p1 = settings_names p"
      "invalid_names p1 = []" "settings_error p1 \<noteq> None"
    using assms(1,3) by (auto simp: clearSMTPFieldErrors_def set_settings_error_def)
  have ok: "\<exists>new. settings_form (fst (save_answer a (Answer status b) p1)) = Some new \<and>
      new ''smtp_password'' = Some [] \<and>
      (\<forall>k. k \<noteq> ''smtp_password'' \<and> k \<noteq> ''clear_smtp_password'' \<longrightarrow> new k = data k)"
    if "resp_ok status"
    using that form(1) by (simp add: save_answer_def Let_def)
  have no: "settings_form (fst (save_answer a (Answer status b) p1)) = Some data \<and>
      set (invalid_names (fst (save_answer a (Answer status b) p1))) = {n \<in> set (settings_names p).
        n \<in> fst ` set (field_entries (get_prop (body_or_empty b) ''fields''))}"
    if "\<not> resp_ok status"
    using save_answer_refused [OF that form(4), of a b] form
    by (auto simp: smtpErrorMessage_def Let_def mark_invalid_def set_settings_error_def fold_insert_set)
  from ok no show ?thesis by (simp add: Let_def)
qed

theorem email_save_outcome_witness:
  "\<exists>p1 q. save_start sample_email_page = Some (p1, q) \<and>
     set (invalid_names (fst (save_answer True (Answer 422 (Some (obj
       [(''fields'', obj [(''smtp_host'', JStr (js ''required''))])]))) p1))) = {js ''smtp_host''}"
proof -
  have d: "settings_form sample_email_page = Some (\<lambda>k. if k = ''smtp_password'' then Some (js ''pw'') else None)"
    and e: "settings_error sample_email_page \<noteq> None" by (simp_all add: sample_email_page_def)
  obtain p1 q where s: "save_start sample_email_page = Some (p1, q)" using save_start_Some [OF d] by blast
  have "{n \<in> set (settings_names sample_email_page). n = js ''smtp_host''} = {js ''smtp_host''}"
    by (auto simp: sample_email_page_def)
  then show ?thesis
    using s email_save_outcome [OF d s e, of 422 True
        "Some (obj [(''fields'', obj [(''smtp_host'', JStr (js ''required''))])])"]
    by (simp add: resp_ok_def Let_def) (simp add: obj_def field_entries_def)
qed

text \<open>The form that sends a test message has at most one request under way, the save or the test, and its
  button is disabled exactly meanwhile, whatever the other handlers of the page do.\<close>

theorem email_test_one_request:
  assumes "chain_run test_submit test_continue (\<lambda>p. button_busy (test_button p)) (email_env FromTest) p0 p qs"
    and "test_button p0 \<noteq> None" and "\<not> button_busy (test_button p0)"
  shows "length qs \<le> 1 \<and> (button_busy (test_button p) \<longleftrightarrow> qs \<noteq> [])"
  using email_test.chain_invariant [OF assms] by blast

theorem email_test_one_request_witness:
  "\<exists>p c. test_submit sample_email_page = (p, Some c) \<and> button_busy (test_button p)"
proof -
  have b: "test_button sample_email_page \<noteq> None" "\<not> button_busy (test_button sample_email_page)"
    by (simp_all add: sample_email_page_def)
  obtain p c where t: "test_submit sample_email_page = (p, Some c)"
    by (metis not_None_eq prod.exhaust test_button_ops(1))
  have "chain_run test_submit test_continue (\<lambda>p. button_busy (test_button p)) (email_env FromTest)
      sample_email_page sample_email_page []" by (rule chain_load)
  from email_test_one_request [OF chain_submit [OF this b(2) t] b] t show ?thesis by auto
qed

end
