(* ===== verification/PublicExperience.thy ===== *)
theory PublicExperience
  imports Browser
begin

text \<open>
  The language of the recipient pages: \<^verbatim>\<open>setupPublicExperienceSettings\<close> in \<^verbatim>\<open>web/static/admin.js\<close>. The form
  holds a select with the languages; the preview links on the page carry the selected language in their
  query. A link is its path and its query parameters, as \<^verbatim>\<open>URL\<close> parses them: the percent encoding of the
  address is left out. The template holds the select.
\<close>

record preview_link =
  pl_path :: jstr
  pl_query :: "(jstr \<times> jstr) list"

record experience_page = ui +
  locale_value :: jstr
  locale_options :: "jstr list"
  experience_status :: "jstr option"
  experience_error :: "jstr option"
  experience_badge :: "jstr option"
  experience_button :: "button option"
  preview_links :: "preview_link list"

section \<open>The preview links\<close>

text \<open>\<^verbatim>\<open>searchParams.set(k, v)\<close>: the first parameter of the name is replaced and the others are dropped, or the
  parameter is appended.\<close>

fun set_param :: "jstr \<Rightarrow> jstr \<Rightarrow> (jstr \<times> jstr) list \<Rightarrow> (jstr \<times> jstr) list" where
  "set_param k v [] = [(k, v)]"
| "set_param k v (e # es) =
     (if fst e = k then (k, v) # filter (\<lambda>x. fst x \<noteq> k) es else e # set_param k v es)"

definition updatePreviewLinks :: "experience_page \<Rightarrow> experience_page" where
  "updatePreviewLinks p = p\<lparr>preview_links := map
     (\<lambda>l. l\<lparr>pl_query := set_param (js ''locale'') (locale_value p) (pl_query l)\<rparr>) (preview_links p)\<rparr>"

text \<open>A value written to a select that has no such option selects nothing.\<close>

definition select_value :: "jstr list \<Rightarrow> jstr \<Rightarrow> jstr" where
  "select_value options v = (if v \<in> set options then v else [])"

definition locale_change :: "jstr \<Rightarrow> experience_page \<Rightarrow> experience_page" where
  "locale_change v p = updatePreviewLinks (p\<lparr>locale_value := select_value (locale_options p) v\<rparr>)"

section \<open>Saving the language\<close>

definition set_experience_error :: "jstr \<Rightarrow> experience_page \<Rightarrow> experience_page" where
  "set_experience_error text p = p\<lparr>experience_error := map_option (\<lambda>_. text) (experience_error p)\<rparr>"

definition set_experience_status :: "jstr \<Rightarrow> experience_page \<Rightarrow> experience_page" where
  "set_experience_status text p = p\<lparr>experience_status := map_option (\<lambda>_. text) (experience_status p)\<rparr>"

definition experience_loading :: "bool \<Rightarrow> experience_page \<Rightarrow> experience_page" where
  "experience_loading l p =
     p\<lparr>experience_button := map_option (setButtonLoading l) (experience_button p)\<rparr>"

definition experience_submit :: "experience_page \<Rightarrow> experience_page \<times> http_request option" where
  "experience_submit p =
     (let p1 = experience_loading True (set_experience_status (js ''Saving public recipient language...'')
            (set_experience_error [] p))
      in (p1, Some (json_call p1 ''PUT'' (js ''/api/v1/settings/public-experience'')
            (obj [(''public_locale'', JStr (locale_value p1))]))))"

text \<open>The word for Persian in its own script.\<close>

definition farsi :: jstr where
  "farsi = [0x641, 0x627, 0x631, 0x633, 0x6CC]"

definition experience_unsaved :: "jstr \<Rightarrow> experience_page \<Rightarrow> experience_page" where
  "experience_unsaved text p = set_experience_status [] (set_experience_error text p)"

definition experience_unreachable :: jstr where
  "experience_unreachable =
     js ''Public recipient language could not be saved. Check your connection and try again.''"

text \<open>The successful branch for a body that is not \<^verbatim>\<open>null\<close>.\<close>

definition experience_saved :: "val \<Rightarrow> experience_page \<Rightarrow> experience_page" where
  "experience_saved body p =
     (let saved = get_prop body ''public_locale'';
          p1 = p\<lparr>locale_value := select_value (locale_options p) (to_string saved),
                 experience_badge := map_option
                   (\<lambda>_. if saved = Some (JStr (js ''fa'')) then farsi else js ''English'')
                   (experience_badge p)\<rparr>
      in toast (js ''Public recipient language saved.'')
           (set_experience_status (js ''Public recipient language saved.'') (updatePreviewLinks p1)))"

definition experience_answer ::
  "http_request \<Rightarrow> fetch_result \<Rightarrow> experience_page \<Rightarrow> experience_page" where
  "experience_answer sent r p =
     experience_loading False
       (case r of
          Rejected \<Rightarrow> experience_unsaved experience_unreachable p
        | Answer status b \<Rightarrow>
            (let body = body_or_empty b
             in if \<not> resp_ok status
                then (if experience_error p = None then set_experience_status [] p
                      else if nullish body then experience_unsaved experience_unreachable p
                      else experience_unsaved (message_or (get_prop body ''message'')
                             ''Public recipient language could not be saved.'') p)
                else if nullish body then experience_unsaved experience_unreachable p
                else experience_saved body p))"

inductive experience_other :: "experience_page \<Rightarrow> experience_page \<Rightarrow> bool" where
  experience_change: "experience_other p (locale_change v p)"
| experience_timer: "experience_other p (toast_expire i p)"

section \<open>Contracts and invariant\<close>

lemma experience_button_frames [simp]:
  "experience_button (toast m p) = experience_button p"
  "experience_button (toast_expire i p) = experience_button p"
  "experience_button (set_experience_error t p) = experience_button p"
  "experience_button (set_experience_status t p) = experience_button p"
  "experience_button (updatePreviewLinks p) = experience_button p"
  by (simp_all add: toast_def toast_expire_def set_experience_error_def set_experience_status_def
      updatePreviewLinks_def split: option.split)

lemma experience_answer_button:
  "experience_button (experience_answer q r p) = map_option (setButtonLoading False) (experience_button p)"
  by (simp add: experience_answer_def experience_loading_def experience_unsaved_def experience_saved_def
      Let_def split: fetch_result.split)

lemma experience_other_button: "experience_other p q \<Longrightarrow> experience_button q = experience_button p"
  by (induction rule: experience_other.induct) (simp_all add: locale_change_def)

interpretation experience: single_flight experience_submit experience_answer
    "\<lambda>p. button_busy (experience_button p)" experience_other "\<lambda>p. experience_button p \<noteq> None"
  by unfold_locales
    (auto simp: experience_submit_def experience_loading_def experience_answer_button
      experience_other_button Let_def)

text \<open>Every link carries the selected language, once.\<close>

definition links_match :: "experience_page \<Rightarrow> bool" where
  "links_match p \<longleftrightarrow> (\<forall>l \<in> set (preview_links p).
     map snd (filter (\<lambda>e. fst e = js ''locale'') (pl_query l)) = [locale_value p])"

lemma set_param_once: "map snd (filter (\<lambda>e. fst e = k) (set_param k v es)) = [v]"
  by (induction es) (auto simp: filter_False)

lemma set_param_others: "filter (\<lambda>e. fst e \<noteq> k) (set_param k v es) = filter (\<lambda>e. fst e \<noteq> k) es"
  by (induction es) auto

lemma links_match_update [simp]: "links_match (updatePreviewLinks p)"
  by (simp add: links_match_def updatePreviewLinks_def set_param_once)

lemma links_match_frames [simp]:
  "links_match (toast m p) = links_match p" "links_match (toast_expire i p) = links_match p"
  "links_match (set_experience_error t p) = links_match p"
  "links_match (set_experience_status t p) = links_match p"
  "links_match (experience_loading l p) = links_match p"
  by (simp_all add: links_match_def toast_def toast_expire_def set_experience_error_def
      set_experience_status_def experience_loading_def split: option.split)

text \<open>The page after the script has run, and everything that can follow.\<close>

inductive experience_run :: "experience_page \<Rightarrow> experience_page \<Rightarrow> bool" for p0 where
  run_load: "experience_run p0 (updatePreviewLinks p0)"
| run_submit: "experience_run p0 p \<Longrightarrow> experience_run p0 (fst (experience_submit p))"
| run_answer: "experience_run p0 p \<Longrightarrow> experience_run p0 (experience_answer q r p)"
| run_other: "experience_run p0 p \<Longrightarrow> experience_other p q \<Longrightarrow> experience_run p0 q"

lemma experience_other_links: "experience_other p q \<Longrightarrow> links_match p \<Longrightarrow> links_match q"
  by (induction rule: experience_other.induct) (simp_all add: locale_change_def)

lemma experience_answer_links: "links_match p \<Longrightarrow> links_match (experience_answer q r p)"
  by (simp add: experience_answer_def experience_unsaved_def experience_saved_def Let_def
      split: fetch_result.split)

lemma experience_run_links: "experience_run p0 p \<Longrightarrow> links_match p"
  by (induction rule: experience_run.induct)
    (auto simp: experience_submit_def Let_def experience_other_links experience_answer_links)

definition sample_experience :: experience_page where
  "sample_experience = \<lparr>toast_region = Some [], toast_next = 0, csrf_meta = Some (js ''t''),
     window_actions = [], uncaught = [], locale_value = js ''en'',
     locale_options = [js ''en'', js ''fa''], experience_status = Some [], experience_error = Some [],
     experience_badge = Some (js ''English''),
     experience_button = Some \<lparr>b_text = js ''Save'', b_disabled = False, b_original = None,
       b_loading = None\<rparr>,
     preview_links = [\<lparr>pl_path = js ''/preview'',
       pl_query = [(js ''state'', js ''ready''), (js ''locale'', js ''fa'')]\<rparr>]\<rparr>"

text \<open>From the moment the script has run, every preview link carries the selected language exactly once,
  whatever is selected, saved or refused.\<close>

theorem experience_links_follow:
  assumes "experience_run p0 p" and "l \<in> set (preview_links p)"
  shows "map snd (filter (\<lambda>e. fst e = js ''locale'') (pl_query l)) = [locale_value p]"
  using experience_run_links [OF assms(1)] assms(2) by (simp add: links_match_def)

theorem experience_links_follow_witness:
  "map snd (filter (\<lambda>e. fst e = js ''locale'')
     (pl_query (hd (preview_links (updatePreviewLinks sample_experience))))) = [js ''en'']"
  using experience_links_follow [OF run_load [of sample_experience]]
  by (simp add: updatePreviewLinks_def sample_experience_def)

text \<open>A saved language of the list becomes the selected one, with its badge and in the status line; any
  other outcome keeps the selection, the badge and the links, clears the status and enables the button.\<close>

theorem experience_save_outcome:
  "(resp_ok status \<and> v \<in> set (locale_options p) \<longrightarrow>
     (let s = experience_answer q (Answer status (Some (obj [(''public_locale'', JStr v)]))) p
      in locale_value s = v \<and>
         experience_badge s = map_option (\<lambda>_. if v = js ''fa'' then farsi else js ''English'')
           (experience_badge p) \<and>
         experience_status s = map_option (\<lambda>_. js ''Public recipient language saved.'') (experience_status p))) \<and>
   (\<not> resp_ok status \<longrightarrow>
     (let s = experience_answer q (Answer status b) p
      in locale_value s = locale_value p \<and> experience_badge s = experience_badge p \<and>
         preview_links s = preview_links p \<and>
         experience_status s = map_option (\<lambda>_. []) (experience_status p) \<and>
         \<not> button_busy (experience_button s)))"
  by (auto simp: experience_answer_def experience_saved_def experience_unsaved_def Let_def select_value_def
      experience_loading_def set_experience_status_def set_experience_error_def updatePreviewLinks_def
      toast_def option.map_comp comp_def split: option.split)

theorem experience_save_outcome_witness:
  "locale_value (experience_answer (plain_call sample_experience ''PUT'' [])
     (Answer 200 (Some (obj [(''public_locale'', JStr (js ''fa''))]))) sample_experience) = js ''fa''"
  using experience_save_outcome [of 200 "js ''fa''" sample_experience
      "plain_call sample_experience ''PUT'' []"]
  by (simp add: resp_ok_def Let_def) (simp add: sample_experience_def)

end
