(* ===== verification/NavigationTest.thy ===== *)
theory NavigationTest
  imports Navigation
begin

text \<open>
  The interaction test of the navigation, \<^verbatim>\<open>scripts/navigation-interaction-test.js\<close>, with its fake document, and
  \<^verbatim>\<open>setupNavigation\<close> of \<^verbatim>\<open>web/static/admin.js\<close> run on it statement by statement: class lists,
  attributes and listener tables instead of the flags of \<open>Navigation\<close>. The two models of
  \<^verbatim>\<open>setupNavigation\<close> are related by an abstraction function, event by event; and the script of the test
  passes.
\<close>

section \<open>The fake document\<close>

datatype fake_id = SidebarEl | OpenerEl | CloseEl | BackdropEl | NavLinkEl

text \<open>The closures that \<^verbatim>\<open>setupNavigation\<close> registers.\<close>

datatype nav_listener =
  OpenerListener fake_id | CloseListener | LinkListener | KeydownListener | ViewportListener

text \<open>\<open>FakeClassList.values\<close> is a set in insertion order; an absent key of a listener map is an empty list.\<close>

type_synonym class_list = "string list"

definition class_contains :: "string \<Rightarrow> class_list \<Rightarrow> bool" where
  "class_contains name values \<longleftrightarrow> name \<in> set values"

definition class_toggle :: "string \<Rightarrow> bool option \<Rightarrow> class_list \<Rightarrow> class_list \<times> bool" where
  "class_toggle name force values =
     (let enabled = (case force of None \<Rightarrow> \<not> class_contains name values | Some b \<Rightarrow> b)
      in (if enabled then (if name \<in> set values then values else values @ [name])
          else filter (\<lambda>n. n \<noteq> name) values, enabled))"

record fake_element =
  fe_classes :: class_list
  fe_listeners :: "string \<Rightarrow> nav_listener list"
  fe_attributes :: "string \<Rightarrow> string option"

definition new_element :: fake_element where
  "new_element = \<lparr>fe_classes = [], fe_listeners = (\<lambda>_. []), fe_attributes = (\<lambda>_. None)\<rparr>"

definition add_listener ::
  "string \<Rightarrow> nav_listener \<Rightarrow> (string \<Rightarrow> nav_listener list) \<Rightarrow> string \<Rightarrow> nav_listener list" where
  "add_listener type listener ls = ls(type := ls type @ [listener])"

definition set_attribute :: "string \<Rightarrow> string \<Rightarrow> fake_element \<Rightarrow> fake_element" where
  "set_attribute name v el = el\<lparr>fe_attributes := (fe_attributes el)(name := Some v)\<rparr>"

text \<open>\<^verbatim>\<open>this.attributes.get(name) || null\<close>.\<close>

definition get_attribute :: "string \<Rightarrow> fake_element \<Rightarrow> string option" where
  "get_attribute name el =
     (case fe_attributes el name of None \<Rightarrow> None | Some v \<Rightarrow> if v = [] then None else Some v)"

definition has_attribute :: "string \<Rightarrow> fake_element \<Rightarrow> bool" where
  "has_attribute name el \<longleftrightarrow> fe_attributes el name \<noteq> None"

text \<open>
  The document, with the viewport of the test and the variable \<^verbatim>\<open>lastOpener\<close> of \<^verbatim>\<open>setupNavigation\<close>. The
  window of the test drops its listeners.
\<close>

record fake_document =
  fd_element :: "fake_id \<Rightarrow> fake_element"
  fd_listeners :: "string \<Rightarrow> nav_listener list"
  fd_body :: class_list
  fd_active :: "fake_id option"
  fd_matches :: bool
  fd_media :: "nav_listener list"
  fd_lastOpener :: "fake_id option"

definition new_document :: fake_document where
  "new_document =
     \<lparr>fd_element = (\<lambda>_. new_element), fd_listeners = (\<lambda>_. []), fd_body = [], fd_active = None,
      fd_matches = True, fd_media = [], fd_lastOpener = None\<rparr>"

definition upd_element :: "fake_id \<Rightarrow> (fake_element \<Rightarrow> fake_element) \<Rightarrow> fake_document \<Rightarrow> fake_document" where
  "upd_element i f d = d\<lparr>fd_element := (fd_element d)(i := f (fd_element d i))\<rparr>"

definition fake_focus :: "fake_id \<Rightarrow> fake_document \<Rightarrow> fake_document" where
  "fake_focus i d = d\<lparr>fd_active := Some i\<rparr>"

text \<open>The selectors of \<^verbatim>\<open>FakeDocument\<close> and of its sidebar.\<close>

definition query_document :: "string \<Rightarrow> fake_id option" where
  "query_document selector =
     (if selector = ''[data-sidebar]'' then Some SidebarEl
      else if selector = ''[data-nav-backdrop]'' then Some BackdropEl else None)"

definition query_all_document :: "string \<Rightarrow> fake_id list" where
  "query_all_document selector =
     (if selector = ''[data-menu-toggle]'' then [OpenerEl]
      else if selector = ''[data-menu-close]'' then [CloseEl] else [])"

definition query_sidebar :: "string \<Rightarrow> fake_id option" where
  "query_sidebar selector = (if selector = ''[data-menu-close]'' then Some CloseEl else None)"

definition query_all_sidebar :: "string \<Rightarrow> fake_id list" where
  "query_all_sidebar selector = (if selector = ''a[href]'' then [NavLinkEl] else [CloseEl, NavLinkEl])"

record key_event =
  ke_key :: string
  ke_shift :: bool
  ke_prevented :: bool

definition keyboardEvent :: "string \<Rightarrow> bool \<Rightarrow> key_event" where
  "keyboardEvent key shiftKey = \<lparr>ke_key = key, ke_shift = shiftKey, ke_prevented = False\<rparr>"

section \<open>The script on the fake document\<close>

definition focusable_selector :: string where
  "focusable_selector = ''a[href], button:not([disabled]), summary, input:not([disabled]), select:not([disabled]), textarea:not([disabled]), [tabindex]:not([tabindex=\"-1\"])''"

definition fake_focusable :: "fake_document \<Rightarrow> fake_id list" where
  "fake_focusable d =
     filter (\<lambda>i. \<not> has_attribute ''hidden'' (fd_element d i)) (query_all_sidebar focusable_selector)"

definition bool_string :: "bool \<Rightarrow> string" where
  "bool_string b = (if b then ''true'' else ''false'')"

definition sidebar_shown :: "fake_document \<Rightarrow> bool" where
  "sidebar_shown d \<longleftrightarrow> class_contains ''open'' (fe_classes (fd_element d SidebarEl))"

definition fake_setOpen :: "bool \<Rightarrow> bool \<Rightarrow> fake_document \<Rightarrow> fake_document" where
  "fake_setOpen open_it returnFocus d =
     (let shouldOpen = (open_it \<and> fd_matches d);
          d1 = upd_element SidebarEl
                 (\<lambda>el. el\<lparr>fe_classes := fst (class_toggle ''open'' (Some shouldOpen) (fe_classes el))\<rparr>) d;
          d2 = d1\<lparr>fd_body := fst (class_toggle ''navigation-open'' (Some shouldOpen) (fd_body d1))\<rparr>;
          d3 = fold (\<lambda>b. upd_element b (set_attribute ''aria-expanded'' (bool_string shouldOpen)))
                 (query_all_document ''[data-menu-toggle]'') d2
      in if shouldOpen
         then (case query_sidebar ''[data-menu-close]'' of
                 Some i \<Rightarrow> fake_focus i d3
               | None \<Rightarrow> (case fake_focusable d3 of i # _ \<Rightarrow> fake_focus i d3 | [] \<Rightarrow> d3))
         else if returnFocus then (case fd_lastOpener d3 of Some i \<Rightarrow> fake_focus i d3 | None \<Rightarrow> d3)
         else d3)"

definition prevent :: "key_event \<Rightarrow> key_event" where
  "prevent e = e\<lparr>ke_prevented := True\<rparr>"

definition fake_keydown :: "key_event \<Rightarrow> fake_document \<Rightarrow> key_event \<times> fake_document" where
  "fake_keydown e d =
     (if ke_key e = ''Escape''
      then (if sidebar_shown d then (prevent e, fake_setOpen False True d) else (e, d))
      else if ke_key e \<noteq> ''Tab'' \<or> \<not> fd_matches d \<or> \<not> sidebar_shown d then (e, d)
      else
        (case fake_focusable d of
           [] \<Rightarrow> (e, d)
         | first # rest \<Rightarrow>
             (let final = last (first # rest)
              in if ke_shift e \<and> fd_active d = Some first then (prevent e, fake_focus final d)
                 else if \<not> ke_shift e \<and> fd_active d = Some final then (prevent e, fake_focus first d)
                 else (e, d))))"

definition run_listener :: "nav_listener \<Rightarrow> key_event \<times> fake_document \<Rightarrow> key_event \<times> fake_document" where
  "run_listener l s =
     (case s of (e, d) \<Rightarrow>
        (case l of
           OpenerListener i \<Rightarrow>
             (let d1 = d\<lparr>fd_lastOpener := Some i\<rparr> in (e, fake_setOpen (\<not> sidebar_shown d1) True d1))
         | CloseListener \<Rightarrow> (e, fake_setOpen False True d)
         | LinkListener \<Rightarrow> (e, fake_setOpen False False d)
         | KeydownListener \<Rightarrow> fake_keydown e d
         | ViewportListener \<Rightarrow> (e, if \<not> fd_matches d then fake_setOpen False False d else d)))"

definition listen :: "string \<Rightarrow> nav_listener \<Rightarrow> fake_id \<Rightarrow> fake_document \<Rightarrow> fake_document" where
  "listen type l i = upd_element i (\<lambda>el. el\<lparr>fe_listeners := add_listener type l (fe_listeners el)\<rparr>)"

text \<open>The registrations of \<^verbatim>\<open>setupNavigation\<close>, in its order.\<close>

definition fake_setup :: "fake_document \<Rightarrow> fake_document" where
  "fake_setup d =
     (case query_document ''[data-sidebar]'' of
        None \<Rightarrow> d
      | Some sidebar \<Rightarrow>
          (let d1 = fold (\<lambda>b. listen ''click'' (OpenerListener b) b) (query_all_document ''[data-menu-toggle]'') d;
               d2 = fold (listen ''click'' CloseListener) (query_all_document ''[data-menu-close]'') d1;
               d3 = (case query_document ''[data-nav-backdrop]'' of
                       None \<Rightarrow> d2 | Some b \<Rightarrow> listen ''click'' CloseListener b d2);
               d4 = fold (listen ''click'' LinkListener) (query_all_sidebar ''a[href]'') d3;
               d5 = d4\<lparr>fd_listeners := add_listener ''keydown'' KeydownListener (fd_listeners d4)\<rparr>
           in d5\<lparr>fd_media := fd_media d5 @ [ViewportListener]\<rparr>))"

section \<open>The steps of a test\<close>

datatype fake_event =
    Dispatch fake_id string
  | KeyOn string bool
  | FocusOn fake_id
  | SetMatches bool
  | MediaChange

definition no_event :: key_event where
  "no_event = keyboardEvent [] False"

text \<open>The state of a test: the document and the last keyboard event.\<close>

definition fake_step :: "fake_event \<Rightarrow> key_event \<times> fake_document \<Rightarrow> key_event \<times> fake_document" where
  "fake_step ev s =
     (case ev of
        Dispatch i type \<Rightarrow>
          (fst s, snd (fold run_listener (fe_listeners (fd_element (snd s) i) type) (no_event, snd s)))
      | KeyOn key shift \<Rightarrow>
          fold run_listener (fd_listeners (snd s) ''keydown'') (keyboardEvent key shift, snd s)
      | FocusOn i \<Rightarrow> (fst s, fake_focus i (snd s))
      | SetMatches b \<Rightarrow> (fst s, (snd s)\<lparr>fd_matches := b\<rparr>)
      | MediaChange \<Rightarrow> (fst s, snd (fold run_listener (fd_media (snd s)) (no_event, snd s))))"

section \<open>Refinement\<close>

definition node_of :: "fake_id \<Rightarrow> nav_node" where
  "node_of i = (case i of CloseEl \<Rightarrow> NavItem 0 | NavLinkEl \<Rightarrow> NavItem 1 | OpenerEl \<Rightarrow> NavOpener 0
     | SidebarEl \<Rightarrow> OtherNode 0 | BackdropEl \<Rightarrow> OtherNode 1)"

lemma node_of_inject [simp]: "node_of i = node_of j \<longleftrightarrow> i = j"
  by (cases i; cases j) (simp_all add: node_of_def)

definition fake_items :: "nav_item list" where
  "fake_items =
     [\<lparr>ni_link = False, ni_close = True, ni_selector = True, ni_hidden = False, ni_rendered = True\<rparr>,
      \<lparr>ni_link = True, ni_close = False, ni_selector = True, ni_hidden = False, ni_rendered = True\<rparr>]"

definition nav_abs :: "bool \<Rightarrow> fake_document \<Rightarrow> nav_page" where
  "nav_abs due d =
     \<lparr>nav_mobile = fd_matches d, nav_change_due = due, sidebar_open = sidebar_shown d,
      body_navigation_open = class_contains ''navigation-open'' (fd_body d),
      openers = [\<lparr>no_expanded = (get_attribute ''aria-expanded'' (fd_element d OpenerEl) = Some ''true''),
                  no_rendered = True\<rparr>],
      sidebar_items = fake_items, lastOpener = map_option (\<lambda>_. 0) (fd_lastOpener d),
      active_element = map_option node_of (fd_active d), user_menus_open = []\<rparr>"

text \<open>The listeners that \<open>fake_setup\<close> has installed, and an opener that is the only one.\<close>

definition click_listeners :: "fake_id \<Rightarrow> nav_listener list" where
  "click_listeners i = (case i of OpenerEl \<Rightarrow> [OpenerListener OpenerEl] | CloseEl \<Rightarrow> [CloseListener]
     | BackdropEl \<Rightarrow> [CloseListener] | NavLinkEl \<Rightarrow> [LinkListener] | SidebarEl \<Rightarrow> [])"

definition wired :: "fake_document \<Rightarrow> bool" where
  "wired d \<longleftrightarrow>
     (\<forall>i type. fe_listeners (fd_element d i) type = (if type = ''click'' then click_listeners i else [])) \<and>
     (\<forall>i. \<not> has_attribute ''hidden'' (fd_element d i)) \<and> fd_listeners d ''keydown'' = [KeydownListener] \<and>
     fd_media d = [ViewportListener] \<and> fd_lastOpener d \<in> {None, Some OpenerEl}"

lemma fake_setup_eq:
  "fake_setup new_document = new_document\<lparr>
     fd_element := (\<lambda>i. new_element\<lparr>fe_listeners := (\<lambda>t. if t = ''click'' then click_listeners i else [])\<rparr>),
     fd_listeners := (\<lambda>t. if t = ''keydown'' then [KeydownListener] else []), fd_media := [ViewportListener]\<rparr>"
proof -
  have "fd_element (fake_setup new_document) i =
      new_element\<lparr>fe_listeners := (\<lambda>t. if t = ''click'' then click_listeners i else [])\<rparr>" for i
    by (cases i) (auto simp: fake_setup_def query_document_def query_all_document_def query_all_sidebar_def Let_def
        listen_def upd_element_def add_listener_def new_document_def new_element_def click_listeners_def)
  then show ?thesis
    by (intro fake_document.equality)
      (auto simp: fake_setup_def query_document_def query_all_document_def query_all_sidebar_def Let_def
        listen_def upd_element_def add_listener_def new_document_def)
qed

lemma fake_setup_wired: "wired (fake_setup new_document)"
  unfolding fake_setup_eq by (simp add: wired_def new_document_def new_element_def has_attribute_def)

lemma class_toggle_contains [simp]:
  "class_contains n (fst (class_toggle m (Some b) vs)) = (if n = m then b else class_contains n vs)"
  by (auto simp: class_toggle_def class_contains_def)

text \<open>What \<open>fake_setOpen\<close> writes.\<close>

definition drawer_set :: "bool \<Rightarrow> fake_document \<Rightarrow> fake_document" where
  "drawer_set b d =
     (let d1 = upd_element SidebarEl (\<lambda>el. el\<lparr>fe_classes := fst (class_toggle ''open'' (Some b) (fe_classes el))\<rparr>) d;
          d2 = d1\<lparr>fd_body := fst (class_toggle ''navigation-open'' (Some b) (fd_body d1))\<rparr>
      in upd_element OpenerEl (set_attribute ''aria-expanded'' (bool_string b)) d2)"

lemma drawer_set_simps [simp]:
  "sidebar_shown (drawer_set b d) = b" "class_contains ''navigation-open'' (fd_body (drawer_set b d)) = b"
  "get_attribute ''aria-expanded'' (fd_element (drawer_set b d) OpenerEl) = Some (bool_string b)"
  "fd_matches (drawer_set b d) = fd_matches d" "fd_lastOpener (drawer_set b d) = fd_lastOpener d"
  "fd_active (drawer_set b d) = fd_active d"
  by (simp_all add: drawer_set_def Let_def upd_element_def sidebar_shown_def get_attribute_def set_attribute_def
      bool_string_def)

lemma fake_setOpen_eq:
  "fake_setOpen open_it returnFocus d =
     (let b = (open_it \<and> fd_matches d)
      in if b then fake_focus CloseEl (drawer_set b d)
         else if returnFocus then (case fd_lastOpener d of Some i \<Rightarrow> fake_focus i (drawer_set b d)
           | None \<Rightarrow> drawer_set b d)
         else drawer_set b d)"
proof -
  have "fold (\<lambda>b. upd_element b f) (query_all_document ''[data-menu-toggle]'') = upd_element OpenerEl f" for f
    by (rule ext) (simp add: query_all_document_def)
  then have "fake_setOpen open_it returnFocus d =
      (let b = (open_it \<and> fd_matches d); d3 = drawer_set b d
       in if b then fake_focus CloseEl d3
          else if returnFocus then (case fd_lastOpener d3 of Some i \<Rightarrow> fake_focus i d3 | None \<Rightarrow> d3) else d3)"
    by (simp only: fake_setOpen_def drawer_set_def Let_def query_sidebar_def simp_thms if_True option.case)
  then show ?thesis by (simp add: Let_def)
qed

lemma drawer_set_frame:
  "fe_listeners (fd_element (drawer_set b d) i) = fe_listeners (fd_element d i)"
  "has_attribute ''hidden'' (fd_element (drawer_set b d) i) = has_attribute ''hidden'' (fd_element d i)"
  "fd_listeners (drawer_set b d) = fd_listeners d" "fd_media (drawer_set b d) = fd_media d"
  by (simp_all add: drawer_set_def Let_def upd_element_def set_attribute_def has_attribute_def)

lemma drawer_set_wired [simp]: "wired (drawer_set b d) = wired d"
  by (simp only: wired_def drawer_set_frame drawer_set_simps)

lemma focus_simps [simp]:
  "nav_abs due (fake_focus i d) = (nav_abs due d)\<lparr>active_element := Some (node_of i)\<rparr>"
  "wired (fake_focus i d) = wired d"
  by (simp_all add: nav_abs_def fake_focus_def sidebar_shown_def wired_def)

lemma drawer_set_abs:
  "nav_abs due (drawer_set b d) = (nav_abs due d)\<lparr>sidebar_open := b, body_navigation_open := b,
     openers := [\<lparr>no_expanded = b, no_rendered = True\<rparr>]\<rparr>"
  by (simp add: nav_abs_def bool_string_def)

lemma abs_targets:
  "first_target (nav_abs due d) = Some 0"
  "focus_item 0 (nav_abs due d) = nav_abs due (fake_focus CloseEl d)"
  "focus_item 1 (nav_abs due d) = nav_abs due (fake_focus NavLinkEl d)"
  "focus_opener 0 (nav_abs due d) = nav_abs due (fake_focus OpenerEl d)"
  by (simp_all add: first_target_def focus_item_def focus_opener_def node_of_def)
    (simp_all add: nav_abs_def fake_items_def upt_rec)

lemma setOpen_abs:
  assumes "wired d"
  shows "nav_abs due (fake_setOpen b r d) = setOpen b r (nav_abs due d)" and "wired (fake_setOpen b r d)"
proof -
  let ?c = "b \<and> fd_matches d"
  have last: "fd_lastOpener d = None \<or> fd_lastOpener d = Some OpenerEl" using assms by (auto simp: wired_def)
  have p1: "(nav_abs due d)\<lparr>sidebar_open := c, body_navigation_open := c,
      openers := map (\<lambda>b. b\<lparr>no_expanded := c\<rparr>) (openers (nav_abs due d))\<rparr> = nav_abs due (drawer_set c d)" for c
    unfolding drawer_set_abs by (simp add: nav_abs_def)
  have "nav_mobile (nav_abs due d) = fd_matches d" by (simp add: nav_abs_def)
  then have "setOpen b r (nav_abs due d) = (let q = nav_abs due (drawer_set ?c d) in
      if ?c then focus_item 0 q
      else if r then (case lastOpener q of None \<Rightarrow> q | Some i \<Rightarrow> focus_opener i q) else q)"
    by (simp only: setOpen_def Let_def p1 abs_targets option.case)
  moreover have "lastOpener (nav_abs due (drawer_set ?c d)) = map_option (\<lambda>_. 0) (fd_lastOpener d)"
    by (simp add: nav_abs_def)
  ultimately show "nav_abs due (fake_setOpen b r d) = setOpen b r (nav_abs due d)"
    using last by (auto simp: fake_setOpen_eq Let_def abs_targets simp del: focus_simps(1))
  show "wired (fake_setOpen b r d)"
    using assms by (simp add: fake_setOpen_eq Let_def split: option.split)
qed

section \<open>The events of the two models\<close>

definition key_of :: "string \<Rightarrow> bool \<Rightarrow> nav_key" where
  "key_of key shift = (if key = ''Escape'' then Escape else if key = ''Tab'' then Tab shift else OtherKey)"

definition nav_event :: "fake_event \<Rightarrow> nav_page \<Rightarrow> nav_page" where
  "nav_event ev p =
     (case ev of
        Dispatch i type \<Rightarrow>
          (if type \<noteq> ''click'' then p
           else (case i of OpenerEl \<Rightarrow> opener_click 0 p | CloseEl \<Rightarrow> close_click p | BackdropEl \<Rightarrow> close_click p
                 | NavLinkEl \<Rightarrow> link_click p | SidebarEl \<Rightarrow> p))
      | KeyOn key shift \<Rightarrow> fst (keydown (key_of key shift) p)
      | FocusOn i \<Rightarrow> p\<lparr>active_element := Some (node_of i)\<rparr>
      | SetMatches b \<Rightarrow> p\<lparr>nav_mobile := b, nav_change_due := True\<rparr>
      | MediaChange \<Rightarrow> resetForViewport (p\<lparr>nav_change_due := False\<rparr>))"

lemma nav_abs_simps [simp]:
  "nav_mobile (nav_abs due d) = fd_matches d" "sidebar_open (nav_abs due d) = sidebar_shown d"
  "user_menus_open (nav_abs due d) = []" "sidebar_items (nav_abs due d) = fake_items"
  "active_element (nav_abs due d) = map_option node_of (fd_active d)" "length (openers (nav_abs due d)) = 1"
  "nav_change_due (nav_abs due d) = due"
  by (simp_all add: nav_abs_def)

lemma fake_focusable_wired: "wired d \<Longrightarrow> fake_focusable d = [CloseEl, NavLinkEl]"
  by (simp add: fake_focusable_def query_all_sidebar_def focusable_selector_def wired_def)

lemma focusable_items: "sidebar_items p = fake_items \<Longrightarrow> focusableElements p = [0, 1]"
  by (simp add: focusableElements_def fake_items_def upt_rec)

lemma active_is: "map_option node_of x = Some (node_of i) \<longleftrightarrow> x = Some i"
  by (cases x) simp_all

lemma keydown_abs:
  assumes "wired d" and "fake_keydown (keyboardEvent key shift) d = (e, d')"
  shows "nav_abs due d' = fst (keydown (key_of key shift) (nav_abs due d))"
    and "ke_prevented e = snd (keydown (key_of key shift) (nav_abs due d))" and "wired d'"
proof -
  have f: "focusableElements (nav_abs due d) = [0, 1]" by (simp add: focusable_items)
  have close: "Some (NavItem 0) = Some (node_of CloseEl)" "Some (NavItem (Suc 0)) = Some (node_of NavLinkEl)"
    by (simp_all add: node_of_def)
  note focus = abs_targets(2) abs_targets(3) [unfolded One_nat_def]
  have menus: "(nav_abs due d)\<lparr>user_menus_open := []\<rparr> = nav_abs due d" by (simp add: nav_abs_def)
  note unfolded = fake_keydown_def keyboardEvent_def keydown_def key_of_def Let_def prevent_def f focus close menus
    active_is fake_focusable_wired [OF assms(1)] setOpen_abs [OF assms(1)]
  show "nav_abs due d' = fst (keydown (key_of key shift) (nav_abs due d))"
    "ke_prevented e = snd (keydown (key_of key shift) (nav_abs due d))" "wired d'"
    using assms by (auto simp: unfolded simp del: focus_simps(1) split: if_splits)
qed

lemma fake_step_abs:
  assumes "wired d" and "fake_step ev (e, d) = (e', d')"
  shows "nav_abs (nav_change_due (nav_event ev (nav_abs due d))) d' = nav_event ev (nav_abs due d) \<and> wired d' \<and>
    (\<forall>key shift. ev = KeyOn key shift \<longrightarrow>
       ke_prevented e' = snd (keydown (key_of key shift) (nav_abs due d)))"
proof (cases ev)
  case (Dispatch i type)
  define d1 where "d1 = d\<lparr>fd_lastOpener := Some OpenerEl\<rparr>"
  have d1: "wired d1" "nav_abs due d1 = (nav_abs due d)\<lparr>lastOpener := Some 0\<rparr>" "sidebar_shown d1 = sidebar_shown d"
    using assms(1) by (simp_all add: d1_def wired_def nav_abs_def sidebar_shown_def)
  have due: "nav_change_due (setOpen b r p) = nav_change_due p" for b r p
    by (simp add: setOpen_def Let_def focus_item_def focus_opener_def split: option.split)
  have l: "fe_listeners (fd_element d i) type = (if type = ''click'' then click_listeners i else [])"
    using assms(1) by (simp add: wired_def)
  have "d' = snd (fold run_listener (if type = ''click'' then click_listeners i else []) (no_event, d))"
    using assms(2) by (simp add: Dispatch fake_step_def l)
  with assms(1) d1 show ?thesis
    by (cases i)
      (auto simp: Dispatch nav_event_def click_listeners_def run_listener_def opener_click_def close_click_def
        link_click_def Let_def due setOpen_abs d1_def [symmetric])
next
  case (KeyOn key shift)
  have key: "fake_keydown (keyboardEvent key shift) d = (e', d')"
    using assms by (simp add: KeyOn fake_step_def wired_def run_listener_def)
  note k = keydown_abs(1,2) [OF assms(1) key, where due = due] keydown_abs(3) [OF assms(1) key]
  have "nav_change_due (fst (keydown (key_of key shift) (nav_abs due d))) = due"
    by (simp add: k(1) [symmetric])
  then show ?thesis using k by (simp add: KeyOn nav_event_def)
next
  case (FocusOn i)
  with assms show ?thesis by (auto simp: fake_step_def nav_event_def)
next
  case (SetMatches b)
  with assms show ?thesis by (auto simp: fake_step_def nav_event_def nav_abs_def sidebar_shown_def wired_def)
next
  case MediaChange
  have m: "(nav_abs due d)\<lparr>nav_change_due := False\<rparr> = nav_abs False d" by (simp add: nav_abs_def)
  have "d' = (if \<not> fd_matches d then fake_setOpen False False d else d)"
    using assms by (simp add: MediaChange fake_step_def wired_def run_listener_def)
  moreover have "nav_change_due (setOpen False False p) = nav_change_due p" for p
    by (simp add: setOpen_def Let_def)
  ultimately show ?thesis
    using assms(1) setOpen_abs [OF assms(1), of False] by (simp add: MediaChange nav_event_def m resetForViewport_def)
qed

text \<open>Every event of the test is an event of the model.\<close>

lemma nav_event_step: "openers p \<noteq> [] \<Longrightarrow> nav_step\<^sup>*\<^sup>* p (nav_event ev p)"
proof (cases ev)
  case (Dispatch i type)
  assume "openers p \<noteq> []"
  then have "0 < length (openers p)" by simp
  then show ?thesis
    by (cases i) (auto simp: Dispatch nav_event_def intro: nav_step.intros)
qed (auto simp: nav_event_def intro!: r_into_rtranclp nav_step.intros split: if_splits)

definition nav_start :: nav_page where
  "nav_start = nav_abs False (fake_setup new_document)"

lemma nav_start_loaded: "nav_loaded nav_start"
  unfolding nav_start_def fake_setup_eq
  by (simp add: nav_loaded_def nav_abs_def sidebar_shown_def class_contains_def new_document_def new_element_def
      get_attribute_def)

lemma fake_run_abs:
  assumes "wired d"
  shows "wired (snd (fold fake_step evs (e, d))) \<and>
    (let p = fold nav_event evs (nav_abs due d)
     in nav_abs (nav_change_due p) (snd (fold fake_step evs (e, d))) = p \<and> nav_step\<^sup>*\<^sup>* (nav_abs due d) p)"
  using assms
proof (induction evs arbitrary: e d due)
  case (Cons ev evs)
  obtain e' d' where step: "fake_step ev (e, d) = (e', d')" by (cases "fake_step ev (e, d)")
  have abs: "nav_event ev (nav_abs due d) = nav_abs (nav_change_due (nav_event ev (nav_abs due d))) d'" "wired d'"
    using fake_step_abs [OF Cons.prems step, of due] by simp_all
  have "openers (nav_abs due d) \<noteq> []" by (simp add: nav_abs_def)
  then have "nav_step\<^sup>*\<^sup>* (nav_abs due d) (nav_event ev (nav_abs due d))" by (rule nav_event_step)
  moreover from Cons.IH [OF abs(2), of e' "nav_change_due (nav_event ev (nav_abs due d))"]
  have "wired (snd (fold fake_step evs (e', d')))"
    "let p = fold nav_event evs (nav_event ev (nav_abs due d))
     in nav_abs (nav_change_due p) (snd (fold fake_step evs (e', d'))) = p \<and>
       nav_step\<^sup>*\<^sup>* (nav_event ev (nav_abs due d)) p"
    by (simp_all only: abs(1) [symmetric] simp_thms)
  ultimately show ?case by (auto simp: step Let_def intro: rtranclp_trans)
qed simp

text \<open>C29: 
  The two models of the navigation agree: after any events, the document on which the script was run
  statement by statement is the page that the operations on flags reach, and that page is reachable,
  so that in the document the class of the sidebar, the class of the body and the attribute of the
  opener always agree.
\<close>

theorem navigation_refined:
  "(let d = snd (fold fake_step evs (no_event, fake_setup new_document));
        p = fold nav_event evs nav_start
    in nav_abs (nav_change_due p) d = p \<and> nav_step\<^sup>*\<^sup>* nav_start p \<and>
       class_contains ''navigation-open'' (fd_body d) = sidebar_shown d \<and>
       (get_attribute ''aria-expanded'' (fd_element d OpenerEl) = Some ''true'') = sidebar_shown d)"
proof -
  define d where "d = snd (fold fake_step evs (no_event, fake_setup new_document))"
  define p where "p = fold nav_event evs nav_start"
  have abs: "nav_abs (nav_change_due p) d = p" and steps: "nav_step\<^sup>*\<^sup>* nav_start p"
    using fake_run_abs [OF fake_setup_wired, of evs no_event False] by (simp_all add: d_def p_def nav_start_def Let_def)
  have "nav_inv (nav_abs (nav_change_due p) d)"
    unfolding abs by (rule nav_steps_inv [OF steps nav_loaded_inv [OF nav_start_loaded]])
  then have "class_contains ''navigation-open'' (fd_body d) = sidebar_shown d \<and>
      (get_attribute ''aria-expanded'' (fd_element d OpenerEl) = Some ''true'') = sidebar_shown d"
    by (simp add: nav_inv_def nav_abs_def)
  with abs steps show ?thesis by (simp add: d_def [symmetric] p_def [symmetric] Let_def)
qed

section \<open>The script of the test\<close>

text \<open>A line of the test: an event, or an assertion with its message.\<close>

datatype test_line = Do fake_event | Assert "key_event \<times> fake_document \<Rightarrow> bool" string

fun run_test :: "test_line list \<Rightarrow> key_event \<times> fake_document \<Rightarrow> string + (key_event \<times> fake_document)" where
  "run_test [] s = Inr s"
| "run_test (Do ev # ls) s = run_test ls (fake_step ev s)"
| "run_test (Assert P message # ls) s = (if P s then run_test ls s else Inl message)"

definition drawer_open :: "key_event \<times> fake_document \<Rightarrow> bool" where
  "drawer_open s \<longleftrightarrow> class_contains ''open'' (fe_classes (fd_element (snd s) SidebarEl))"

definition body_locked :: "key_event \<times> fake_document \<Rightarrow> bool" where
  "body_locked s \<longleftrightarrow> class_contains ''navigation-open'' (fd_body (snd s))"

definition expanded_is :: "string \<Rightarrow> key_event \<times> fake_document \<Rightarrow> bool" where
  "expanded_is v s \<longleftrightarrow> get_attribute ''aria-expanded'' (fd_element (snd s) OpenerEl) = Some v"

definition focus_on :: "fake_id \<Rightarrow> key_event \<times> fake_document \<Rightarrow> bool" where
  "focus_on i s \<longleftrightarrow> fd_active (snd s) = Some i"

definition prevented :: "key_event \<times> fake_document \<Rightarrow> bool" where
  "prevented s \<longleftrightarrow> ke_prevented (fst s)"

definition interaction_test :: "test_line list" where
  "interaction_test =
     [Do (Dispatch OpenerEl ''click''),
      Assert drawer_open ''menu toggle did not open the mobile drawer'',
      Assert body_locked ''opening the drawer did not lock body scrolling'',
      Assert (expanded_is ''true'') ''opener did not expose expanded state'',
      Assert (focus_on CloseEl) ''opening the drawer did not move focus to its close control'',
      Do (FocusOn NavLinkEl),
      Do (KeyOn ''Tab'' False),
      Assert (\<lambda>s. prevented s \<and> focus_on CloseEl s) ''forward Tab did not wrap inside the drawer'',
      Do (FocusOn CloseEl),
      Do (KeyOn ''Tab'' True),
      Assert (\<lambda>s. prevented s \<and> focus_on NavLinkEl s) ''Shift+Tab did not wrap inside the drawer'',
      Do (KeyOn ''Escape'' False),
      Assert prevented ''Escape was not handled while the drawer was open'',
      Assert (\<lambda>s. \<not> drawer_open s) ''Escape did not close the drawer'',
      Assert (\<lambda>s. \<not> body_locked s) ''closing the drawer did not restore body scrolling'',
      Assert (expanded_is ''false'') ''opener did not expose collapsed state'',
      Assert (focus_on OpenerEl) ''closing the drawer did not return focus to its opener'',
      Do (Dispatch OpenerEl ''click''),
      Do (Dispatch BackdropEl ''click''),
      Assert (\<lambda>s. \<not> drawer_open s) ''backdrop did not close the drawer'',
      Assert (focus_on OpenerEl) ''backdrop close did not return focus to the opener'',
      Do (Dispatch OpenerEl ''click''),
      Do (Dispatch NavLinkEl ''click''),
      Assert (\<lambda>s. \<not> drawer_open s) ''selecting a navigation link did not close the drawer'',
      Assert (\<lambda>s. \<not> body_locked s) ''navigation did not release the body scroll lock'',
      Do (Dispatch OpenerEl ''click''),
      Do (SetMatches False),
      Do MediaChange,
      Assert (\<lambda>s. \<not> drawer_open s) ''desktop resize did not reset the mobile drawer'',
      Assert (\<lambda>s. \<not> body_locked s) ''desktop resize left the body scroll lock active'']"

text \<open>The elements one by one, so that a run is evaluated element by element.\<close>

definition elements ::
  "fake_element \<Rightarrow> fake_element \<Rightarrow> fake_element \<Rightarrow> fake_element \<Rightarrow> fake_element \<Rightarrow> fake_id \<Rightarrow> fake_element" where
  "elements a b c d e i = (case i of SidebarEl \<Rightarrow> a | OpenerEl \<Rightarrow> b | CloseEl \<Rightarrow> c | BackdropEl \<Rightarrow> d | NavLinkEl \<Rightarrow> e)"

lemma elements_simps [simp]:
  "elements a b c d e SidebarEl = a" "elements a b c d e OpenerEl = b" "elements a b c d e CloseEl = c"
  "elements a b c d e BackdropEl = d" "elements a b c d e NavLinkEl = e"
  "(elements a b c d e)(SidebarEl := x) = elements x b c d e" "(elements a b c d e)(OpenerEl := x) = elements a x c d e"
  "(elements a b c d e)(CloseEl := x) = elements a b x d e" "(elements a b c d e)(BackdropEl := x) = elements a b c x e"
  "(elements a b c d e)(NavLinkEl := x) = elements a b c d x"
  by (simp_all add: elements_def fun_eq_iff split: fake_id.split)

definition listening :: "fake_id \<Rightarrow> fake_element" where
  "listening i = new_element\<lparr>fe_listeners := (\<lambda>t. if t = ''click'' then click_listeners i else [])\<rparr>"

lemma fake_setup_elements:
  "fake_setup new_document = new_document\<lparr>
     fd_element := elements (listening SidebarEl) (listening OpenerEl) (listening CloseEl) (listening BackdropEl)
       (listening NavLinkEl),
     fd_listeners := (\<lambda>t. if t = ''keydown'' then [KeydownListener] else []), fd_media := [ViewportListener]\<rparr>"
proof -
  have "(\<lambda>i. new_element\<lparr>fe_listeners := (\<lambda>t. if t = ''click'' then click_listeners i else [])\<rparr>) =
      elements (listening SidebarEl) (listening OpenerEl) (listening CloseEl) (listening BackdropEl) (listening NavLinkEl)"
    by (rule ext) (auto simp: elements_def listening_def split: fake_id.split)
  then show ?thesis unfolding fake_setup_eq by simp
qed

text \<open>
  The interaction test of the repository passes on the model: every assertion of the script holds when it
  is reached.
\<close>

theorem interaction_test_passes:
  "\<exists>s. run_test interaction_test (no_event, fake_setup new_document) = Inr s"
  unfolding fake_setup_elements interaction_test_def
  by (simp add: fake_step_def run_listener_def fake_setOpen_eq drawer_set_def Let_def upd_element_def
      fake_focus_def fake_keydown_def keyboardEvent_def prevent_def sidebar_shown_def class_toggle_def
      class_contains_def set_attribute_def get_attribute_def has_attribute_def bool_string_def
      fake_focusable_def query_all_sidebar_def focusable_selector_def drawer_open_def body_locked_def
      expanded_is_def focus_on_def prevented_def listening_def click_listeners_def new_document_def
      new_element_def)

end
