(* ===== verification/TimeTest.thy ===== *)
theory TimeTest
  imports TimeFormat "HOL-Library.Sublist"
begin

text \<open>
  How \<^verbatim>\<open>web/static/time.js\<close> installs itself, and the test \<^verbatim>\<open>scripts/time-formatter-test.js\<close>. What the test
  asserts about the texts of the engine are regular expressions, for which there is a small matcher;
  the rest of its assertions is about the script alone.
\<close>

section \<open>Installation\<close>

text \<open>
  The script is loaded as a module (in the test) or by a page; a page may still be loading. The formatter is
  always put on the root object; \<open>tp_pending\<close> is the listener for \<^verbatim>\<open>DOMContentLoaded\<close>, which runs once.
\<close>

record time_page =
  tp_loading :: bool
  tp_elements :: "time_element list"
  tp_pending :: bool

record time_root =
  tr_exported :: bool
  tr_installed :: bool
  tr_document :: "time_page option"

definition install_time :: "date_engine \<Rightarrow> bool \<Rightarrow> time_root \<Rightarrow> time_root" where
  "install_time e has_module root =
     (let root1 = root\<lparr>tr_exported := has_module, tr_installed := True\<rparr>
      in case tr_document root1 of
           None \<Rightarrow> root1
         | Some page \<Rightarrow>
             (if tp_loading page then root1\<lparr>tr_document := Some (page\<lparr>tp_pending := True\<rparr>)\<rparr>
              else root1\<lparr>tr_document := Some (page\<lparr>tp_elements := map (apply_element e) (tp_elements page)\<rparr>)\<rparr>))"

text \<open>The end of the parsing: the elements parsed since are added, then the listener runs.\<close>

definition content_loaded :: "date_engine \<Rightarrow> time_element list \<Rightarrow> time_page \<Rightarrow> time_page" where
  "content_loaded e parsed page =
     (let els = tp_elements page @ parsed
      in page\<lparr>tp_loading := False, tp_pending := False,
           tp_elements := (if tp_pending page then map (apply_element e) els else els)\<rparr>)"

text \<open>
  Whether the script runs while the page is being parsed or after it, every element of the page is formatted,
  and once: formatting the page again changes nothing.
\<close>

theorem time_installed_formats:
  "(case tr_document (install_time e m (root\<lparr>tr_document := Some \<lparr>tp_loading = True, tp_elements = before, tp_pending = False\<rparr>\<rparr>)) of
      None \<Rightarrow> False
    | Some page \<Rightarrow> tp_elements (content_loaded e parsed page) = map (apply_element e) (before @ parsed)) \<and>
   tr_document (install_time e m (root\<lparr>tr_document := Some \<lparr>tp_loading = False, tp_elements = before @ parsed, tp_pending = False\<rparr>\<rparr>)) =
     Some \<lparr>tp_loading = False, tp_elements = map (apply_element e) (before @ parsed), tp_pending = False\<rparr> \<and>
   map (apply_element e) (map (apply_element e) (before @ parsed)) = map (apply_element e) (before @ parsed)"
  by (simp add: install_time_def content_loaded_def Let_def apply_element_idem)

section \<open>Regular expressions\<close>

datatype regex = Chars jstr | Spaces | Cat regex regex | Alt regex regex | Maybe regex

definition fold_case :: "bool \<Rightarrow> jchar \<Rightarrow> jchar" where
  "fold_case ignore c = (if ignore \<and> 0x41 \<le> c \<and> c \<le> 0x5A then c + 32 else c)"

text \<open>The texts that can be left after a match at the start.\<close>

fun after :: "bool \<Rightarrow> regex \<Rightarrow> jstr \<Rightarrow> jstr list" where
  "after i (Chars p) s =
     (if map (fold_case i) (take (length p) s) = map (fold_case i) p then [drop (length p) s] else [])"
| "after i Spaces s = map (\<lambda>n. drop n s) [0..<Suc (length (takeWhile is_white s))]"
| "after i (Cat a b) s = concat (map (after i b) (after i a s))"
| "after i (Alt a b) s = after i a s @ after i b s"
| "after i (Maybe a) s = after i a s @ [s]"

fun search :: "bool \<Rightarrow> regex \<Rightarrow> jstr \<Rightarrow> bool" where
  "search i r [] \<longleftrightarrow> after i r [] \<noteq> []"
| "search i r (c # s) \<longleftrightarrow> after i r (c # s) \<noteq> [] \<or> search i r s"

section \<open>The test\<close>

definition re_local_time :: regex where
  "re_local_time = Cat (Chars (js ''3:30:00'')) (Cat Spaces (Chars (js ''AM'')))"

definition re_zone :: regex where
  "re_zone = Alt (Chars (js ''GMT'')) (Alt (Chars (js ''UTC''))
     (Cat (Chars (js ''+03'')) (Cat (Maybe (Chars (js '':''))) (Chars (js ''30'')))))"

definition re_persian_year :: regex where
  "re_persian_year = Chars [0x6F1, 0x6F4, 0x6F0, 0x6F5]"

definition re_persian_month :: regex where
  "re_persian_month = Chars [0x645, 0x631, 0x62F, 0x627, 0x62F]"

definition re_persian_time :: regex where
  "re_persian_time = Chars [0x6F1, 0x6F6, 0x3A, 0x6F3, 0x6F3]"

definition re_english_time :: regex where
  "re_english_time = Cat (Chars (js ''4:33'')) (Cat Spaces (Chars (js ''PM'')))"

definition no_options :: format_options where
  "no_options = \<lparr>emptyLabel = None, invalidLabel = None, opt_preset = None, timeZone = None, locale_tag = None\<rparr>"

definition instant :: jstr where
  "instant = js ''2026-01-01T00:00:00Z''"

definition knownRecipientUTC :: jstr where
  "knownRecipientUTC = js ''2026-08-10T13:03:00Z''"

definition local_options :: format_options where
  "local_options = no_options\<lparr>locale_tag := Some (js ''en-US''), timeZone := Some (js ''Asia/Tehran'')\<rparr>"

definition recipient_options :: "string \<Rightarrow> format_options" where
  "recipient_options locale = no_options\<lparr>locale_tag := Some (js locale), opt_preset := Some (js ''recipient''),
     timeZone := Some (js ''Asia/Tehran'')\<rparr>"

text \<open>The assertions in their order; the script ends with an exception at the first that fails.\<close>

definition time_checks :: "date_engine \<Rightarrow> bool list" where
  "time_checks e =
     (let text = (\<lambda>s. Some (JStr s));
          local = format_time e (text instant) local_options;
          persian = format_time e (text knownRecipientUTC) (recipient_options ''fa-IR-u-ca-persian'');
          english = format_time e (text knownRecipientUTC) (recipient_options ''en-US-u-ca-gregory'');
          recipient = no_options\<lparr>opt_preset := Some (js ''recipient'')\<rparr>;
          el = \<lparr>te_tag = ''TIME'', te_text = [], te_attrs = (\<lambda>_. None)\<rparr>;
          el1 = render_time e el (text instant) local_options;
          el2 = render_time e el1 (text knownRecipientUTC) (recipient_options ''fa-IR-u-ca-persian'')
      in [search True re_local_time local,
          search True re_zone local,
          format_time e (Some JNull) (no_options\<lparr>emptyLabel := Some (js ''Never'')\<rparr>) = js ''Never'',
          format_time e (text (js ''not-a-timestamp'')) no_options = js ''Invalid date'',
          search False re_persian_year persian,
          search False re_persian_month persian,
          search False re_persian_time persian,
          \<not> search False (Chars (js ''2026'')) persian,
          search True (Chars (js ''August 10, 2026'')) english,
          search True re_english_time english,
          format_time e (Some JNull) (recipient\<lparr>emptyLabel := Some (js ''Unavailable'')\<rparr>) = js ''Unavailable'',
          format_time e (text (js ''not-a-timestamp''))
            (recipient\<lparr>invalidLabel := Some (js ''Invalid recipient date'')\<rparr>) = js ''Invalid recipient date'',
          te_attrs el1 ''title'' = Some instant,
          te_attrs el1 ''datetime'' = Some instant,
          te_attrs el1 ''data-local-time'' = Some instant,
          search True re_local_time (te_text el1),
          te_attrs el2 ''datetime'' = Some knownRecipientUTC,
          te_attrs el2 ''title'' = Some knownRecipientUTC,
          search False re_persian_year (te_text el2)])"

definition time_test_passes :: "date_engine \<Rightarrow> bool" where
  "time_test_passes e \<longleftrightarrow> list_all id (time_checks e)"

text \<open>What the test asks of the engine: its three texts.\<close>

definition engine_texts :: "jstr \<Rightarrow> jstr \<Rightarrow> jstr \<Rightarrow> bool" where
  "engine_texts local persian english \<longleftrightarrow>
     search True re_local_time local \<and> search True re_zone local \<and>
     search False re_persian_year persian \<and> search False re_persian_month persian \<and>
     search False re_persian_time persian \<and> \<not> search False (Chars (js ''2026'')) persian \<and>
     search True (Chars (js ''August 10, 2026'')) english \<and> search True re_english_time english"

definition tehran :: "(string \<times> jstr) list" where
  "tehran = [(''timeZone'', js ''Asia/Tehran'')]"

lemma instants: "trim instant = instant" "trim knownRecipientUTC = knownRecipientUTC"
  "trim (js ''not-a-timestamp'') = js ''not-a-timestamp''" "instant \<noteq> []" "knownRecipientUTC \<noteq> []"
  by (simp_all add: instant_def knownRecipientUTC_def text_literals)

lemma format_text:
  "trim s = s \<Longrightarrow> s \<noteq> [] \<Longrightarrow> parse_date e s = Some t \<Longrightarrow> timeZone opts = Some (js ''Asia/Tehran'') \<Longrightarrow>
   intl_format e (locale_tag opts) ((if opt_preset opts = Some (js ''recipient'') then RECIPIENT_OPTIONS
     else DEFAULT_OPTIONS) @ tehran) t = Some text \<Longrightarrow>
   format_time e (Some (JStr s)) opts = text"
  by (simp add: format_time_def date_of_def string_or_empty_def tehran_def Let_def)

lemma format_null: "format_time e (Some JNull) opts = or_default (emptyLabel opts) (js ''Never'')"
  by (simp add: format_time_def)

lemma format_invalid:
  "trim s = s \<Longrightarrow> s \<noteq> [] \<Longrightarrow> parse_date e s = None \<Longrightarrow>
   format_time e (Some (JStr s)) opts = or_default (invalidLabel opts) (js ''Invalid date'')"
  by (simp add: format_time_def date_of_def)

text \<open>
  With an engine that parses the two ISO texts of the test and not the third, the test depends on the engine's
  texts alone: it passes exactly when they match the patterns. Everything else it asserts (the labels, the
  attributes, the trimming) holds of the script.
\<close>

theorem time_test_characterised:
  assumes "parse_date e instant = Some 1767225600000" and "parse_date e knownRecipientUTC = Some 1786366980000"
    and "parse_date e (js ''not-a-timestamp'') = None"
    and "intl_format e (Some (js ''en-US'')) (DEFAULT_OPTIONS @ tehran) 1767225600000 = Some local"
    and "intl_format e (Some (js ''fa-IR-u-ca-persian'')) (RECIPIENT_OPTIONS @ tehran) 1786366980000 = Some persian"
    and "intl_format e (Some (js ''en-US-u-ca-gregory'')) (RECIPIENT_OPTIONS @ tehran) 1786366980000 = Some english"
  shows "time_test_passes e \<longleftrightarrow> engine_texts local persian english"
proof -
  have texts: "format_time e (Some (JStr instant)) local_options = local"
    "format_time e (Some (JStr knownRecipientUTC)) (recipient_options ''fa-IR-u-ca-persian'') = persian"
    "format_time e (Some (JStr knownRecipientUTC)) (recipient_options ''en-US-u-ca-gregory'') = english"
    using assms
    by (intro format_text; simp add: instants local_options_def recipient_options_def no_options_def)+
  have invalid: "format_time e (Some (JStr (js ''not-a-timestamp''))) opts =
      or_default (invalidLabel opts) (js ''Invalid date'')" for opts
    by (rule format_invalid) (simp_all add: instants assms(3))
  show ?thesis
    by (auto simp: time_test_passes_def time_checks_def Let_def texts format_null invalid te_attrs_render
        te_text_render instants engine_texts_def no_options_def)
qed

definition sample_engine :: date_engine where
  "sample_engine =
     \<lparr>parse_date = (\<lambda>s. if s = instant then Some 1767225600000
        else if s = knownRecipientUTC then Some 1786366980000 else None),
      intl_format = (\<lambda>locale opts t. if locale = Some (js ''en-US'') then Some (js ''Jan 01, 2026, 03:30:00 AM GMT+3:30'')
        else if locale = Some (js ''en-US-u-ca-gregory'') then Some (js ''August 10, 2026 at 04:33 PM'')
        else Some ([0x6F1, 0x6F9, 0x20, 0x645, 0x631, 0x62F, 0x627, 0x62F, 0x20, 0x6F1, 0x6F4, 0x6F0, 0x6F5,
          0x60C, 0x20, 0x6F1, 0x6F6, 0x3A, 0x6F3, 0x6F3]))\<rparr>"

theorem time_test_characterised_witness: "time_test_passes sample_engine"
proof -
  have parses: "parse_date sample_engine instant = Some 1767225600000"
    "parse_date sample_engine knownRecipientUTC = Some 1786366980000"
    "parse_date sample_engine (js ''not-a-timestamp'') = None"
    by (simp_all add: sample_engine_def instant_def knownRecipientUTC_def)
  have "engine_texts (js ''Jan 01, 2026, 03:30:00 AM GMT+3:30'')
      [0x6F1, 0x6F9, 0x20, 0x645, 0x631, 0x62F, 0x627, 0x62F, 0x20, 0x6F1, 0x6F4, 0x6F0, 0x6F5,
       0x60C, 0x20, 0x6F1, 0x6F6, 0x3A, 0x6F3, 0x6F3] (js ''August 10, 2026 at 04:33 PM'')"
    by code_simp
  then show ?thesis
    by (subst time_test_characterised [OF parses]) (simp_all add: sample_engine_def)
qed

end
