(* ===== verification/GoBytes.thy ===== *)
theory GoBytes
  imports Main "HOL-Library.Word"
begin

text \<open>
  The part of the Go language and library that the server code uses on byte strings: literals,
  \<^verbatim>\<open>strings.Split\<close> and \<^verbatim>\<open>SplitN\<close>, decimal numbers (\<^verbatim>\<open>%d\<close>, \<^verbatim>\<open>strconv.ParseUint\<close>), and the two unpadded
  encodings of \<^verbatim>\<open>encoding/base64\<close>.
\<close>

type_synonym byte = "8 word"
type_synonym bytes = "8 word list"
type_synonym uuid = "128 word"

definition ascii :: "string \<Rightarrow> bytes" where
  "ascii s = map of_char s"

definition byte_of :: "char \<Rightarrow> byte" where
  "byte_of c = of_char c"

lemma ascii_Nil [simp]: "ascii [] = []"
  by (simp add: ascii_def)

lemma ascii_append: "ascii (s @ t) = ascii s @ ascii t"
  by (simp add: ascii_def)

lemma length_ascii [simp]: "length (ascii s) = length s"
  by (simp add: ascii_def)

section \<open>Splitting\<close>

text \<open>\<^verbatim>\<open>strings.Split(s, sep)\<close> for a separator of one byte.\<close>

fun split_on :: "byte \<Rightarrow> bytes \<Rightarrow> bytes list" where
  "split_on sep [] = [[]]"
| "split_on sep (c # s) =
     (if c = sep then [] # split_on sep s
      else (case split_on sep s of [] \<Rightarrow> [[c]] | p # ps \<Rightarrow> (c # p) # ps))"

lemma split_on_nonempty [simp]: "split_on sep s \<noteq> []"
  by (cases s) (auto split: list.split)

lemma split_on_none: "sep \<notin> set s \<Longrightarrow> split_on sep s = [s]"
  by (induction s) auto

lemma split_on_append: "sep \<notin> set s \<Longrightarrow> split_on sep (s @ sep # t) = s # split_on sep t"
  by (induction s) auto

text \<open>\<^verbatim>\<open>strings.SplitN(s, sep, 2)\<close>.\<close>

definition split2 :: "byte \<Rightarrow> bytes \<Rightarrow> bytes list" where
  "split2 sep s =
     (if sep \<in> set s then [takeWhile (\<lambda>c. c \<noteq> sep) s, tl (dropWhile (\<lambda>c. c \<noteq> sep) s)] else [s])"

lemma split2_append: "sep \<notin> set s \<Longrightarrow> split2 sep (s @ sep # t) = [s, t]"
  by (simp add: split2_def takeWhile_append dropWhile_append)

section \<open>Decimal numbers\<close>

definition digit_byte :: "nat \<Rightarrow> byte" where
  "digit_byte d = word_of_nat (48 + d)"

fun decimal_digits :: "nat \<Rightarrow> bytes" where
  "decimal_digits n = (if n < 10 then [digit_byte n] else decimal_digits (n div 10) @ [digit_byte (n mod 10)])"

declare decimal_digits.simps [simp del]

definition byte_digit :: "byte \<Rightarrow> bool" where
  "byte_digit c \<longleftrightarrow> 48 \<le> unat c \<and> unat c \<le> 57"

definition digits_nat :: "bytes \<Rightarrow> nat" where
  "digits_nat s = foldl (\<lambda>n c. 10 * n + (unat c - 48)) 0 s"

text \<open>\<^verbatim>\<open>strconv.ParseUint(s, 10, bits)\<close>: digits only, and a value that fits.\<close>

definition ParseUint :: "nat \<Rightarrow> bytes \<Rightarrow> nat option" where
  "ParseUint bits s =
     (if s \<noteq> [] \<and> list_all byte_digit s \<and> digits_nat s < 2 ^ bits then Some (digits_nat s) else None)"

lemma unat_digit_byte: "d < 10 \<Longrightarrow> unat (digit_byte d) = 48 + d"
  unfolding digit_byte_def by (subst unat_of_nat) simp

lemma digits_nat_snoc: "digits_nat (s @ [c]) = 10 * digits_nat s + (unat c - 48)"
  by (simp add: digits_nat_def)

lemma decimal_digits_props:
  "decimal_digits n \<noteq> [] \<and> list_all byte_digit (decimal_digits n) \<and> digits_nat (decimal_digits n) = n"
proof (induction n rule: decimal_digits.induct)
  case (1 n)
  show ?case
  proof (cases "n < 10")
    case True
    then show ?thesis
      by (subst decimal_digits.simps, subst decimal_digits.simps, subst decimal_digits.simps)
        (simp add: byte_digit_def digits_nat_def unat_digit_byte)
  next
    case False
    have d: "decimal_digits n = decimal_digits (n div 10) @ [digit_byte (n mod 10)]"
      using False by (simp add: decimal_digits.simps [of n])
    show ?thesis
      using 1 [OF False] by (simp add: d digits_nat_snoc byte_digit_def unat_digit_byte)
  qed
qed

lemma ParseUint_decimal: "n < 2 ^ bits \<Longrightarrow> ParseUint bits (decimal_digits n) = Some n"
  using decimal_digits_props [of n] by (simp add: ParseUint_def)

section \<open>Base64 without padding\<close>

definition StdAlphabet :: bytes where
  "StdAlphabet = ascii ''ABCDEFGHIJKLMNOPQRSTUVWXYZabcdefghijklmnopqrstuvwxyz0123456789+/''"

definition URLAlphabet :: bytes where
  "URLAlphabet = ascii ''ABCDEFGHIJKLMNOPQRSTUVWXYZabcdefghijklmnopqrstuvwxyz0123456789-_''"

text \<open>\<^verbatim>\<open>EncodeToString\<close>: three bytes make four characters, a rest of one or two bytes two or three.\<close>

definition sextet :: "bytes \<Rightarrow> nat \<Rightarrow> nat \<Rightarrow> byte" where
  "sextet al n d = al ! (n div d mod 64)"

fun b64_encode :: "bytes \<Rightarrow> bytes \<Rightarrow> bytes" where
  "b64_encode al [] = []"
| "b64_encode al [a] = (let n = unat a * 65536 in [sextet al n 262144, sextet al n 4096])"
| "b64_encode al [a, b] =
     (let n = unat a * 65536 + unat b * 256 in [sextet al n 262144, sextet al n 4096, sextet al n 64])"
| "b64_encode al (a # b # c # s) =
     (let n = unat a * 65536 + unat b * 256 + unat c
      in [sextet al n 262144, sextet al n 4096, sextet al n 64, sextet al n 1] @ b64_encode al s)"

text \<open>
  \<^verbatim>\<open>DecodeString\<close>: carriage returns and line feeds are skipped, any other character must be in the
  alphabet, one character alone is an error, and the unused bits of a last group are ignored.
\<close>

definition sextet_value :: "bytes \<Rightarrow> byte \<Rightarrow> nat option" where
  "sextet_value al c = map_of (zip al [0..<64]) c"

fun octets :: "nat list \<Rightarrow> bytes option" where
  "octets [] = Some []"
| "octets [x] = None"
| "octets [x, y] = (let n = x * 262144 + y * 4096 in Some [word_of_nat (n div 65536)])"
| "octets [x, y, z] =
     (let n = x * 262144 + y * 4096 + z * 64
      in Some [word_of_nat (n div 65536), word_of_nat (n div 256 mod 256)])"
| "octets (x # y # z # w # s) =
     (let n = x * 262144 + y * 4096 + z * 64 + w
      in map_option (\<lambda>r. [word_of_nat (n div 65536), word_of_nat (n div 256 mod 256), word_of_nat (n mod 256)] @ r)
           (octets s))"

fun all_some :: "'a option list \<Rightarrow> 'a list option" where
  "all_some [] = Some []"
| "all_some (x # xs) = (case x of None \<Rightarrow> None | Some v \<Rightarrow> map_option (Cons v) (all_some xs))"

definition b64_decode :: "bytes \<Rightarrow> bytes \<Rightarrow> bytes option" where
  "b64_decode al s =
     (case all_some (map (sextet_value al) (filter (\<lambda>c. c \<noteq> 10 \<and> c \<noteq> 13) s)) of
        None \<Rightarrow> None
      | Some ns \<Rightarrow> octets ns)"

definition good_alphabet :: "bytes \<Rightarrow> bool" where
  "good_alphabet al \<longleftrightarrow> length al = 64 \<and> distinct al \<and> 10 \<notin> set al \<and> 13 \<notin> set al"

lemma good_alphabetI:
  "map unat al = ns \<Longrightarrow> distinct ns \<Longrightarrow> length ns = 64 \<Longrightarrow> 10 \<notin> set ns \<Longrightarrow> 13 \<notin> set ns \<Longrightarrow> good_alphabet al"
  unfolding good_alphabet_def by (force simp: distinct_map)

lemma alphabet_codes:
  "map unat StdAlphabet = [65..<91] @ [97..<123] @ [48..<58] @ [43, 47]"
  "map unat URLAlphabet = [65..<91] @ [97..<123] @ [48..<58] @ [45, 95]"
  by (simp_all add: StdAlphabet_def URLAlphabet_def ascii_def upt_rec)

lemma good_alphabets: "good_alphabet StdAlphabet" "good_alphabet URLAlphabet"
  by (rule good_alphabetI [OF alphabet_codes(1)], simp_all) (rule good_alphabetI [OF alphabet_codes(2)], simp_all)

lemma sextet_value_nth: "good_alphabet al \<Longrightarrow> i < 64 \<Longrightarrow> sextet_value al (al ! i) = Some i"
  by (auto simp: good_alphabet_def sextet_value_def map_of_zip_nth)

lemma sextet_in: "good_alphabet al \<Longrightarrow> sextet al n k \<in> set al"
  by (simp add: sextet_def good_alphabet_def)

lemma b64_encode_set: "good_alphabet al \<Longrightarrow> set (b64_encode al s) \<subseteq> set al"
  by (induction al s rule: b64_encode.induct) (auto simp: Let_def sextet_in)

text \<open>The sextets of the encoding, before they are written with the alphabet.\<close>

fun sextets :: "bytes \<Rightarrow> nat list" where
  "sextets [] = []"
| "sextets [a] = [unat a div 4, unat a mod 4 * 16]"
| "sextets [a, b] = [unat a div 4, unat a mod 4 * 16 + unat b div 16, unat b mod 16 * 4]"
| "sextets (a # b # c # s) =
     [unat a div 4, unat a mod 4 * 16 + unat b div 16, unat b mod 16 * 4 + unat c div 64, unat c mod 64]
     @ sextets s"

lemma byte_bound: "unat (a :: byte) < 256"
  using unsigned_less [where 'a = nat, of a] by simp

lemma sextets_bound: "\<forall>n \<in> set (sextets s). n < 64"
proof (induction s rule: sextets.induct)
  case (2 a) then show ?case using byte_bound [of a] by auto
next
  case (3 a b) then show ?case using byte_bound [of a] byte_bound [of b] by auto
next
  case (4 a b c s) then show ?case using byte_bound [of a] byte_bound [of b] byte_bound [of c] by auto
qed simp

lemma base_digits:
  fixes x y z w :: nat
  assumes "x < 64" "y < 64" "z < 64" "w < 64"
  shows "(x * 262144 + y * 4096 + z * 64 + w) div 262144 mod 64 = x"
    and "(x * 262144 + y * 4096 + z * 64 + w) div 4096 mod 64 = y"
    and "(x * 262144 + y * 4096 + z * 64 + w) div 64 mod 64 = z"
    and "(x * 262144 + y * 4096 + z * 64 + w) mod 64 = w"
proof -
  have step: "(m * 64 + d) div 64 = m" "(m * 64 + d) mod 64 = d" if "d < 64" for m d :: nat
    using that by simp_all
  let ?n1 = "(x * 64 + y) * 64 + z"
  have n: "x * 262144 + y * 4096 + z * 64 + w = ?n1 * 64 + w" by simp
  have d1: "(?n1 * 64 + w) div 64 = ?n1" by (rule step) (rule assms)
  have "(?n1 * 64 + w) div (64 * 64) = x * 64 + y"
    by (simp only: div_mult2_eq d1 step(1) [OF assms(3)])
  then have d2: "(?n1 * 64 + w) div 4096 = x * 64 + y" by simp
  have "(?n1 * 64 + w) div (64 * 64 * 64) = x"
    by (simp only: div_mult2_eq d1 step(1) [OF assms(3)] step(1) [OF assms(2)])
  then have d3: "(?n1 * 64 + w) div 262144 = x" by simp
  show "(x * 262144 + y * 4096 + z * 64 + w) div 262144 mod 64 = x"
    and "(x * 262144 + y * 4096 + z * 64 + w) div 4096 mod 64 = y"
    and "(x * 262144 + y * 4096 + z * 64 + w) div 64 mod 64 = z"
    and "(x * 262144 + y * 4096 + z * 64 + w) mod 64 = w"
    unfolding n d1 d2 d3 using assms(1) step(2) [OF assms(2), of x]
      step(2) [OF assms(3), of "x * 64 + y"] step(2) [OF assms(4), of ?n1]
    by (simp_all only: mod_less)
qed

lemma repack:
  fixes a b c :: nat
  shows "(a div 4) * 262144 + (a mod 4 * 16 + b div 16) * 4096 + (b mod 16 * 4 + c div 64) * 64 + c mod 64
    = a * 65536 + b * 256 + c"
proof -
  have "x1 * 262144 + (x0 * 16 + y1) * 4096 + (y0 * 4 + z1) * 64 + z0 = x * 65536 + y * 256 + z"
    if "x1 * 4 + x0 = x" "y1 * 16 + y0 = y" "z1 * 64 + z0 = z" for x1 x0 x y1 y0 y z1 z0 z :: nat
    using that by auto
  from this [of "a div 4" "a mod 4" a "b div 16" "b mod 16" b "c div 64" "c mod 64" c]
  show ?thesis by (simp only: div_mult_mod_eq)
qed

lemma sextet_arith:
  fixes a b c :: nat
  assumes "a < 256" "b < 256" "c < 256"
  shows "(a * 65536 + b * 256 + c) div 262144 mod 64 = a div 4"
    and "(a * 65536 + b * 256 + c) div 4096 mod 64 = a mod 4 * 16 + b div 16"
    and "(a * 65536 + b * 256 + c) div 64 mod 64 = b mod 16 * 4 + c div 64"
    and "(a * 65536 + b * 256 + c) div 1 mod 64 = c mod 64"
proof -
  have n: "a * 65536 + b * 256 + c = (a div 4) * 262144 + (a mod 4 * 16 + b div 16) * 4096 +
      (b mod 16 * 4 + c div 64) * 64 + c mod 64"
    by (rule repack [symmetric])
  have "a div 4 < 64" and "b div 16 < 16" and "c div 64 < 4" using assms by simp_all
  moreover have "a mod 4 < 4" and "b mod 16 < 16" and "c mod 64 < 64" by simp_all
  ultimately have lt: "a div 4 < 64" "a mod 4 * 16 + b div 16 < 64" "b mod 16 * 4 + c div 64 < 64"
    "c mod 64 < 64" by linarith+
  show "(a * 65536 + b * 256 + c) div 262144 mod 64 = a div 4"
    and "(a * 65536 + b * 256 + c) div 4096 mod 64 = a mod 4 * 16 + b div 16"
    and "(a * 65536 + b * 256 + c) div 64 mod 64 = b mod 16 * 4 + c div 64"
    and "(a * 65536 + b * 256 + c) div 1 mod 64 = c mod 64"
    unfolding n div_by_1 by (rule base_digits [OF lt])+
qed

lemmas sextet_arith1 = sextet_arith [where b = 0 and c = 0, unfolded mult_zero_left add_0_right]
lemmas sextet_arith2 = sextet_arith [where c = 0, unfolded mult_zero_left add_0_right]

lemma b64_encode_sextets: "b64_encode al s = map (\<lambda>n. al ! n) (sextets s)"
proof (induction al s rule: b64_encode.induct)
  case (2 al a)
  show ?case
    by (simp only: b64_encode.simps sextets.simps Let_def sextet_def list.map sextet_arith1 byte_bound
        zero_less_numeral div_0 add_0_right)
next
  case (3 al a b)
  show ?case
    by (simp only: b64_encode.simps sextets.simps Let_def sextet_def list.map sextet_arith2 byte_bound
        zero_less_numeral div_0 add_0_right)
next
  case (4 al a b c s)
  then show ?case
    by (simp only: b64_encode.simps sextets.simps Let_def sextet_def list.map map_append sextet_arith byte_bound)
qed simp

lemma octets_arith:
  fixes a b c :: nat
  assumes "a < 256" "b < 256" "c < 256"
  defines "n \<equiv> (a div 4) * 262144 + (a mod 4 * 16 + b div 16) * 4096 + (b mod 16 * 4 + c div 64) * 64 + c mod 64"
  shows "n div 65536 = a" and "n div 256 mod 256 = b" and "n mod 256 = c"
proof -
  have n: "n = (a * 256 + b) * 256 + c" unfolding n_def repack by simp
  have step: "(m * 256 + k) div 256 = m" "(m * 256 + k) mod 256 = k" if "k < 256" for m k :: nat
    using that by simp_all
  have d: "n div 256 = a * 256 + b" unfolding n by (rule step) (rule assms)
  have "n div (256 * 256) = a" by (simp only: div_mult2_eq d step(1) [OF assms(2)])
  then show "n div 65536 = a" by simp
  show "n div 256 mod 256 = b" unfolding d by (rule step) (rule assms)
  show "n mod 256 = c" unfolding n by (rule step) (rule assms)
qed

lemma octets_sextets: "octets (sextets s) = Some s"
proof (induction s rule: sextets.induct)
  case (2 a)
  then show ?case
    using octets_arith(1) [of "unat a" 0 0] byte_bound [of a] by (simp add: Let_def)
next
  case (3 a b)
  then show ?case
    using octets_arith [of "unat a" "unat b" 0] byte_bound [of a] byte_bound [of b] by (simp add: Let_def)
next
  case (4 a b c s)
  then show ?case
    by (simp only: sextets.simps append.simps octets.simps Let_def octets_arith [OF byte_bound byte_bound byte_bound]
        of_nat_unat ucast_id option.map)
qed simp

lemma all_some_map: "(\<And>x. x \<in> set xs \<Longrightarrow> f (g x) = Some x) \<Longrightarrow> all_some (map f (map g xs)) = Some xs"
  by (induction xs) auto

text \<open>Decoding undoes encoding, with any alphabet of 64 different characters.\<close>

lemma b64_decode_encode:
  assumes "good_alphabet al"
  shows "b64_decode al (b64_encode al s) = Some s"
proof -
  have keep: "filter (\<lambda>c. c \<noteq> 10 \<and> c \<noteq> 13) (b64_encode al s) = b64_encode al s"
    using b64_encode_set [OF assms, of s] assms by (auto simp: good_alphabet_def filter_id_conv)
  have "all_some (map (sextet_value al) (map (\<lambda>n. al ! n) (sextets s))) = Some (sextets s)"
    by (rule all_some_map) (use sextet_value_nth [OF assms] sextets_bound [of s] in blast)
  then show ?thesis
    unfolding b64_decode_def keep by (simp only: b64_encode_sextets option.case octets_sextets)
qed

lemma length_b64_encode: "length (b64_encode al s) = (4 * length s + 2) div 3"
  by (induction al s rule: b64_encode.induct) (simp_all add: Let_def)

end
