(* ===== verification/DeliveryStore.thy ===== *)
theory DeliveryStore
  imports GoBytes
begin

text \<open>
  The table of deliveries on the server: \<^verbatim>\<open>internal/delivery/repository.go\<close> over the columns of
  \<^verbatim>\<open>migrations/000001_create_secret_deliveries.sql\<close> and \<^verbatim>\<open>000004_add_payload_metadata.sql\<close>. A row is a record, the table a list of rows, and
  each operation the one SQL statement of the repository as a function of the table and the time that
  \<^verbatim>\<open>NOW()\<close> has in it; nothing relates the times of two operations. A statement is atomic, as PostgreSQL runs
  an \<^verbatim>\<open>UPDATE\<close> of one row. Times are microseconds, leases whole seconds. Errors of the connection are
  added where the operations are called, in \<open>DeliveryService\<close>.
\<close>

section \<open>Rows\<close>

datatype delivery_status = Active | Consuming | Consumed | Expired | Revoked

record delivery_row =
  dr_id :: uuid
  token_hash :: bytes
  encrypted_payload :: bytes
  dr_title :: "bytes option"
  dr_description :: "bytes option"
  dr_recipient_reference :: "bytes option"
  dr_status :: delivery_status
  expires_at :: int
  consumed_at :: "int option"
  revoked_at :: "int option"
  consuming_started_at :: "int option"
  consuming_lease_id :: "uuid option"
  password_hash :: "bytes option"
  failed_attempts :: nat
  max_failed_attempts :: nat
  created_by :: bytes
  payload_type :: bytes
  payload_field_count :: nat
  payload_contains_sensitive :: bool
  created_at :: int
  updated_at :: int

type_synonym delivery_table = "delivery_row list"

section \<open>Statements\<close>

text \<open>\<^verbatim>\<open>UPDATE ... WHERE ... RETURNING\<close>: the table and the rows written. The trigger sets \<open>updated_at\<close>.\<close>

definition update_where ::
  "int \<Rightarrow> (delivery_row \<Rightarrow> bool) \<Rightarrow> (delivery_row \<Rightarrow> delivery_row) \<Rightarrow> delivery_table \<Rightarrow>
   delivery_table \<times> delivery_row list" where
  "update_where now P f rows =
     (let write = (\<lambda>r. (f r)\<lparr>updated_at := now\<rparr>)
      in (map (\<lambda>r. if P r then write r else r) rows, map write (filter P rows)))"

definition first_row :: "delivery_row list \<Rightarrow> delivery_row option" where
  "first_row rs = (case rs of [] \<Rightarrow> None | r # _ \<Rightarrow> Some r)"

text \<open>\<^verbatim>\<open>consuming_started_at < NOW() - make_interval(secs => lease)\<close>, false for \<^verbatim>\<open>NULL\<close>.\<close>

definition stale_lease :: "int \<Rightarrow> int \<Rightarrow> delivery_row \<Rightarrow> bool" where
  "stale_lease now lease r \<longleftrightarrow>
     (case consuming_started_at r of None \<Rightarrow> False | Some t \<Rightarrow> t < now - 1000000 * lease)"

text \<open>The condition shared by the three statements of a consume.\<close>

definition consumable :: "int \<Rightarrow> int \<Rightarrow> delivery_row \<Rightarrow> bool" where
  "consumable now lease r \<longleftrightarrow>
     now < expires_at r \<and> failed_attempts r < max_failed_attempts r \<and>
     (dr_status r = Active \<or> dr_status r = Consuming \<and> stale_lease now lease r)"

definition clear_lease :: "delivery_row \<Rightarrow> delivery_row" where
  "clear_lease r = r\<lparr>consuming_started_at := None, consuming_lease_id := None\<rparr>"

text \<open>
  \<^verbatim>\<open>INSERT\<close>: refused by the primary key, the uniqueness and length of the token hash, or the range of the
  attempts. The columns it does not name have their defaults.
\<close>

record insert_params =
  ip_id :: uuid
  ip_token_hash :: bytes
  ip_encrypted_payload :: bytes
  ip_title :: bytes
  ip_description :: bytes
  ip_recipient_reference :: bytes
  ip_expires_at :: int
  ip_password_hash :: "bytes option"
  ip_max_failed_attempts :: nat
  ip_created_by :: bytes
  ip_payload_type :: bytes
  ip_payload_field_count :: nat
  ip_contains_sensitive :: bool

definition emptyToNil :: "bytes \<Rightarrow> bytes option" where
  "emptyToNil s = (if s = [] then None else Some s)"

text \<open>The values that the column \<^verbatim>\<open>payload_type\<close> admits: \<^verbatim>\<open>structured\<close>, \<^verbatim>\<open>text\<close> and \<^verbatim>\<open>json\<close>.\<close>

definition payload_types :: "bytes set" where
  "payload_types = {ascii ''structured'', ascii ''text'', ascii ''json''}"

definition new_row :: "int \<Rightarrow> insert_params \<Rightarrow> delivery_row" where
  "new_row now p =
     \<lparr>dr_id = ip_id p, token_hash = ip_token_hash p, encrypted_payload = ip_encrypted_payload p,
      dr_title = emptyToNil (ip_title p), dr_description = emptyToNil (ip_description p),
      dr_recipient_reference = emptyToNil (ip_recipient_reference p), dr_status = Active,
      expires_at = ip_expires_at p, consumed_at = None, revoked_at = None, consuming_started_at = None,
      consuming_lease_id = None, password_hash = ip_password_hash p, failed_attempts = 0,
      max_failed_attempts = ip_max_failed_attempts p, created_by = ip_created_by p,
      payload_type = ip_payload_type p, payload_field_count = ip_payload_field_count p,
      payload_contains_sensitive = ip_contains_sensitive p, created_at = now, updated_at = now\<rparr>"

definition Insert :: "int \<Rightarrow> insert_params \<Rightarrow> delivery_table \<Rightarrow> delivery_table option" where
  "Insert now p rows =
     (if ip_id p \<in> dr_id ` set rows \<or> ip_token_hash p \<in> token_hash ` set rows \<or>
         length (ip_token_hash p) \<noteq> 32 \<or> ip_payload_type p \<notin> payload_types \<or> \<not> (1 \<le> ip_max_failed_attempts p \<and> ip_max_failed_attempts p \<le> 20)
      then None else Some (rows @ [new_row now p]))"

text \<open>\<^verbatim>\<open>Prepare\<close>: may attempt, password required, expiry.\<close>

definition Prepare :: "int \<Rightarrow> bytes \<Rightarrow> delivery_table \<Rightarrow> (bool \<times> int) option" where
  "Prepare now hash rows =
     map_option (\<lambda>r. (password_hash r \<noteq> None, expires_at r))
       (first_row (filter (\<lambda>r. token_hash r = hash \<and> dr_status r = Active \<and> now < expires_at r \<and>
          failed_attempts r < max_failed_attempts r) rows))"

definition FindConsumeCandidate ::
  "int \<Rightarrow> int \<Rightarrow> bytes \<Rightarrow> delivery_table \<Rightarrow> delivery_row option" where
  "FindConsumeCandidate now lease hash rows =
     first_row (filter (\<lambda>r. token_hash r = hash \<and> consumable now lease r) rows)"

definition BeginConsume ::
  "int \<Rightarrow> int \<Rightarrow> bytes \<Rightarrow> bytes option \<Rightarrow> uuid \<Rightarrow> delivery_table \<Rightarrow>
   delivery_table \<times> delivery_row option" where
  "BeginConsume now lease hash expected leaseID rows =
     (let (rows', written) = update_where now
            (\<lambda>r. token_hash r = hash \<and> password_hash r = expected \<and> consumable now lease r)
            (\<lambda>r. r\<lparr>dr_status := Consuming, consuming_started_at := Some now,
                   consuming_lease_id := Some leaseID\<rparr>) rows
      in (rows', first_row written))"

definition fail_row :: "int \<Rightarrow> delivery_row \<Rightarrow> delivery_row" where
  "fail_row now r =
     (let locked = max_failed_attempts r \<le> failed_attempts r + 1
      in clear_lease (r\<lparr>failed_attempts := failed_attempts r + 1,
           dr_status := (if locked then Revoked else Active),
           revoked_at := (if locked then Some now else revoked_at r),
           encrypted_payload := (if locked then [] else encrypted_payload r)\<rparr>))"

text \<open>The result is the id and whether the row is locked now.\<close>

definition RecordPasswordFailure ::
  "int \<Rightarrow> int \<Rightarrow> bytes \<Rightarrow> bytes \<Rightarrow> delivery_table \<Rightarrow> delivery_table \<times> (uuid \<times> bool) option" where
  "RecordPasswordFailure now lease hash expected rows =
     (let (rows', written) = update_where now
            (\<lambda>r. token_hash r = hash \<and> password_hash r = Some expected \<and> consumable now lease r)
            (fail_row now) rows
      in (rows', map_option (\<lambda>r. (dr_id r, dr_status r = Revoked)) (first_row written)))"

text \<open>The result is whether the link had a password.\<close>

definition UpdatePasswordProtection ::
  "int \<Rightarrow> uuid \<Rightarrow> bytes option \<Rightarrow> delivery_table \<Rightarrow> delivery_table \<times> bool option" where
  "UpdatePasswordProtection now link hash rows =
     (let P = (\<lambda>r. dr_id r = link \<and> dr_status r = Active \<and> now < expires_at r)
      in (fst (update_where now P (\<lambda>r. r\<lparr>password_hash := hash, failed_attempts := 0\<rparr>) rows),
          map_option (\<lambda>r. password_hash r \<noteq> None) (first_row (filter P rows))))"

definition held_by :: "uuid \<Rightarrow> uuid \<Rightarrow> delivery_row \<Rightarrow> bool" where
  "held_by link leaseID r \<longleftrightarrow>
     dr_id r = link \<and> dr_status r = Consuming \<and> consuming_lease_id r = Some leaseID"

definition RestoreConsume :: "int \<Rightarrow> uuid \<Rightarrow> uuid \<Rightarrow> delivery_table \<Rightarrow> delivery_table" where
  "RestoreConsume now link leaseID rows =
     fst (update_where now (held_by link leaseID) (\<lambda>r. clear_lease (r\<lparr>dr_status := Active\<rparr>)) rows)"

definition CompleteConsume :: "int \<Rightarrow> uuid \<Rightarrow> uuid \<Rightarrow> delivery_table \<Rightarrow> delivery_table \<times> bool" where
  "CompleteConsume now link leaseID rows =
     (let (rows', written) = update_where now (held_by link leaseID)
            (\<lambda>r. clear_lease (r\<lparr>dr_status := Consumed, consumed_at := Some now, encrypted_payload := []\<rparr>)) rows
      in (rows', length written = 1))"

text \<open>The result is found and revoked, with the status of a row that is found.\<close>

definition Revoke :: "int \<Rightarrow> uuid \<Rightarrow> delivery_table \<Rightarrow> delivery_table \<times> (delivery_status \<times> bool) option" where
  "Revoke now link rows =
     (let (rows', written) = update_where now
            (\<lambda>r. dr_id r = link \<and> dr_status r \<in> {Active, Consuming})
            (\<lambda>r. clear_lease (r\<lparr>dr_status := Revoked, revoked_at := Some now, encrypted_payload := []\<rparr>)) rows
      in (rows', if length written = 1 then Some (Revoked, True)
                 else map_option (\<lambda>r. (dr_status r, False))
                   (first_row (filter (\<lambda>r. dr_id r = link) rows'))))"

text \<open>The retention periods of \<^verbatim>\<open>Cleanup\<close>, in seconds.\<close>

record retention =
  rt_consumed :: int
  rt_expired :: int
  rt_revoked :: int

definition past_retention :: "int \<Rightarrow> retention \<Rightarrow> delivery_row \<Rightarrow> bool" where
  "past_retention now ret r \<longleftrightarrow> encrypted_payload r \<noteq> [] \<and>
     (dr_status r = Consumed \<and>
        (case consumed_at r of None \<Rightarrow> False | Some t \<Rightarrow> t \<le> now - 1000000 * rt_consumed ret) \<or>
      dr_status r = Expired \<and> updated_at r \<le> now - 1000000 * rt_expired ret \<or>
      dr_status r = Revoked \<and>
        (case revoked_at r of None \<Rightarrow> False | Some t \<Rightarrow> t \<le> now - 1000000 * rt_revoked ret))"

text \<open>The three updates of \<^verbatim>\<open>Cleanup\<close>, one transaction with one \<^verbatim>\<open>NOW()\<close>.\<close>

definition cleanup_expire :: "int \<Rightarrow> delivery_table \<Rightarrow> delivery_table \<times> delivery_row list" where
  "cleanup_expire now = update_where now (\<lambda>r. dr_status r = Active \<and> expires_at r \<le> now)
     (\<lambda>r. r\<lparr>dr_status := Expired\<rparr>)"

definition cleanup_restore :: "int \<Rightarrow> int \<Rightarrow> delivery_table \<Rightarrow> delivery_table \<times> delivery_row list" where
  "cleanup_restore now lease = update_where now
     (\<lambda>r. dr_status r = Consuming \<and> stale_lease now lease r \<and> now < expires_at r)
     (\<lambda>r. clear_lease (r\<lparr>dr_status := Active\<rparr>))"

definition cleanup_payloads :: "int \<Rightarrow> retention \<Rightarrow> delivery_table \<Rightarrow> delivery_table \<times> delivery_row list" where
  "cleanup_payloads now ret = update_where now (past_retention now ret) (\<lambda>r. r\<lparr>encrypted_payload := []\<rparr>)"

definition Cleanup :: "int \<Rightarrow> int \<Rightarrow> retention \<Rightarrow> delivery_table \<Rightarrow> delivery_table \<times> nat \<times> nat \<times> nat" where
  "Cleanup now lease ret rows =
     (let (rows1, expired) = cleanup_expire now rows;
          (rows2, restored) = cleanup_restore now lease rows1;
          (rows3, cleared) = cleanup_payloads now ret rows2
      in (rows3, length expired, length restored, length cleared))"

definition CountActive :: "int \<Rightarrow> delivery_table \<Rightarrow> nat" where
  "CountActive now rows = length (filter (\<lambda>r. dr_status r = Active \<and> now < expires_at r) rows)"

section \<open>What the statements keep\<close>

text \<open>
  The form of a row: the constraints of the table and what the statements add to them. A lease exists
  exactly while a row is being consumed, the payload is gone once it is consumed or revoked, and a row
  that can be consumed has attempts left.
\<close>

definition row_ok :: "delivery_row \<Rightarrow> bool" where
  "row_ok r \<longleftrightarrow>
     length (token_hash r) = 32 \<and> 1 \<le> max_failed_attempts r \<and> max_failed_attempts r \<le> 20 \<and>
     failed_attempts r \<le> max_failed_attempts r \<and>
     (consuming_lease_id r \<noteq> None \<longleftrightarrow> dr_status r = Consuming) \<and>
     (consuming_started_at r \<noteq> None \<longleftrightarrow> dr_status r = Consuming) \<and>
     (dr_status r \<in> {Active, Consuming} \<longrightarrow> failed_attempts r < max_failed_attempts r) \<and>
     (dr_status r = Consumed \<longrightarrow> consumed_at r \<noteq> None \<and> encrypted_payload r = []) \<and>
     (dr_status r = Revoked \<longrightarrow> revoked_at r \<noteq> None \<and> encrypted_payload r = [])"

definition table_ok :: "delivery_table \<Rightarrow> bool" where
  "table_ok rows \<longleftrightarrow> distinct (map dr_id rows) \<and> distinct (map token_hash rows) \<and> (\<forall>r \<in> set rows. row_ok r)"

text \<open>No statement changes the identity of a row.\<close>

definition same_key :: "delivery_row \<Rightarrow> delivery_row \<Rightarrow> bool" where
  "same_key r r' \<longleftrightarrow> dr_id r' = dr_id r \<and> token_hash r' = token_hash r"

lemma update_where_keys:
  assumes "\<And>r. same_key r (f r)"
  shows "map dr_id (fst (update_where now P f rows)) = map dr_id rows"
    and "map token_hash (fst (update_where now P f rows)) = map token_hash rows"
  using assms by (auto simp: update_where_def same_key_def)

lemma update_where_ok:
  assumes "table_ok rows" and "\<And>r. same_key r (f r)"
    and "\<And>r. row_ok r \<Longrightarrow> P r \<Longrightarrow> row_ok (f r)"
  shows "table_ok (fst (update_where now P f rows))"
proof -
  have upd: "row_ok (r\<lparr>updated_at := t\<rparr>) = row_ok r" for r t by (simp add: row_ok_def)
  have "\<forall>r \<in> set (fst (update_where now P f rows)). row_ok r"
    using assms(1,3) by (auto simp: update_where_def table_ok_def upd)
  then show ?thesis
    using assms(1) by (simp add: table_ok_def update_where_keys [of f, OF assms(2)])
qed

lemma same_key_simps [simp]:
  "same_key r (r\<lparr>dr_status := s\<rparr>)" "same_key r (r\<lparr>encrypted_payload := c\<rparr>)"
  "same_key r (clear_lease r') = same_key r r'"
  "same_key r (r\<lparr>password_hash := h, failed_attempts := n\<rparr>)"
  "same_key r (r\<lparr>dr_status := s, revoked_at := t, encrypted_payload := c\<rparr>)"
  "same_key r (r\<lparr>dr_status := s, consumed_at := t, encrypted_payload := c\<rparr>)"
  "same_key r (r\<lparr>dr_status := s, consuming_started_at := t, consuming_lease_id := l\<rparr>)"
  "same_key r (fail_row now r)"
  by (simp_all add: same_key_def clear_lease_def fail_row_def Let_def)

lemma row_ok_moves:
  "row_ok r \<Longrightarrow> dr_status r \<in> {Active, Consuming} \<Longrightarrow> row_ok (clear_lease (r\<lparr>dr_status := Active\<rparr>))"
  "row_ok r \<Longrightarrow> dr_status r \<in> {Active, Consuming} \<Longrightarrow>
     row_ok (r\<lparr>dr_status := Consuming, consuming_started_at := Some t, consuming_lease_id := Some l\<rparr>)"
  "row_ok r \<Longrightarrow> row_ok (clear_lease (r\<lparr>dr_status := Revoked, revoked_at := Some t, encrypted_payload := []\<rparr>))"
  "row_ok r \<Longrightarrow> row_ok (clear_lease (r\<lparr>dr_status := Consumed, consumed_at := Some t, encrypted_payload := []\<rparr>))"
  "row_ok r \<Longrightarrow> dr_status r = Active \<Longrightarrow> row_ok (r\<lparr>dr_status := Expired\<rparr>)"
  "row_ok r \<Longrightarrow> row_ok (r\<lparr>encrypted_payload := []\<rparr>)"
  "row_ok r \<Longrightarrow> dr_status r = Active \<Longrightarrow> row_ok (r\<lparr>password_hash := h, failed_attempts := 0\<rparr>)"
  by (auto simp: row_ok_def clear_lease_def)

lemma row_ok_fail: "row_ok r \<Longrightarrow> failed_attempts r < max_failed_attempts r \<Longrightarrow> row_ok (fail_row t r)"
  by (auto simp: row_ok_def fail_row_def clear_lease_def Let_def)

lemma consumable_status: "consumable now lease r \<Longrightarrow> dr_status r \<in> {Active, Consuming}"
  by (auto simp: consumable_def)

lemma Insert_ok: "table_ok rows \<Longrightarrow> Insert now p rows = Some rows' \<Longrightarrow> table_ok rows'"
  by (auto simp: Insert_def table_ok_def new_row_def row_ok_def split: if_splits)

lemma BeginConsume_ok: "table_ok rows \<Longrightarrow> table_ok (fst (BeginConsume now lease h e l rows))"
  by (auto simp: BeginConsume_def case_prod_beta Let_def intro!: update_where_ok row_ok_moves
      dest: consumable_status)

lemma RecordPasswordFailure_ok: "table_ok rows \<Longrightarrow> table_ok (fst (RecordPasswordFailure now lease h e rows))"
  by (auto simp: RecordPasswordFailure_def case_prod_beta Let_def consumable_def
      intro!: update_where_ok row_ok_fail)

lemma UpdatePasswordProtection_ok: "table_ok rows \<Longrightarrow> table_ok (fst (UpdatePasswordProtection now i h rows))"
  by (auto simp: UpdatePasswordProtection_def Let_def intro!: update_where_ok row_ok_moves)

lemma RestoreConsume_ok: "table_ok rows \<Longrightarrow> table_ok (RestoreConsume now i l rows)"
  by (auto simp: RestoreConsume_def held_by_def intro!: update_where_ok row_ok_moves)

lemma CompleteConsume_ok: "table_ok rows \<Longrightarrow> table_ok (fst (CompleteConsume now i l rows))"
  by (auto simp: CompleteConsume_def case_prod_beta Let_def intro!: update_where_ok row_ok_moves)

lemma Revoke_ok: "table_ok rows \<Longrightarrow> table_ok (fst (Revoke now i rows))"
  by (auto simp: Revoke_def case_prod_beta Let_def intro!: update_where_ok row_ok_moves)

lemma Cleanup_fst:
  "fst (Cleanup now lease ret rows) =
     fst (cleanup_payloads now ret (fst (cleanup_restore now lease (fst (cleanup_expire now rows)))))"
  by (simp add: Cleanup_def case_prod_beta Let_def)

lemma Cleanup_ok: "table_ok rows \<Longrightarrow> table_ok (fst (Cleanup now lease ret rows))"
  unfolding Cleanup_fst cleanup_payloads_def cleanup_restore_def cleanup_expire_def
  by (intro update_where_ok) (auto intro: row_ok_moves)

lemmas table_ok_ops = Insert_ok BeginConsume_ok RecordPasswordFailure_ok UpdatePasswordProtection_ok
  RestoreConsume_ok CompleteConsume_ok Revoke_ok Cleanup_ok

section \<open>Everything that can happen to the table\<close>

inductive store_event :: "delivery_table \<Rightarrow> delivery_table \<Rightarrow> bool" where
  store_insert: "Insert now p rows = Some rows' \<Longrightarrow> store_event rows rows'"
| store_begin: "store_event rows (fst (BeginConsume now lease h e l rows))"
| store_failure: "store_event rows (fst (RecordPasswordFailure now lease h e' rows))"
| store_protect: "store_event rows (fst (UpdatePasswordProtection now i e rows))"
| store_restore: "store_event rows (RestoreConsume now i l rows)"
| store_complete: "store_event rows (fst (CompleteConsume now i l rows))"
| store_revoke: "store_event rows (fst (Revoke now i rows))"
| store_cleanup: "store_event rows (fst (Cleanup now lease ret rows))"

lemma store_event_ok: "store_event rows rows' \<Longrightarrow> table_ok rows \<Longrightarrow> table_ok rows'"
  by (induction rule: store_event.induct) (auto intro: table_ok_ops)

text \<open>
  What a statement may do to one row: a row that is closed (consumed, expired or revoked) keeps
  everything but its payload, which can only be cleared; and an open row keeps its payload as long as it
  stays open.
\<close>

definition row_closed :: "delivery_row \<Rightarrow> bool" where
  "row_closed r \<longleftrightarrow> dr_status r \<in> {Consumed, Expired, Revoked}"

definition row_evolves :: "delivery_row \<Rightarrow> delivery_row \<Rightarrow> bool" where
  "row_evolves r r' \<longleftrightarrow>
     same_key r r' \<and> (encrypted_payload r' = encrypted_payload r \<or> row_closed r' \<and> encrypted_payload r' = []) \<and>
     (row_closed r \<longrightarrow> dr_status r' = dr_status r \<and> password_hash r' = password_hash r \<and>
        consumed_at r' = consumed_at r \<and> revoked_at r' = revoked_at r \<and>
        failed_attempts r' = failed_attempts r)"

lemma row_evolves_refl [simp]: "row_evolves r r"
  by (simp add: row_evolves_def same_key_def)

lemma row_evolves_trans: "row_evolves r s \<Longrightarrow> row_evolves s t \<Longrightarrow> row_evolves r t"
  by (auto simp: row_evolves_def same_key_def row_closed_def)

definition table_evolves :: "delivery_table \<Rightarrow> delivery_table \<Rightarrow> bool" where
  "table_evolves rows rows' \<longleftrightarrow> list_all2 row_evolves rows (take (length rows) rows')"

lemma list_all2_evolves_trans:
  "list_all2 row_evolves a b \<Longrightarrow> list_all2 row_evolves b c \<Longrightarrow> list_all2 row_evolves a c"
  by (rule list_all2_trans [of row_evolves row_evolves row_evolves]) (auto intro: row_evolves_trans)

lemma table_evolves_length: "table_evolves rows rows' \<Longrightarrow> length rows \<le> length rows'"
  by (auto simp: table_evolves_def dest: list_all2_lengthD)

lemma table_evolves_trans:
  assumes "table_evolves a b" and "table_evolves b c"
  shows "table_evolves a c"
proof -
  have len: "length a \<le> length b" by (rule table_evolves_length [OF assms(1)])
  have "list_all2 row_evolves (take (length a) b) (take (length a) (take (length b) c))"
    by (rule list_all2_takeI) (use assms(2) in \<open>simp add: table_evolves_def\<close>)
  with assms(1) len show ?thesis
    by (auto simp: table_evolves_def min_def intro: list_all2_evolves_trans)
qed

lemma update_where_evolves:
  assumes "\<And>r. r \<in> set rows \<Longrightarrow> P r \<Longrightarrow> row_evolves r (f r)"
  shows "table_evolves rows (fst (update_where now P f rows))"
proof -
  have "row_evolves r ((f r)\<lparr>updated_at := now\<rparr>)" if "r \<in> set rows" "P r" for r
    using assms [OF that] by (simp add: row_evolves_def same_key_def row_closed_def)
  then show ?thesis
    by (auto simp: table_evolves_def update_where_def list_all2_conv_all_nth)
qed

lemma row_evolves_moves:
  "dr_status r \<in> {Active, Consuming} \<Longrightarrow>
     row_evolves r (r\<lparr>dr_status := s, consuming_started_at := t, consuming_lease_id := l\<rparr>)"
  "dr_status r \<in> {Active, Consuming} \<Longrightarrow> row_evolves r (fail_row now r)"
  "dr_status r = Active \<Longrightarrow> row_evolves r (r\<lparr>password_hash := h, failed_attempts := 0\<rparr>)"
  "dr_status r \<in> {Active, Consuming} \<Longrightarrow> row_evolves r (clear_lease (r\<lparr>dr_status := s\<rparr>))"
  "dr_status r \<in> {Active, Consuming} \<Longrightarrow> row_evolves r (r\<lparr>dr_status := s\<rparr>)"
  "dr_status r \<in> {Active, Consuming} \<Longrightarrow>
     row_evolves r (clear_lease (r\<lparr>dr_status := Consumed, consumed_at := t, encrypted_payload := []\<rparr>))"
  "dr_status r \<in> {Active, Consuming} \<Longrightarrow>
     row_evolves r (clear_lease (r\<lparr>dr_status := Revoked, revoked_at := t, encrypted_payload := []\<rparr>))"
  "row_closed r \<Longrightarrow> row_evolves r (r\<lparr>encrypted_payload := []\<rparr>)"
  by (auto simp: row_evolves_def same_key_def row_closed_def clear_lease_def fail_row_def Let_def)

lemma past_retention_closed: "past_retention now ret r \<Longrightarrow> row_closed r"
  by (auto simp: past_retention_def row_closed_def)

lemma Cleanup_evolves: "table_evolves rows (fst (Cleanup now lease ret rows))"
proof -
  have "table_evolves rows (fst (cleanup_expire now rows))" for rows
    unfolding cleanup_expire_def by (rule update_where_evolves) (simp add: row_evolves_moves)
  moreover have "table_evolves rows (fst (cleanup_restore now lease rows))" for rows
    unfolding cleanup_restore_def by (rule update_where_evolves) (simp add: row_evolves_moves)
  moreover have "table_evolves rows (fst (cleanup_payloads now ret rows))" for rows
    unfolding cleanup_payloads_def
    by (rule update_where_evolves) (simp add: row_evolves_moves past_retention_closed)
  ultimately show ?thesis
    unfolding Cleanup_fst by (blast intro: table_evolves_trans)
qed

lemma store_event_evolves: "store_event rows rows' \<Longrightarrow> table_evolves rows rows'"
proof (induction rule: store_event.induct)
  case (store_insert now p rows rows')
  then show ?case by (auto simp: Insert_def table_evolves_def list_all2_same split: if_splits)
next
  case (store_cleanup rows now lease ret)
  show ?case by (rule Cleanup_evolves)
qed (auto simp: BeginConsume_def RecordPasswordFailure_def UpdatePasswordProtection_def RestoreConsume_def
    CompleteConsume_def Revoke_def held_by_def case_prod_beta Let_def
    intro!: update_where_evolves row_evolves_moves dest: consumable_status)

lemma store_events_evolve: "store_event\<^sup>*\<^sup>* rows rows' \<Longrightarrow> table_evolves rows rows'"
  by (induction rule: rtranclp_induct)
    (auto simp: table_evolves_def list_all2_same intro: table_evolves_trans [unfolded table_evolves_def]
      store_event_evolves [unfolded table_evolves_def])

lemma store_events_ok: "store_event\<^sup>*\<^sup>* rows rows' \<Longrightarrow> table_ok rows \<Longrightarrow> table_ok rows'"
  by (induction rule: rtranclp_induct) (auto intro: store_event_ok)

lemma table_evolves_row:
  assumes "table_evolves rows rows'" and "r \<in> set rows"
  obtains r' where "r' \<in> set rows'" and "row_evolves r r'"
proof -
  from assms(2) obtain i where i: "i < length rows" "rows ! i = r" by (auto simp: in_set_conv_nth)
  have "row_evolves r (rows' ! i)" and "i < length rows'"
    using assms(1) i table_evolves_length [OF assms(1)]
    by (auto simp: table_evolves_def list_all2_conv_all_nth)
  then show thesis using that nth_mem by blast
qed

section \<open>The life cycle of a link\<close>

text \<open>The abstract link: open until it is delivered or closed, and then for good.\<close>

datatype link_phase = Open | Delivered | Closed

definition phase :: "delivery_row \<Rightarrow> link_phase" where
  "phase r = (case dr_status r of Active \<Rightarrow> Open | Consuming \<Rightarrow> Open | Consumed \<Rightarrow> Delivered
     | Expired \<Rightarrow> Closed | Revoked \<Rightarrow> Closed)"

inductive phase_step :: "link_phase \<Rightarrow> link_phase \<Rightarrow> bool" where
  phase_stutter: "phase_step x x"
| phase_deliver: "phase_step Open Delivered"
| phase_close: "phase_step Open Closed"

lemma phase_step_Open [simp]: "phase_step Open x"
  by (cases x) (auto intro: phase_step.intros)

lemma phase_closed: "row_closed r \<longleftrightarrow> phase r \<noteq> Open"
  by (cases "dr_status r") (simp_all add: row_closed_def phase_def)

lemma row_evolves_phase: "row_evolves r r' \<Longrightarrow> phase_step (phase r) (phase r')"
proof (cases "phase r = Open")
  case False
  assume "row_evolves r r'"
  then have "dr_status r' = dr_status r" using False by (simp add: row_evolves_def phase_closed)
  then show ?thesis by (simp add: phase_def phase_stutter)
qed simp

lemma table_row_unique:
  "table_ok rows \<Longrightarrow> r \<in> set rows \<Longrightarrow> s \<in> set rows \<Longrightarrow> dr_id r = dr_id s \<Longrightarrow> r = s"
  by (auto simp: table_ok_def distinct_map inj_on_def)

definition sample_delivery :: delivery_row where
  "sample_delivery = \<lparr>dr_id = 7, token_hash = replicate 32 1, encrypted_payload = [9], dr_title = None,
     dr_description = None, dr_recipient_reference = None, dr_status = Active, expires_at = 100,
     consumed_at = None, revoked_at = None, consuming_started_at = None, consuming_lease_id = None,
     password_hash = None, failed_attempts = 0, max_failed_attempts = 5, created_by = [1],
     payload_type = ascii ''text'', payload_field_count = 0, payload_contains_sensitive = False, created_at = 0, updated_at = 0\<rparr>"

lemma sample_table_ok: "table_ok [sample_delivery]"
  by (simp add: table_ok_def row_ok_def sample_delivery_def)

text \<open>C11: Every statement on the table keeps its invariant: ids and token hashes are unique, a lease exists
  exactly while a row is being consumed, the attempts stay within their bound, and the payload of a
  consumed or revoked link is gone.\<close>

theorem store_invariant:
  assumes "table_ok rows" and "store_event\<^sup>*\<^sup>* rows rows'"
  shows "table_ok rows'"
  by (rule store_events_ok [OF assms(2,1)])

theorem store_invariant_witness:
  "table_ok (fst (Revoke 5 7 [sample_delivery]))"
  using store_invariant [OF sample_table_ok r_into_rtranclp, OF store_revoke] .

text \<open>C10: The table refines the life cycle of a link: whatever the statements and their order, a row stays in
  the table with its identity, and its phase follows the abstract link, which is delivered or closed at
  most once and never opened again; a closed row keeps its password, its attempts and its times.\<close>

theorem store_refines_life_cycle:
  assumes "store_event\<^sup>*\<^sup>* rows rows'" and "r \<in> set rows"
  shows "\<exists>r' \<in> set rows'. dr_id r' = dr_id r \<and> token_hash r' = token_hash r \<and>
    phase_step (phase r) (phase r') \<and>
    (phase r \<noteq> Open \<longrightarrow> password_hash r' = password_hash r \<and> failed_attempts r' = failed_attempts r \<and>
       consumed_at r' = consumed_at r \<and> revoked_at r' = revoked_at r)"
proof -
  from table_evolves_row [OF store_events_evolve [OF assms(1)] assms(2)]
  obtain r' where r': "r' \<in> set rows'" "row_evolves r r'" .
  with row_evolves_phase [OF r'(2)] show ?thesis
    by (intro bexI [of _ r']) (auto simp: row_evolves_def same_key_def phase_closed)
qed

theorem store_refines_life_cycle_witness:
  "\<exists>r' \<in> set (fst (Revoke 5 7 [sample_delivery])). dr_id r' = 7"
proof -
  have "store_event\<^sup>*\<^sup>* [sample_delivery] (fst (Revoke 5 7 [sample_delivery]))"
    by (rule r_into_rtranclp) (rule store_revoke)
  from store_refines_life_cycle [OF this, of sample_delivery]
  have "\<exists>r' \<in> set (fst (Revoke 5 7 [sample_delivery])). dr_id r' = dr_id sample_delivery" by auto
  then show ?thesis by (simp add: sample_delivery_def)
qed

text \<open>A row that the cleanup cannot move: a lease that outlived the link.\<close>

definition stranded :: "int \<Rightarrow> delivery_row \<Rightarrow> bool" where
  "stranded t r \<longleftrightarrow> dr_status r = Consuming \<and> expires_at r \<le> t"

lemma cleanup_keeps_stranded:
  assumes "stranded t r" and "t \<le> now" and "r \<in> set rows"
  shows "r \<in> set (fst (Cleanup now lease ret rows))"
proof -
  have "r \<in> set (fst (cleanup_expire now rows))" if "r \<in> set rows" for rows
    using that assms(1) by (auto simp: cleanup_expire_def update_where_def stranded_def image_iff)
  moreover have "r \<in> set (fst (cleanup_restore now lease rows))" if "r \<in> set rows" for rows
    using that assms(1,2) by (auto simp: cleanup_restore_def update_where_def stranded_def image_iff)
  moreover have "r \<in> set (fst (cleanup_payloads now ret rows))" if "r \<in> set rows" for rows
    using that assms(1)
    by (auto simp: cleanup_payloads_def update_where_def stranded_def past_retention_def image_iff)
  ultimately show ?thesis using assms(3) unfolding Cleanup_fst by blast
qed

text \<open>A link whose lease is not given back before it expires is stranded: no cleanup at any later time
  changes its row, so its status stays \<open>consuming\<close> and its ciphertext is kept beyond every retention
  period, although nobody can open the link any more.\<close>

theorem stranded_lease_kept:
  assumes "r \<in> set rows" and "dr_status r = Consuming" and "expires_at r \<le> now"
  shows "r \<in> set (fst (Cleanup now lease ret rows)) \<and> \<not> consumable now lease r"
  using cleanup_keeps_stranded [of now r now rows lease ret] assms
  by (auto simp: stranded_def consumable_def)

theorem stranded_lease_kept_witness:
  "sample_delivery\<lparr>dr_status := Consuming, consuming_started_at := Some 0, consuming_lease_id := Some 1\<rparr> \<in>
     set (fst (Cleanup 1000000000 60 \<lparr>rt_consumed = 0, rt_expired = 0, rt_revoked = 0\<rparr>
       [sample_delivery\<lparr>dr_status := Consuming, consuming_started_at := Some 0,
          consuming_lease_id := Some 1\<rparr>]))"
  using stranded_lease_kept [of "sample_delivery\<lparr>dr_status := Consuming, consuming_started_at := Some 0,
      consuming_lease_id := Some 1\<rparr>" "[sample_delivery\<lparr>dr_status := Consuming,
      consuming_started_at := Some 0, consuming_lease_id := Some 1\<rparr>]" 1000000000]
  by (simp add: sample_delivery_def)

end
