(* ===== verification/Credentials.thy ===== *)
theory Credentials
  imports GoBytes
begin

text \<open>
  The secrets of a link on the server: \<^verbatim>\<open>internal/auth/password.go\<close> (the password, stored as an Argon2id
  string) and \<^verbatim>\<open>internal/crypto/token.go\<close> (the token in the URL, stored as its HMAC). The key derivation
  \<^verbatim>\<open>argon2.IDKey\<close> and HMAC-SHA-256 are arguments; random bytes are inputs, \<open>None\<close> when they cannot be read.
\<close>

section \<open>Passwords\<close>

definition argonMemory :: nat where
  "argonMemory = 64 * 1024"

definition argonIterations :: nat where
  "argonIterations = 3"

definition argonParallelism :: nat where
  "argonParallelism = 1"

definition argonSaltBytes :: nat where
  "argonSaltBytes = 16"

definition argonKeyBytes :: nat where
  "argonKeyBytes = 32"

text \<open>\<^verbatim>\<open>IDKey(password, salt, time, memory, threads, keyLen)\<close>; \<open>None\<close> when it panics.\<close>

type_synonym idkey = "bytes \<Rightarrow> bytes \<Rightarrow> nat \<Rightarrow> nat \<Rightarrow> nat \<Rightarrow> nat \<Rightarrow> bytes option"

definition encode_hash :: "bytes \<Rightarrow> bytes \<Rightarrow> bytes" where
  "encode_hash salt hash =
     ascii ''$argon2id$v=19$m='' @ decimal_digits argonMemory @ ascii '',t='' @
     decimal_digits argonIterations @ ascii '',p='' @ decimal_digits argonParallelism @ ascii ''$'' @
     b64_encode StdAlphabet salt @ ascii ''$'' @ b64_encode StdAlphabet hash"

definition HashPassword :: "idkey \<Rightarrow> bytes option \<Rightarrow> bytes \<Rightarrow> bytes option" where
  "HashPassword IDKey random password =
     (if password = [] then None
      else
        (case random of
           None \<Rightarrow> None
         | Some salt \<Rightarrow>
             map_option (encode_hash salt)
               (IDKey password salt argonIterations argonMemory argonParallelism argonKeyBytes)))"

text \<open>The loop over the parameters: a map from names to 32-bit numbers, a missing name read as zero.\<close>

fun parse_params :: "(bytes \<Rightarrow> nat) \<Rightarrow> bytes list \<Rightarrow> (bytes \<Rightarrow> nat) option" where
  "parse_params params [] = Some params"
| "parse_params params (item # items) =
     (case split2 (byte_of CHR ''='') item of
        [key, text] \<Rightarrow>
          (case ParseUint 32 text of
             None \<Rightarrow> None
           | Some n \<Rightarrow> parse_params (params(key := n)) items)
      | _ \<Rightarrow> None)"

text \<open>\<open>None\<close> when the key derivation panics.\<close>

definition VerifyPassword :: "idkey \<Rightarrow> bytes \<Rightarrow> bytes \<Rightarrow> bool option" where
  "VerifyPassword IDKey password encoded =
     (let parts = split_on (byte_of CHR ''$'') encoded
      in if length parts \<noteq> 6 \<or> parts ! 1 \<noteq> ascii ''argon2id'' \<or> parts ! 2 \<noteq> ascii ''v=19'' then Some False
         else
           (case parse_params (\<lambda>_. 0) (split_on (byte_of CHR '','') (parts ! 3)) of
              None \<Rightarrow> Some False
            | Some params \<Rightarrow>
                (case b64_decode StdAlphabet (parts ! 4) of
                   None \<Rightarrow> Some False
                 | Some salt \<Rightarrow>
                     (case b64_decode StdAlphabet (parts ! 5) of
                        None \<Rightarrow> Some False
                      | Some expected \<Rightarrow>
                          map_option (\<lambda>actual. actual = expected)
                            (IDKey password salt (params (ascii ''t'')) (params (ascii ''m''))
                              (params (ascii ''p'') mod 256) (length expected mod 2 ^ 32))))))"

section \<open>Tokens\<close>

definition TokenBytes :: nat where
  "TokenBytes = 32"

definition GenerateToken :: "bytes option \<Rightarrow> bytes option" where
  "GenerateToken random = map_option (b64_encode URLAlphabet) random"

definition TokenHMAC :: "(bytes \<Rightarrow> bytes \<Rightarrow> bytes) \<Rightarrow> bytes \<Rightarrow> bytes \<Rightarrow> bytes option" where
  "TokenHMAC hmac_sha256 pepper token =
     (if pepper = [] then None else if token = [] then None else Some (hmac_sha256 pepper token))"

section \<open>Facts\<close>

lemma dollar_not_std: "byte_of CHR ''$'' \<notin> set StdAlphabet"
  by code_simp

lemma b64_no_dollar: "byte_of CHR ''$'' \<notin> set (b64_encode StdAlphabet s)"
  using b64_encode_set [OF good_alphabets(1), of s] dollar_not_std by blast

definition argon_params :: bytes where
  "argon_params = ascii ''m=65536,t=3,p=1''"

lemma argon_digits: "decimal_digits argonMemory = ascii ''65536''" "decimal_digits argonIterations = ascii ''3''"
  "decimal_digits argonParallelism = ascii ''1''"
  by (simp_all add: decimal_digits.simps ascii_def digit_byte_def argonMemory_def argonIterations_def
      argonParallelism_def)

lemma encode_hash_parts:
  "encode_hash salt hash = [] @ byte_of CHR ''$'' # ascii ''argon2id'' @ byte_of CHR ''$'' # ascii ''v=19'' @
     byte_of CHR ''$'' # argon_params @ byte_of CHR ''$'' # b64_encode StdAlphabet salt @
     byte_of CHR ''$'' # b64_encode StdAlphabet hash"
  by (simp add: encode_hash_def argon_digits argon_params_def ascii_def byte_of_def)

lemma encode_hash_split:
  "split_on (byte_of CHR ''$'') (encode_hash salt hash) =
     [[], ascii ''argon2id'', ascii ''v=19'', argon_params, b64_encode StdAlphabet salt, b64_encode StdAlphabet hash]"
proof -
  have "byte_of CHR ''$'' \<notin> set (ascii ''argon2id'')" "byte_of CHR ''$'' \<notin> set (ascii ''v=19'')"
    "byte_of CHR ''$'' \<notin> set argon_params" by code_simp+
  then show ?thesis
    unfolding encode_hash_parts
    by (simp only: split_on_append split_on_none b64_no_dollar empty_iff list.set not_False_eq_True)
qed

lemma argon_params_parsed:
  "\<exists>params. parse_params (\<lambda>_. 0) (split_on (byte_of CHR '','') argon_params) = Some params \<and>
     params (ascii ''t'') = 3 \<and> params (ascii ''m'') = 65536 \<and> params (ascii ''p'') = 1"
proof -
  have "split_on (byte_of CHR '','') argon_params = [ascii ''m=65536'', ascii ''t=3'', ascii ''p=1'']"
    by code_simp
  moreover have "split2 (byte_of CHR ''='') (ascii ''m=65536'') = [ascii ''m'', ascii ''65536'']"
    "split2 (byte_of CHR ''='') (ascii ''t=3'') = [ascii ''t'', ascii ''3'']"
    "split2 (byte_of CHR ''='') (ascii ''p=1'') = [ascii ''p'', ascii ''1'']"
    by code_simp+
  moreover have "ParseUint 32 (ascii ''65536'') = Some 65536" "ParseUint 32 (ascii ''3'') = Some 3"
    "ParseUint 32 (ascii ''1'') = Some 1"
    by (simp_all add: ParseUint_def digits_nat_def byte_digit_def ascii_def)
  moreover have "ascii ''m'' \<noteq> ascii ''t''" "ascii ''m'' \<noteq> ascii ''p''" "ascii ''t'' \<noteq> ascii ''p''"
    by code_simp+
  ultimately show ?thesis by simp
qed

lemma VerifyPassword_encoded:
  assumes "length hash < 2 ^ 32"
  shows "VerifyPassword IDKey password (encode_hash salt hash) =
    map_option (\<lambda>actual. actual = hash) (IDKey password salt 3 65536 1 (length hash))"
proof -
  obtain params where "parse_params (\<lambda>_. 0) (split_on (byte_of CHR '','') argon_params) = Some params"
    "params (ascii ''t'') = 3" "params (ascii ''m'') = 65536" "params (ascii ''p'') = 1"
    using argon_params_parsed by blast
  then show ?thesis
    using assms by (simp add: VerifyPassword_def encode_hash_split b64_decode_encode good_alphabets)
qed

lemma password_accepted:
  assumes "HashPassword IDKey (Some salt) password = Some stored"
    and "\<And>p key. IDKey p salt 3 65536 1 32 = Some key \<Longrightarrow> length key = 32"
  shows "VerifyPassword IDKey password stored = Some True"
    and "VerifyPassword IDKey guess stored =
      map_option (\<lambda>key. Some key = IDKey password salt 3 65536 1 32) (IDKey guess salt 3 65536 1 32)"
proof -
  have "map_option (encode_hash salt) (IDKey password salt 3 65536 1 32) = Some stored"
    using assms(1) by (simp add: HashPassword_def argonMemory_def argonIterations_def
        argonParallelism_def argonKeyBytes_def split: if_splits)
  then obtain key where key: "IDKey password salt 3 65536 1 32 = Some key"
    and stored: "stored = encode_hash salt key" by blast
  have len: "length key = 32" by (rule assms(2) [OF key])
  have v: "VerifyPassword IDKey p stored = map_option (\<lambda>k. k = key) (IDKey p salt 3 65536 1 32)" for p
    using VerifyPassword_encoded [of key IDKey p salt] by (simp add: stored len)
  show "VerifyPassword IDKey password stored = Some True" by (simp only: v key) simp
  show "VerifyPassword IDKey guess stored =
      map_option (\<lambda>key. Some key = IDKey password salt 3 65536 1 32) (IDKey guess salt 3 65536 1 32)"
    by (simp only: v key) simp
qed

text \<open>A stored password hash accepts exactly the passwords from which the key derivation gets the stored
  key with the stored salt, in particular the password it was made of, and never panics on those.\<close>

theorem link_password_round_trip:
  assumes "HashPassword IDKey (Some salt) password = Some stored"
    and "\<And>p key. IDKey p salt 3 65536 1 32 = Some key \<Longrightarrow> length key = 32"
  shows "VerifyPassword IDKey password stored = Some True \<and>
    VerifyPassword IDKey guess stored =
      map_option (\<lambda>key. Some key = IDKey password salt 3 65536 1 32) (IDKey guess salt 3 65536 1 32)"
  by (rule conjI; rule password_accepted [OF assms(1)]; erule assms(2))

text \<open>A stand-in for the key derivation: the first 32 bytes of the padded password; it panics on no rounds.\<close>

definition sample_idkey :: idkey where
  "sample_idkey p salt t m n l = (if t = 0 \<or> n = 0 then None else Some (take 32 (p @ replicate 32 0)))"

theorem link_password_round_trip_witness:
  "\<exists>stored. HashPassword sample_idkey (Some (replicate 16 7)) [1, 2] = Some stored \<and>
     VerifyPassword sample_idkey [1, 2] stored = Some True \<and>
     VerifyPassword sample_idkey [1, 3] stored = Some False"
proof -
  obtain stored where h: "HashPassword sample_idkey (Some (replicate 16 7)) [1, 2] = Some stored"
    by (simp add: HashPassword_def sample_idkey_def argonIterations_def argonParallelism_def)
  have len: "length key = 32" if "sample_idkey p (replicate 16 7) 3 65536 1 32 = Some key" for p key
    using that by (auto simp: sample_idkey_def)
  have "[1, 2] @ replicate 30 0 \<noteq> [1, 3] @ replicate 30 (0 :: byte)" by simp
  with h link_password_round_trip [OF h len, where guess = "[1, 3]"] show ?thesis by (simp add: sample_idkey_def)
qed

text \<open>A token is the URL-safe text of its random bytes: 43 characters for 32 bytes, none of them
  special in a URL, and different random bytes give different tokens.\<close>

theorem token_url_safe:
  assumes "length random = TokenBytes" and "GenerateToken (Some random) = Some token"
  shows "length token = 43 \<and> set token \<subseteq> set URLAlphabet \<and> b64_decode URLAlphabet token = Some random"
  using assms b64_encode_set [OF good_alphabets(2), of random] b64_decode_encode [OF good_alphabets(2), of random]
  by (auto simp: GenerateToken_def TokenBytes_def length_b64_encode)

theorem token_url_safe_witness:
  "length (b64_encode URLAlphabet (replicate 32 255)) = 43"
  using token_url_safe [of "replicate 32 255" "b64_encode URLAlphabet (replicate 32 255)"]
  by (simp add: TokenBytes_def GenerateToken_def)

end
