(* ===== verification/ServerPayload.thy ===== *)
theory ServerPayload
  imports JsJson "HOL-Library.List_Lexorder"
begin

text \<open>
  What the server does with the content of a secret: the payload part of
  \<^verbatim>\<open>internal/delivery/service.go\<close> and \<^verbatim>\<open>model.go\<close>, with the part of \<^verbatim>\<open>encoding/json\<close> and of the
  string functions it uses. A Go string is represented by its UTF-16 code units, so \<^verbatim>\<open>len\<close> is \<open>utf8_length\<close>;
  a JSON text by its value, with the members of an object in the order of the text. An object
  that has the same member twice (up to case) is outside the model.
\<close>

section \<open>Strings\<close>

text \<open>\<^verbatim>\<open>unicode.IsSpace\<close>: it differs from JavaScript's white space at U+0085 and U+FEFF.\<close>

definition go_space :: "jchar \<Rightarrow> bool" where
  "go_space c \<longleftrightarrow> c \<in> set [0x9, 0xA, 0xB, 0xC, 0xD, 0x20, 0x85, 0xA0, 0x1680, 0x2028, 0x2029, 0x202F,
     0x205F, 0x3000] \<or> (0x2000 \<le> c \<and> c \<le> 0x200A)"

definition TrimSpace :: "jstr \<Rightarrow> jstr" where
  "TrimSpace s = rev (dropWhile go_space (rev (dropWhile go_space s)))"

text \<open>
  \<^verbatim>\<open>strings.ToLower\<close>, exact on ASCII and on the two other characters whose lower case is ASCII. It is applied
  to a type and to a name; both are then compared with ASCII patterns.
\<close>

definition ToLower :: "jstr \<Rightarrow> jstr" where
  "ToLower s = map (\<lambda>c. if 0x41 \<le> c \<and> c \<le> 0x5A then c + 32
                        else if c = 0x212A then 0x6B else if c = 0x130 then 0x69 else c) s"

text \<open>A JSON string in Go: half a surrogate pair is replaced by U+FFFD.\<close>

fun go_text :: "jstr \<Rightarrow> jstr" where
  "go_text [] = []"
| "go_text [u] = [if is_high u \<or> is_low u then 0xFFFD else u]"
| "go_text (u # v # s) =
     (if is_high u \<and> is_low v then u # v # go_text s
      else (if is_high u \<or> is_low u then 0xFFFD else u) # go_text (v # s))"

section \<open>Decoding into a struct\<close>

record structured_field =
  sf_name :: jstr
  sf_label :: jstr
  sf_value :: jstr
  sf_sensitive :: bool
  sf_multiline :: bool

text \<open>\<open>sp_value\<close> is the raw message, \<open>None\<close> when it is empty.\<close>

record secret_payload =
  sp_type :: jstr
  sp_fields :: "structured_field list"
  sp_text :: jstr
  sp_value :: "json option"

definition zero_field :: structured_field where
  "zero_field = \<lparr>sf_name = [], sf_label = [], sf_value = [], sf_sensitive = False, sf_multiline = False\<rparr>"

definition zero_payload :: secret_payload where
  "zero_payload = \<lparr>sp_type = [], sp_fields = [], sp_text = [], sp_value = None\<rparr>"

text \<open>The member of a struct that a key names: equal, or equal up to case.\<close>

definition fold_unit :: "jchar \<Rightarrow> jchar" where
  "fold_unit c = (if 0x41 \<le> c \<and> c \<le> 0x5A then c + 32 else if c = 0x212A then 0x6B
     else if c = 0x17F then 0x73 else c)"

definition member :: "string list \<Rightarrow> jstr \<Rightarrow> string option" where
  "member names k =
     (case filter (\<lambda>n. js n = k) names of
        n # _ \<Rightarrow> Some n
      | [] \<Rightarrow> (case filter (\<lambda>n. js n = map fold_unit k) names of n # _ \<Rightarrow> Some n | [] \<Rightarrow> None))"

text \<open>A value of the wrong kind is an error, \<^verbatim>\<open>null\<close> leaves the member as it is.\<close>

definition decode_string :: "json \<Rightarrow> jstr \<Rightarrow> jstr option" where
  "decode_string v s = (case v of JStr t \<Rightarrow> Some (go_text t) | JNull \<Rightarrow> Some s | _ \<Rightarrow> None)"

definition decode_bool :: "json \<Rightarrow> bool \<Rightarrow> bool option" where
  "decode_bool v b = (case v of JBool c \<Rightarrow> Some c | JNull \<Rightarrow> Some b | _ \<Rightarrow> None)"

definition field_names :: "string list" where
  "field_names = [''name'', ''label'', ''value'', ''sensitive'', ''multiline'']"

definition set_field_member :: "string option \<Rightarrow> json \<Rightarrow> structured_field \<Rightarrow> structured_field option" where
  "set_field_member m v f =
     (if m = Some ''name'' then map_option (\<lambda>s. f\<lparr>sf_name := s\<rparr>) (decode_string v (sf_name f))
      else if m = Some ''label'' then map_option (\<lambda>s. f\<lparr>sf_label := s\<rparr>) (decode_string v (sf_label f))
      else if m = Some ''value'' then map_option (\<lambda>s. f\<lparr>sf_value := s\<rparr>) (decode_string v (sf_value f))
      else if m = Some ''sensitive''
      then map_option (\<lambda>b. f\<lparr>sf_sensitive := b\<rparr>) (decode_bool v (sf_sensitive f))
      else if m = Some ''multiline''
      then map_option (\<lambda>b. f\<lparr>sf_multiline := b\<rparr>) (decode_bool v (sf_multiline f))
      else Some f)"

text \<open>\<open>strict\<close> is \<^verbatim>\<open>DisallowUnknownFields\<close>.\<close>

fun decode_field_members :: "bool \<Rightarrow> (jstr \<times> json) list \<Rightarrow> structured_field \<Rightarrow> structured_field option" where
  "decode_field_members strict [] f = Some f"
| "decode_field_members strict ((k, v) # kvs) f =
     (if strict \<and> member field_names k = None then None
      else
        (case set_field_member (member field_names k) v f of
           None \<Rightarrow> None
         | Some g \<Rightarrow> decode_field_members strict kvs g))"

definition decode_field :: "bool \<Rightarrow> json \<Rightarrow> structured_field option" where
  "decode_field strict v =
     (case v of JObj kvs \<Rightarrow> decode_field_members strict kvs zero_field | JNull \<Rightarrow> Some zero_field | _ \<Rightarrow> None)"

fun decode_field_list :: "bool \<Rightarrow> json list \<Rightarrow> structured_field list option" where
  "decode_field_list strict [] = Some []"
| "decode_field_list strict (v # vs) =
     (case decode_field strict v of
        None \<Rightarrow> None
      | Some f \<Rightarrow> map_option (Cons f) (decode_field_list strict vs))"

definition decode_fields :: "bool \<Rightarrow> json \<Rightarrow> structured_field list option" where
  "decode_fields strict v =
     (case v of JArr vs \<Rightarrow> decode_field_list strict vs | JNull \<Rightarrow> Some [] | _ \<Rightarrow> None)"

definition payload_names :: "string list" where
  "payload_names = [''type'', ''fields'', ''text'', ''value'']"

definition set_payload_member ::
  "bool \<Rightarrow> string option \<Rightarrow> json \<Rightarrow> secret_payload \<Rightarrow> secret_payload option" where
  "set_payload_member strict m v p =
     (if m = Some ''type'' then map_option (\<lambda>s. p\<lparr>sp_type := s\<rparr>) (decode_string v (sp_type p))
      else if m = Some ''fields'' then map_option (\<lambda>fs. p\<lparr>sp_fields := fs\<rparr>) (decode_fields strict v)
      else if m = Some ''text'' then map_option (\<lambda>s. p\<lparr>sp_text := s\<rparr>) (decode_string v (sp_text p))
      else if m = Some ''value'' then Some (p\<lparr>sp_value := Some v\<rparr>)
      else Some p)"

fun decode_payload_members :: "bool \<Rightarrow> (jstr \<times> json) list \<Rightarrow> secret_payload \<Rightarrow> secret_payload option" where
  "decode_payload_members strict [] p = Some p"
| "decode_payload_members strict ((k, v) # kvs) p =
     (if strict \<and> member payload_names k = None then None
      else
        (case set_payload_member strict (member payload_names k) v p of
           None \<Rightarrow> None
         | Some q \<Rightarrow> decode_payload_members strict kvs q))"

definition decode_payload :: "bool \<Rightarrow> json \<Rightarrow> secret_payload option" where
  "decode_payload strict v =
     (case v of JObj kvs \<Rightarrow> decode_payload_members strict kvs zero_payload
      | JNull \<Rightarrow> Some zero_payload | _ \<Rightarrow> None)"

section \<open>Encoding\<close>

definition marshal_field :: "structured_field \<Rightarrow> json" where
  "marshal_field f = JObj [(js ''name'', JStr (sf_name f)), (js ''label'', JStr (sf_label f)),
     (js ''value'', JStr (sf_value f)), (js ''sensitive'', JBool (sf_sensitive f)),
     (js ''multiline'', JBool (sf_multiline f))]"

text \<open>The members with \<^verbatim>\<open>omitempty\<close> are left out when they are empty.\<close>

definition marshal_payload_json :: "secret_payload \<Rightarrow> json" where
  "marshal_payload_json p = JObj ([(js ''type'', JStr (sp_type p))] @
     (if sp_fields p = [] then [] else [(js ''fields'', JArr (map marshal_field (sp_fields p)))]) @
     (if sp_text p = [] then [] else [(js ''text'', JStr (sp_text p))]) @
     (case sp_value p of None \<Rightarrow> [] | Some v \<Rightarrow> [(js ''value'', v)]))"

text \<open>
  The text that \<^verbatim>\<open>json.Marshal\<close> writes: like \<^verbatim>\<open>JSON.stringify\<close> except that it also escapes the angle
  brackets, the ampersand and the two line separators.
\<close>

definition go_quote_unit :: "jchar \<Rightarrow> jstr" where
  "go_quote_unit u =
     (if u \<in> {0x3C, 0x3E, 0x26, 0x2028, 0x2029} then unicode_escape u else quote_unit u)"

fun go_quote_units :: "jstr \<Rightarrow> jstr" where
  "go_quote_units [] = []"
| "go_quote_units [u] = go_quote_unit u"
| "go_quote_units (u # v # s) =
     (if is_high u \<and> is_low v then u # v # go_quote_units s
      else go_quote_unit u @ go_quote_units (v # s))"

definition go_quote :: "jstr \<Rightarrow> jstr" where
  "go_quote s = 0x22 # go_quote_units s @ [0x22]"

fun go_stringify :: "json \<Rightarrow> jstr" where
  "go_stringify JNull = js ''null''"
| "go_stringify (JBool b) = (if b then js ''true'' else js ''false'')"
| "go_stringify (JNum m e) = num_text m e"
| "go_stringify (JStr s) = go_quote s"
| "go_stringify (JArr xs) = js ''['' @ join (js '','') (map go_stringify xs) @ js '']''"
| "go_stringify (JObj kvs) =
     js ''{'' @ join (js '','') (map (\<lambda>(k, v). go_quote k @ js '':'' @ go_stringify v) kvs)
     @ js ''}''"

section \<open>Normalisation\<close>

text \<open>The pattern \<^verbatim>\<open>^[A-Za-z0-9_.-]+$\<close>.\<close>

definition structuredFieldNamePattern :: "jstr \<Rightarrow> bool" where
  "structuredFieldNamePattern s \<longleftrightarrow> s \<noteq> [] \<and> list_all (\<lambda>c. (0x41 \<le> c \<and> c \<le> 0x5A) \<or>
     (0x61 \<le> c \<and> c \<le> 0x7A) \<or> (0x30 \<le> c \<and> c \<le> 0x39) \<or> c \<in> {0x5F, 0x2E, 0x2D}) s"

definition hasControlCharacters :: "jstr \<Rightarrow> bool" where
  "hasControlCharacters s \<longleftrightarrow> list_ex (\<lambda>r. r < 0x20 \<or> r = 0x7F) s"

record payload_summary =
  ps_type :: jstr
  ps_field_count :: nat
  ps_contains_sensitive :: bool

text \<open>The loop over the fields; \<open>seen\<close> are the keys before this field.\<close>

definition normal_field :: "structured_field \<Rightarrow> structured_field" where
  "normal_field f =
     (let name = TrimSpace (sf_name f); label = TrimSpace (sf_label f)
      in f\<lparr>sf_name := name, sf_label := (if label = [] then name else label)\<rparr>)"

definition field_rejected :: "jstr set \<Rightarrow> structured_field \<Rightarrow> bool" where
  "field_rejected seen g \<longleftrightarrow>
     sf_name g = [] \<or> 100 < utf8_length (sf_name g) \<or> 100 < utf8_length (sf_label g) \<or>
     ToLower (sf_name g) \<in> seen \<or> \<not> structuredFieldNamePattern (sf_name g) \<or>
     hasControlCharacters (sf_name g)"

fun normalize_fields :: "jstr set \<Rightarrow> structured_field list \<Rightarrow> structured_field list option" where
  "normalize_fields seen [] = Some []"
| "normalize_fields seen (f # fs) =
     (let g = normal_field f
      in if field_rejected seen g then None
         else map_option (Cons g) (normalize_fields (insert (ToLower (sf_name g)) seen) fs))"

definition normalizePayload :: "secret_payload \<Rightarrow> (secret_payload \<times> payload_summary) option" where
  "normalizePayload p =
     (let t = TrimSpace (ToLower (sp_type p))
      in if t = js ''structured'' then
           (if sp_fields p = [] \<or> 50 < length (sp_fields p) then None
            else
              map_option (\<lambda>fs. (zero_payload\<lparr>sp_type := js ''structured'', sp_fields := fs\<rparr>,
                  \<lparr>ps_type = js ''structured'', ps_field_count = length fs,
                   ps_contains_sensitive = list_ex sf_sensitive fs\<rparr>))
                (normalize_fields {} (sp_fields p)))
         else if t = js ''text'' then
           Some (zero_payload\<lparr>sp_type := js ''text'', sp_text := sp_text p\<rparr>,
             \<lparr>ps_type = js ''text'', ps_field_count = 0, ps_contains_sensitive = False\<rparr>)
         else if t = js ''json'' then
           (case sp_value p of
              None \<Rightarrow> None
            | Some v \<Rightarrow> Some (zero_payload\<lparr>sp_type := js ''json'', sp_value := Some v\<rparr>,
                \<lparr>ps_type = js ''json'', ps_field_count = 0, ps_contains_sensitive = False\<rparr>))
         else None)"

definition marshalPayload :: "secret_payload \<Rightarrow> (json \<times> payload_summary) option" where
  "marshalPayload p = map_option (\<lambda>(n, summary). (marshal_payload_json n, summary)) (normalizePayload p)"

text \<open>A secret in the old form: a string, or any other JSON. Decoding \<^verbatim>\<open>null\<close> as a string succeeds.\<close>

definition legacyPayload :: "json \<Rightarrow> secret_payload" where
  "legacyPayload secret =
     (case secret of
        JStr s \<Rightarrow> zero_payload\<lparr>sp_type := js ''text'', sp_text := go_text s\<rparr>
      | JNull \<Rightarrow> zero_payload\<lparr>sp_type := js ''text''\<rparr>
      | _ \<Rightarrow> zero_payload\<lparr>sp_type := js ''json'', sp_value := Some secret\<rparr>)"

text \<open>\<open>json.Marshal\<close> of a map lists the keys in their order, the last value of a key.\<close>

definition legacyProjection :: "secret_payload \<Rightarrow> json option" where
  "legacyProjection p =
     (if sp_type p = js ''structured'' then
        (let m = map_of (rev (map (\<lambda>f. (sf_name f, JStr (sf_value f))) (sp_fields p)))
         in Some (JObj (map (\<lambda>k. (k, the (m k))) (sort (remdups (map sf_name (sp_fields p)))))))
      else if sp_type p = js ''text'' then Some (JStr (sp_text p))
      else if sp_type p = js ''json'' then sp_value p
      else None)"

text \<open>The canonical payload and the old form of a decrypted text.\<close>

definition normalizeConsumedPayload :: "json \<Rightarrow> (json \<times> json) option" where
  "normalizeConsumedPayload plaintext =
     (case Option.bind (decode_payload False plaintext) normalizePayload of
        Some (n, _) \<Rightarrow> map_option (\<lambda>legacy. (marshal_payload_json n, legacy)) (legacyProjection n)
      | None \<Rightarrow>
          map_option (\<lambda>(canonical, _). (canonical, plaintext)) (marshalPayload (legacyPayload plaintext)))"

section \<open>Valid strings\<close>

text \<open>A Go string that came from JSON: no half of a surrogate pair.\<close>

definition go_valid :: "jstr \<Rightarrow> bool" where
  "go_valid s \<longleftrightarrow> go_text s = s"

definition surrogate :: "jchar \<Rightarrow> bool" where
  "surrogate u \<longleftrightarrow> is_high u \<or> is_low u"

lemma go_text_Cons: "\<not> surrogate u \<Longrightarrow> go_text (u # s) = u # go_text s"
  by (cases s) (auto simp: surrogate_def)

lemma go_text_Nil_iff [simp]: "go_text s = [] \<longleftrightarrow> s = []"
  by (cases s rule: go_text.cases) auto

lemma replacement_not_surrogate: "\<not> surrogate 0xFFFD"
  by (simp add: surrogate_def is_high_def is_low_def word_le_nat_alt)

lemma go_text_idem [simp]: "go_text (go_text s) = go_text s"
proof (induction s rule: go_text.induct)
  case (2 u)
  then show ?case using replacement_not_surrogate by (auto simp: surrogate_def)
next
  case (3 u v s)
  show ?case
  proof (cases "is_high u \<and> is_low v")
    case False
    obtain w where w: "w = (if is_high u \<or> is_low u then 0xFFFD else u)" by simp
    have "\<not> surrogate w" unfolding w using replacement_not_surrogate by (auto simp: surrogate_def)
    moreover have "go_text (u # v # s) = w # go_text (v # s)" unfolding w using False by auto
    ultimately show ?thesis using 3(2) [OF False] by (simp add: go_text_Cons del: go_text.simps)
  qed (use 3(1) in auto)
qed simp

lemma go_valid_text [simp]: "go_valid (go_text s)"
  by (simp add: go_valid_def)

lemma go_text_valid: "go_valid s \<Longrightarrow> go_text s = s"
  by (simp add: go_valid_def)

lemma go_text_snoc: "\<not> surrogate u \<Longrightarrow> go_text (s @ [u]) = go_text s @ [u]"
  by (induction s rule: go_text.induct) (auto simp: surrogate_def)

lemma space_not_surrogate: "go_space c \<Longrightarrow> \<not> surrogate c"
  by (auto simp: go_space_def surrogate_def is_high_def is_low_def word_le_nat_alt)

lemma go_valid_dropWhile: "go_valid s \<Longrightarrow> go_valid (dropWhile go_space s)"
  by (induction s) (auto simp: go_valid_def go_text_Cons space_not_surrogate)

lemma go_valid_dropWhile_rev: "go_valid (rev s) \<Longrightarrow> go_valid (rev (dropWhile go_space s))"
  by (induction s) (auto simp: go_valid_def go_text_snoc space_not_surrogate)

lemma go_valid_TrimSpace: "go_valid s \<Longrightarrow> go_valid (TrimSpace s)"
  unfolding TrimSpace_def by (rule go_valid_dropWhile_rev) (simp add: go_valid_dropWhile)

lemma TrimSpace_TrimSpace [simp]: "TrimSpace (TrimSpace s) = TrimSpace s"
proof -
  have "dropWhile go_space (TrimSpace s) = TrimSpace s"
    unfolding TrimSpace_def by (rule dropWhile_rev_dropWhile_rev) (rule dropWhile_idem)
  then show ?thesis by (simp add: TrimSpace_def dropWhile_idem)
qed

lemma go_valid_Nil [simp]: "go_valid []"
  by (simp add: go_valid_def)

lemma go_text_js [simp]: "go_text (js s) = js s"
proof (induction s)
  case (Cons c s)
  have "unat (word_of_nat (of_char c) :: jchar) < 256"
    using of_char_less_256 [of c] le_less_trans [OF mod_less_eq_dividend] by (simp add: unat_of_nat)
  then have "\<not> surrogate (word_of_nat (of_char c))"
    by (simp add: surrogate_def is_high_def is_low_def word_le_nat_alt)
  then show ?case using Cons by (simp add: js_def go_text_Cons)
qed simp

definition field_valid :: "structured_field \<Rightarrow> bool" where
  "field_valid f \<longleftrightarrow> go_valid (sf_name f) \<and> go_valid (sf_label f) \<and> go_valid (sf_value f)"

definition payload_valid :: "secret_payload \<Rightarrow> bool" where
  "payload_valid p \<longleftrightarrow> (\<forall>f \<in> set (sp_fields p). field_valid f) \<and> go_valid (sp_text p)"

lemma decode_string_valid: "decode_string v s = Some t \<Longrightarrow> go_valid s \<Longrightarrow> go_valid t"
  by (auto simp: decode_string_def split: json.splits)

lemma set_field_member_valid: "set_field_member m v f = Some g \<Longrightarrow> field_valid f \<Longrightarrow> field_valid g"
  by (auto simp: set_field_member_def field_valid_def split: if_splits dest: decode_string_valid)

lemma decode_field_members_valid:
  "decode_field_members strict kvs f = Some g \<Longrightarrow> field_valid f \<Longrightarrow> field_valid g"
  by (induction strict kvs f rule: decode_field_members.induct)
    (auto split: if_splits option.splits dest: set_field_member_valid)

lemma decode_field_valid: "decode_field strict v = Some f \<Longrightarrow> field_valid f"
  by (auto simp: decode_field_def field_valid_def zero_field_def split: json.splits
      dest: decode_field_members_valid)

lemma decode_field_list_valid: "decode_field_list strict vs = Some fs \<Longrightarrow> \<forall>f \<in> set fs. field_valid f"
  by (induction vs arbitrary: fs) (auto split: option.splits dest: decode_field_valid)

lemma decode_payload_members_valid:
  "decode_payload_members strict kvs p = Some q \<Longrightarrow> payload_valid p \<Longrightarrow> payload_valid q"
proof (induction strict kvs p rule: decode_payload_members.induct)
  case (2 strict k v kvs p)
  have "payload_valid q" if "set_payload_member strict m v p = Some q" for m q
    using that 2(3)
    by (auto simp: set_payload_member_def payload_valid_def decode_fields_def
        split: if_splits json.splits dest: decode_string_valid decode_field_list_valid)
  with 2 show ?case by (auto split: if_splits option.splits)
qed simp

lemma decode_payload_valid: "decode_payload strict v = Some p \<Longrightarrow> payload_valid p"
  by (auto simp: decode_payload_def payload_valid_def zero_payload_def split: json.splits
      dest!: decode_payload_members_valid)

section \<open>What normalisation accepts\<close>

text \<open>The specification: what the loop checks, over the whole list of normalised fields.\<close>

definition fields_accepted :: "jstr set \<Rightarrow> structured_field list \<Rightarrow> bool" where
  "fields_accepted seen gs \<longleftrightarrow>
     (\<forall>g \<in> set gs. structuredFieldNamePattern (sf_name g) \<and> utf8_length (sf_name g) \<le> 100 \<and>
        utf8_length (sf_label g) \<le> 100 \<and> ToLower (sf_name g) \<notin> seen) \<and>
     distinct (map (\<lambda>g. ToLower (sf_name g)) gs)"

lemma pattern_no_control: "structuredFieldNamePattern s \<Longrightarrow> \<not> hasControlCharacters s"
  by (fastforce simp: structuredFieldNamePattern_def hasControlCharacters_def list_all_iff list_ex_iff unit_nat)

lemma field_rejected_iff:
  "field_rejected seen g \<longleftrightarrow> \<not> (structuredFieldNamePattern (sf_name g) \<and> utf8_length (sf_name g) \<le> 100 \<and>
     utf8_length (sf_label g) \<le> 100 \<and> ToLower (sf_name g) \<notin> seen)"
  using pattern_no_control [of "sf_name g"]
  by (auto simp: field_rejected_def structuredFieldNamePattern_def)

lemma normalize_fields_eq:
  "normalize_fields seen fs =
     (if fields_accepted seen (map normal_field fs) then Some (map normal_field fs) else None)"
proof (induction fs arbitrary: seen)
  case (Cons f fs)
  have "fields_accepted seen (map normal_field (f # fs)) \<longleftrightarrow>
      \<not> field_rejected seen (normal_field f) \<and>
      fields_accepted (insert (ToLower (sf_name (normal_field f))) seen) (map normal_field fs)"
    by (auto simp: fields_accepted_def field_rejected_iff image_iff)
  then show ?case by (simp add: Let_def Cons)
qed (simp add: fields_accepted_def)

lemma normal_field_idem [simp]: "normal_field (normal_field f) = normal_field f"
  by (auto simp: normal_field_def Let_def)

lemma normal_field_comp [simp]: "normal_field \<circ> normal_field = normal_field"
  by (rule ext) simp

lemma normal_field_valid: "field_valid f \<Longrightarrow> field_valid (normal_field f)"
  by (auto simp: field_valid_def normal_field_def Let_def intro: go_valid_TrimSpace)

text \<open>A normalised payload: one of three forms, nothing else in it.\<close>

lemma normalizePayload_cases:
  assumes "normalizePayload p = Some (n, summary)"
  obtains fs where "n = zero_payload\<lparr>sp_type := js ''structured'', sp_fields := fs\<rparr>" "fs \<noteq> []"
      "length fs \<le> 50" "fields_accepted {} fs" "map normal_field fs = fs" "fs = map normal_field (sp_fields p)"
    | t where "n = zero_payload\<lparr>sp_type := js ''text'', sp_text := t\<rparr>" "t = sp_text p"
    | v where "n = zero_payload\<lparr>sp_type := js ''json'', sp_value := Some v\<rparr>"
proof -
  let ?t = "TrimSpace (ToLower (sp_type p))"
  have neq: "js ''structured'' \<noteq> js ''text''" "js ''structured'' \<noteq> js ''json''" "js ''text'' \<noteq> js ''json''"
    by simp_all
  consider "?t = js ''structured''" | "?t = js ''text''" | "?t = js ''json''"
    using assms by (auto simp: normalizePayload_def Let_def split: if_splits)
  then show thesis
  proof cases
    case 1
    from assms 1 have "sp_fields p \<noteq> []" "length (sp_fields p) \<le> 50"
      by (auto simp: normalizePayload_def Let_def split: if_splits)
    with assms 1 show thesis
      by (intro that(1) [of "map normal_field (sp_fields p)"])
        (auto simp: normalizePayload_def Let_def normalize_fields_eq comp_def split: if_splits)
  next
    case 2
    with assms show thesis by (intro that(2)) (auto simp: normalizePayload_def Let_def)
  next
    case 3
    with assms show thesis
      using that(3) by (auto simp: normalizePayload_def Let_def split: option.splits)
  qed
qed

section \<open>Round trips\<close>

lemma member_own:
  "member field_names (js ''name'') = Some ''name''" "member field_names (js ''label'') = Some ''label''"
  "member field_names (js ''value'') = Some ''value''"
  "member field_names (js ''sensitive'') = Some ''sensitive''"
  "member field_names (js ''multiline'') = Some ''multiline''"
  "member payload_names (js ''type'') = Some ''type''" "member payload_names (js ''fields'') = Some ''fields''"
  "member payload_names (js ''text'') = Some ''text''" "member payload_names (js ''value'') = Some ''value''"
  by (simp_all add: member_def field_names_def payload_names_def)

lemma decode_marshal_field: "field_valid f \<Longrightarrow> decode_field strict (marshal_field f) = Some f"
  by (simp add: decode_field_def marshal_field_def member_own set_field_member_def decode_string_def
      decode_bool_def field_valid_def go_text_valid zero_field_def)

lemma decode_marshal_fields:
  "\<forall>f \<in> set fs. field_valid f \<Longrightarrow> decode_field_list strict (map marshal_field fs) = Some fs"
  by (induction fs) (simp_all add: decode_marshal_field)

lemma decode_marshal_payload:
  assumes "payload_valid p" and "go_valid (sp_type p)"
  shows "decode_payload strict (marshal_payload_json p) = Some p"
  using assms
  by (cases "sp_value p")
    (auto simp: decode_payload_def marshal_payload_json_def member_own set_payload_member_def
      decode_string_def decode_fields_def decode_marshal_fields payload_valid_def go_text_valid zero_payload_def)

lemma TrimSpace_id: "list_all (\<lambda>c. \<not> go_space c) s \<Longrightarrow> TrimSpace s = s"
proof -
  assume a: "list_all (\<lambda>c. \<not> go_space c) s"
  have "dropWhile go_space t = t" if "list_all (\<lambda>c. \<not> go_space c) t" for t
    using that by (cases t) auto
  with a show ?thesis by (simp add: TrimSpace_def list_all_rev)
qed

text \<open>On literals.\<close>

definition go_plain_char :: "char \<Rightarrow> bool" where
  [text_literals]: "go_plain_char c \<longleftrightarrow> plain_char c \<and> (of_char c :: nat) \<notin> {0x3C, 0x3E, 0x26}"

lemma go_plain_char_unit:
  assumes "go_plain_char c"
  shows "go_quote_unit (word_of_nat (of_char c)) = [word_of_nat (of_char c)]"
    and "\<not> is_high (word_of_nat (of_char c))"
  using assms
  by (simp_all add: go_plain_char_def go_quote_unit_def plain_char_unit code_unit_eq) (simp add: plain_char_def)

lemma go_quote_js [text_literals]: "list_all go_plain_char s \<Longrightarrow> go_quote (js s) = js (CHR 0x22 # s @ [CHR 0x22])"
proof -
  assume "list_all go_plain_char s"
  then have "go_quote_units (js s) = js s"
    by (induction s rule: induct_list012) (simp_all add: js_def go_plain_char_unit)
  then show ?thesis by (simp add: go_quote_def) (simp add: js_def)
qed

lemma go_text_js_ascii [text_literals]: "list_all (\<lambda>c. (of_char c :: nat) < 128) s \<Longrightarrow> go_text (js s) = js s"
  by (induction s rule: induct_list012) (simp_all add: js_def is_high_def is_low_def code_unit_simps)

lemma structuredFieldNamePattern_js [text_literals]:
  "structuredFieldNamePattern (js s) \<longleftrightarrow> s \<noteq> [] \<and> list_all (\<lambda>c. let n = of_char c :: nat in
     65 \<le> n \<and> n \<le> 90 \<or> 97 \<le> n \<and> n \<le> 122 \<or> 48 \<le> n \<and> n \<le> 57 \<or> n = 95 \<or> n = 46 \<or> n = 45) s"
  by (simp add: structuredFieldNamePattern_def list_all_js code_unit_simps Let_def)

lemma TrimSpace_js [text_literals]:
  "list_all (\<lambda>c. 32 < (of_char c :: nat) \<and> (of_char c :: nat) < 128) s \<Longrightarrow> TrimSpace (js s) = js s"
  by (rule TrimSpace_id, unfold list_all_js) (auto simp: list_all_iff go_space_def code_unit_simps)

lemma ToLower_js [text_literals]:
  "list_all (\<lambda>c. (of_char c :: nat) < 128 \<and> \<not> (65 \<le> (of_char c :: nat) \<and> (of_char c :: nat) \<le> 90)) s \<Longrightarrow>
   ToLower (js s) = js s"
  by (auto simp: ToLower_def js_def list_all_iff code_unit_simps)

lemma hasControlCharacters_js [text_literals]:
  "hasControlCharacters (js s) = list_ex (\<lambda>c. (of_char c :: nat) < 32 \<or> (of_char c :: nat) = 127) s"
  by (auto simp: hasControlCharacters_def js_def list_ex_iff code_unit_simps)

lemma type_names: "TrimSpace (ToLower (js ''structured'')) = js ''structured''"
  "TrimSpace (ToLower (js ''text'')) = js ''text''" "TrimSpace (ToLower (js ''json'')) = js ''json''"
  by (simp_all add: text_literals)

lemma normalizePayload_simps:
  "normalizePayload (zero_payload\<lparr>sp_type := js ''text'', sp_text := t\<rparr>) =
     Some (zero_payload\<lparr>sp_type := js ''text'', sp_text := t\<rparr>,
       \<lparr>ps_type = js ''text'', ps_field_count = 0, ps_contains_sensitive = False\<rparr>)"
  "normalizePayload (zero_payload\<lparr>sp_type := js ''json'', sp_value := Some v\<rparr>) =
     Some (zero_payload\<lparr>sp_type := js ''json'', sp_value := Some v\<rparr>,
       \<lparr>ps_type = js ''json'', ps_field_count = 0, ps_contains_sensitive = False\<rparr>)"
  "normalizePayload (zero_payload\<lparr>sp_type := js ''structured'', sp_fields := fs\<rparr>) =
     (if fs = [] \<or> 50 < length fs \<or> \<not> fields_accepted {} (map normal_field fs) then None
      else Some (zero_payload\<lparr>sp_type := js ''structured'', sp_fields := map normal_field fs\<rparr>,
        \<lparr>ps_type = js ''structured'', ps_field_count = length fs,
         ps_contains_sensitive = list_ex sf_sensitive (map normal_field fs)\<rparr>))"
  by (simp_all add: normalizePayload_def type_names normalize_fields_eq zero_payload_def Let_def)

lemma normalizePayload_idem:
  assumes "normalizePayload p = Some (n, summary)"
  shows "\<exists>summary'. normalizePayload n = Some (n, summary')"
  using assms by (cases rule: normalizePayload_cases) (simp_all add: normalizePayload_simps)

lemma normalizePayload_valid:
  assumes "normalizePayload p = Some (n, summary)" and "payload_valid p"
  shows "payload_valid n \<and> go_valid (sp_type n)"
  using assms(1)
  by (cases rule: normalizePayload_cases)
    (use assms(2) in \<open>auto simp: payload_valid_def zero_payload_def go_valid_def normal_field_valid
       simp del: go_text.simps\<close>)

lemma legacyProjection_normal:
  assumes "normalizePayload p = Some (n, summary)"
  shows "legacyProjection n \<noteq> None"
  using assms by (cases rule: normalizePayload_cases) (simp_all add: legacyProjection_def Let_def zero_payload_def)

lemma normal_payload_consumed:
  assumes "payload_valid p" and "normalizePayload p = Some (n, summary)"
  shows "decode_payload strict (marshal_payload_json n) = Some n"
    and "\<exists>legacy. legacyProjection n = Some legacy \<and>
      normalizeConsumedPayload (marshal_payload_json n) = Some (marshal_payload_json n, legacy)"
proof -
  have valid: "payload_valid n" "go_valid (sp_type n)"
    using normalizePayload_valid [OF assms(2,1)] by auto
  show decode: "decode_payload strict (marshal_payload_json n) = Some n" for strict
    by (rule decode_marshal_payload [OF valid])
  obtain summary' where "normalizePayload n = Some (n, summary')"
    using normalizePayload_idem [OF assms(2)] by blast
  moreover obtain legacy where "legacyProjection n = Some legacy"
    using legacyProjection_normal [OF assms(2)] by blast
  ultimately show "\<exists>legacy. legacyProjection n = Some legacy \<and>
      normalizeConsumedPayload (marshal_payload_json n) = Some (marshal_payload_json n, legacy)"
    by (simp add: normalizeConsumedPayload_def decode)
qed

text \<open>C13: What the server stores for an accepted payload is what it later delivers: the stored JSON decodes to
  the normalised payload, which normalises to itself, so a recipient gets exactly the canonical JSON
  that was stored.\<close>

theorem payload_round_trip:
  assumes "decode_payload strict v = Some p" and "normalizePayload p = Some (n, summary)"
  shows "decode_payload strict' (marshal_payload_json n) = Some n \<and>
    (\<exists>legacy. legacyProjection n = Some legacy \<and>
      normalizeConsumedPayload (marshal_payload_json n) = Some (marshal_payload_json n, legacy))"
  using normal_payload_consumed [OF decode_payload_valid [OF assms(1)] assms(2)] by blast

definition sample_payload :: json where
  "sample_payload = JObj [(js ''type'', JStr (js ''Structured'')), (js ''fields'',
     JArr [JObj [(js ''name'', JStr (js '' user'')), (js ''value'', JStr (js ''a''))],
           JObj [(js ''name'', JStr (js ''API.key'')), (js ''sensitive'', JBool True)]])]"

definition sample_normal :: secret_payload where
  "sample_normal = zero_payload\<lparr>sp_type := js ''structured'', sp_fields :=
     [zero_field\<lparr>sf_name := js ''user'', sf_label := js ''user'', sf_value := js ''a''\<rparr>,
      zero_field\<lparr>sf_name := js ''API.key'', sf_label := js ''API.key'', sf_sensitive := True\<rparr>]\<rparr>"

theorem payload_round_trip_witness:
  "decode_payload False (marshal_payload_json sample_normal) = Some sample_normal"
proof -
  have "\<exists>p. decode_payload True sample_payload = Some p \<and> normalizePayload p = Some (sample_normal,
      \<lparr>ps_type = js ''structured'', ps_field_count = 2, ps_contains_sensitive = True\<rparr>)"
  proof -
    have t: "TrimSpace (ToLower (js ''Structured'')) = js ''structured''" "TrimSpace (js '' user'') = js ''user''"
      "ToLower (js ''API.key'') \<noteq> ToLower (js ''user'')" "TrimSpace [] = []"
      by (simp_all add: TrimSpace_def ToLower_def js_def go_space_def)
    then show ?thesis
      by (simp add: decode_payload_def sample_payload_def member_own set_payload_member_def decode_string_def
          text_literals zero_payload_def decode_fields_def decode_field_def set_field_member_def decode_bool_def
          zero_field_def normalizePayload_def normal_field_def field_rejected_def sample_normal_def Let_def)
  qed
  then show ?thesis using payload_round_trip by blast
qed

end
