(* ===== verification/DeliveryService.thy ===== *)
theory DeliveryService
  imports DeliveryStore Credentials ServerPayload
begin

text \<open>
  The delivery service: \<^verbatim>\<open>internal/delivery/service.go\<close> over the table of \<open>DeliveryStore\<close>. A call to
  \<^verbatim>\<open>Consume\<close> is a program counter between its statements, so that any number of calls, in any number of
  processes, run interleaved with each other and with creation, revocation, password changes and the
  cleanup. Every statement takes its own time, may fail before it runs, or may run and have its answer
  lost. Vault is a partial function on ciphertexts that may be unreachable at any call; metrics
  and logs are left out, audit events are kept.
\<close>

section \<open>Errors\<close>

datatype delivery_error = ErrInvalidRequest | ErrUnauthorized | ErrForbidden | ErrSecretUnavailable |
  ErrLinkPasswordInvalid | ErrPayloadTooLarge | ErrDependencyUnavailable | ErrInternal

definition ErrorStatus :: "delivery_error \<Rightarrow> nat" where
  "ErrorStatus e =
     (case e of ErrUnauthorized \<Rightarrow> 401 | ErrLinkPasswordInvalid \<Rightarrow> 401 | ErrForbidden \<Rightarrow> 403
      | ErrSecretUnavailable \<Rightarrow> 410 | ErrPayloadTooLarge \<Rightarrow> 413 | ErrDependencyUnavailable \<Rightarrow> 503
      | ErrInvalidRequest \<Rightarrow> 400 | ErrInternal \<Rightarrow> 500)"

definition ErrorCodeFor :: "delivery_error \<Rightarrow> string" where
  "ErrorCodeFor e =
     (case e of ErrUnauthorized \<Rightarrow> ''UNAUTHORIZED'' | ErrLinkPasswordInvalid \<Rightarrow> ''LINK_PASSWORD_INVALID''
      | ErrForbidden \<Rightarrow> ''FORBIDDEN'' | ErrSecretUnavailable \<Rightarrow> ''SECRET_UNAVAILABLE''
      | ErrPayloadTooLarge \<Rightarrow> ''PAYLOAD_TOO_LARGE'' | ErrDependencyUnavailable \<Rightarrow> ''DEPENDENCY_UNAVAILABLE''
      | ErrInvalidRequest \<Rightarrow> ''INVALID_REQUEST'' | ErrInternal \<Rightarrow> ''INTERNAL_ERROR'')"

section \<open>The services it calls\<close>

text \<open>What happens to a statement: it runs, it does not, or it runs and its answer is lost.\<close>

datatype db_reply = Answered | NotRun | AnswerLost

definition db_call :: "db_reply \<Rightarrow> 's \<times> 'r \<Rightarrow> 's \<Rightarrow> 's \<times> 'r option" where
  "db_call reply result s =
     (case reply of Answered \<Rightarrow> (fst result, Some (snd result)) | NotRun \<Rightarrow> (s, None)
      | AnswerLost \<Rightarrow> (fst result, None))"

text \<open>The text to which Vault opens a ciphertext: a JSON value, or bytes that are no JSON.\<close>

datatype plaintext = JsonText json | OtherText

record service_env =
  TokenHMACPepper :: bytes
  hmac_sha256 :: "bytes \<Rightarrow> bytes \<Rightarrow> bytes"
  IDKey :: idkey
  vault_open :: "bytes \<Rightarrow> plaintext option"
  ConsumingLeaseTTL :: int
  MaxSecretBytes :: int
  MaxSecretTTL :: int
  DefaultSecretTTL :: int
  AppBaseURL :: bytes

definition token_hmac :: "service_env \<Rightarrow> bytes \<Rightarrow> bytes option" where
  "token_hmac env token = TokenHMAC (hmac_sha256 env) (TokenHMACPepper env) token"

record audit_event =
  ae_delivery :: "uuid option"
  ae_actor :: bytes
  ae_type :: string
  ae_result :: string

definition audit :: "uuid \<Rightarrow> bytes \<Rightarrow> string \<Rightarrow> string \<Rightarrow> audit_event" where
  "audit i actor t r = \<lparr>ae_delivery = Some i, ae_actor = actor, ae_type = t,
     ae_result = (if r = [] then ''success'' else r)\<rparr>"

section \<open>Consume\<close>

record consume_response =
  rs_secret :: json
  rs_payload :: json

text \<open>
  Where a call is: before its first statement, between two statements, or ended. \<open>Released\<close> carries the
  id of the row whose content it returns; \<open>Abandoned\<close> is a call whose process died or panicked.
\<close>

datatype consume_pc =
    Arrived
  | WantFailure bytes bytes
  | WantBegin bytes "bytes option" uuid
  | WantDecrypt uuid uuid bytes
  | WantRestore uuid uuid
  | WantComplete uuid uuid plaintext
  | Refused delivery_error
  | Released uuid consume_response
  | Abandoned

record consume_call =
  cc_token :: bytes
  cc_password :: bytes
  cc_pc :: consume_pc

text \<open>What the surroundings decide at one step: the time, the reply of the database, the new lease id, whether Vault answers.\<close>

record consume_oracle =
  co_now :: int
  co_reply :: db_reply
  co_lease :: "uuid option"
  co_vault_up :: bool

definition consume_lookup ::
  "service_env \<Rightarrow> consume_oracle \<Rightarrow> bytes \<Rightarrow> bytes \<Rightarrow> delivery_table \<Rightarrow> consume_pc" where
  "consume_lookup env w token password rows =
     (case token_hmac env token of
        None \<Rightarrow> Refused ErrSecretUnavailable
      | Some hash \<Rightarrow>
          (case snd (db_call (co_reply w)
                  (rows, FindConsumeCandidate (co_now w) (ConsumingLeaseTTL env) hash rows) rows) of
             None \<Rightarrow> Refused ErrInternal
           | Some None \<Rightarrow> Refused ErrSecretUnavailable
           | Some (Some item) \<Rightarrow>
               (let begin_it = (case co_lease w of None \<Rightarrow> Refused ErrInternal
                                | Some lease \<Rightarrow> WantBegin hash (password_hash item) lease)
                in case password_hash item of
                     None \<Rightarrow> begin_it
                   | Some stored \<Rightarrow>
                       (case VerifyPassword (IDKey env) password stored of
                          None \<Rightarrow> Abandoned
                        | Some True \<Rightarrow> begin_it
                        | Some False \<Rightarrow> WantFailure hash stored))))"

definition consume_failure ::
  "service_env \<Rightarrow> consume_oracle \<Rightarrow> bytes \<Rightarrow> bytes \<Rightarrow> delivery_table \<Rightarrow>
   delivery_table \<times> consume_pc \<times> audit_event list" where
  "consume_failure env w hash stored rows =
     (case db_call (co_reply w)
             (RecordPasswordFailure (co_now w) (ConsumingLeaseTTL env) hash stored rows) rows of
        (rows', None) \<Rightarrow> (rows', Refused ErrInternal, [])
      | (rows', Some None) \<Rightarrow> (rows', Refused ErrSecretUnavailable, [])
      | (rows', Some (Some (i, locked))) \<Rightarrow>
          (rows', Refused (if locked then ErrSecretUnavailable else ErrLinkPasswordInvalid),
           [audit i [] ''secret.password_failed'' (if locked then ''locked'' else ''invalid'')]))"

definition consume_begin ::
  "service_env \<Rightarrow> consume_oracle \<Rightarrow> bytes \<Rightarrow> bytes option \<Rightarrow> uuid \<Rightarrow> delivery_table \<Rightarrow>
   delivery_table \<times> consume_pc" where
  "consume_begin env w hash expected lease rows =
     (case db_call (co_reply w)
             (BeginConsume (co_now w) (ConsumingLeaseTTL env) hash expected lease rows) rows of
        (rows', None) \<Rightarrow> (rows', Refused ErrInternal)
      | (rows', Some None) \<Rightarrow> (rows', Refused ErrSecretUnavailable)
      | (rows', Some (Some item)) \<Rightarrow> (rows', WantDecrypt (dr_id item) lease (encrypted_payload item)))"

definition consume_decrypt :: "service_env \<Rightarrow> consume_oracle \<Rightarrow> uuid \<Rightarrow> uuid \<Rightarrow> bytes \<Rightarrow> consume_pc" where
  "consume_decrypt env w i lease ciphertext =
     (case (if co_vault_up w then vault_open env ciphertext else None) of
        None \<Rightarrow> WantRestore i lease
      | Some plain \<Rightarrow> WantComplete i lease plain)"

text \<open>An error of the restore is only logged.\<close>

definition consume_restore ::
  "consume_oracle \<Rightarrow> uuid \<Rightarrow> uuid \<Rightarrow> delivery_table \<Rightarrow> delivery_table \<times> consume_pc" where
  "consume_restore w i lease rows =
     (fst (db_call (co_reply w) (RestoreConsume (co_now w) i lease rows, ()) rows),
      Refused ErrDependencyUnavailable)"

definition response_of :: "uuid \<Rightarrow> plaintext \<Rightarrow> consume_pc" where
  "response_of i plain =
     (case plain of
        OtherText \<Rightarrow> Refused ErrInternal
      | JsonText v \<Rightarrow>
          (case normalizeConsumedPayload v of
             None \<Rightarrow> Refused ErrInternal
           | Some (canonical, legacy) \<Rightarrow> Released i \<lparr>rs_secret = legacy, rs_payload = canonical\<rparr>))"

definition consume_complete ::
  "consume_oracle \<Rightarrow> uuid \<Rightarrow> uuid \<Rightarrow> plaintext \<Rightarrow> delivery_table \<Rightarrow>
   delivery_table \<times> consume_pc \<times> audit_event list" where
  "consume_complete w i lease plain rows =
     (case db_call (co_reply w) (CompleteConsume (co_now w) i lease rows) rows of
        (rows', None) \<Rightarrow> (rows', Refused ErrInternal, [])
      | (rows', Some False) \<Rightarrow> (rows', Refused ErrSecretUnavailable, [])
      | (rows', Some True) \<Rightarrow>
          (rows', response_of i plain,
           (case response_of i plain of
              Released _ _ \<Rightarrow> [audit i [] ''secret.consumed'' ''success''] | _ \<Rightarrow> [])))"

text \<open>One step of a call: the next statement, up to the following one.\<close>

definition consume_step ::
  "service_env \<Rightarrow> consume_oracle \<Rightarrow> consume_call \<Rightarrow> delivery_table \<Rightarrow>
   delivery_table \<times> consume_pc \<times> audit_event list" where
  "consume_step env w c rows =
     (case cc_pc c of
        Arrived \<Rightarrow> (rows, consume_lookup env w (cc_token c) (cc_password c) rows, [])
      | WantFailure hash stored \<Rightarrow> consume_failure env w hash stored rows
      | WantBegin hash expected lease \<Rightarrow>
          (case consume_begin env w hash expected lease rows of (rows', pc) \<Rightarrow> (rows', pc, []))
      | WantDecrypt i lease ciphertext \<Rightarrow> (rows, consume_decrypt env w i lease ciphertext, [])
      | WantRestore i lease \<Rightarrow> (case consume_restore w i lease rows of (rows', pc) \<Rightarrow> (rows', pc, []))
      | WantComplete i lease plain \<Rightarrow> consume_complete w i lease plain rows
      | pc \<Rightarrow> (rows, pc, []))"

section \<open>Create\<close>

definition utf8_unit :: "nat \<Rightarrow> bytes" where
  "utf8_unit n =
     (if n < 0x80 then [word_of_nat n]
      else if n < 0x800 then [word_of_nat (0xC0 + n div 64), word_of_nat (0x80 + n mod 64)]
      else if n < 0x10000 then
        [word_of_nat (0xE0 + n div 4096), word_of_nat (0x80 + n div 64 mod 64), word_of_nat (0x80 + n mod 64)]
      else [word_of_nat (0xF0 + n div 262144), word_of_nat (0x80 + n div 4096 mod 64),
            word_of_nat (0x80 + n div 64 mod 64), word_of_nat (0x80 + n mod 64)])"

text \<open>The bytes of a Go string that is given by its UTF-16 code units.\<close>

fun utf8_bytes :: "jstr \<Rightarrow> bytes" where
  "utf8_bytes [] = []"
| "utf8_bytes [u] = utf8_unit (if is_high u \<or> is_low u then 0xFFFD else unat u)"
| "utf8_bytes (u # v # s) =
     (if is_high u \<and> is_low v
      then utf8_unit (0x10000 + (unat u - 0xD800) * 1024 + (unat v - 0xDC00)) @ utf8_bytes s
      else utf8_unit (if is_high u \<or> is_low u then 0xFFFD else unat u) @ utf8_bytes (v # s))"

record create_request =
  cr_title :: jstr
  cr_description :: jstr
  cr_recipient_reference :: jstr
  cr_secret :: "json option"
  cr_payload :: "secret_payload option"
  cr_expires_in_seconds :: "64 word"
  cr_password :: "jstr option"
  cr_max_failed_attempts :: int

definition canonicalPayload :: "create_request \<Rightarrow> (json \<times> payload_summary) option" where
  "canonicalPayload req =
     (case cr_payload req of
        Some p \<Rightarrow> marshalPayload p
      | None \<Rightarrow>
          (case cr_secret req of
             None \<Rightarrow> None
           | Some v \<Rightarrow> if v = JNull then None else marshalPayload (legacyPayload v)))"

text \<open>\<^verbatim>\<open>time.Duration(seconds) * time.Second\<close>: nanoseconds in a signed 64-bit integer, which wraps around.\<close>

definition seconds_duration :: "64 word \<Rightarrow> int" where
  "seconds_duration seconds = sint (seconds * 1000000000)"

text \<open>\<open>None\<close> when the request is accepted; \<open>payload\<close> is the text of the canonical payload, which is valid JSON.\<close>

definition validateCreate :: "service_env \<Rightarrow> create_request \<Rightarrow> jstr \<Rightarrow> delivery_error option" where
  "validateCreate env req payload =
     (if payload = [] \<or> payload = js ''null'' then Some ErrInvalidRequest
      else if MaxSecretBytes env < int (utf8_length payload) then Some ErrPayloadTooLarge
      else if 255 < utf8_length (cr_title req) \<or> 2000 < utf8_length (cr_description req) \<or>
              255 < utf8_length (cr_recipient_reference req) then Some ErrInvalidRequest
      else if cr_max_failed_attempts req < 0 \<or> 20 < cr_max_failed_attempts req then Some ErrInvalidRequest
      else if 0 < sint (cr_expires_in_seconds req) \<and>
              MaxSecretTTL env < seconds_duration (cr_expires_in_seconds req) then Some ErrInvalidRequest
      else None)"

definition ttl :: "service_env \<Rightarrow> 64 word \<Rightarrow> int" where
  "ttl env seconds = (if sint seconds \<le> 0 then DefaultSecretTTL env else seconds_duration seconds)"

text \<open>
  What the surroundings decide during a creation: the random bytes of the token and of the salt, the
  ciphertext, the time in nanoseconds, the new id, the reply of the database and its time.
\<close>

record create_oracle =
  no_token :: "bytes option"
  no_ciphertext :: "bytes option"
  no_salt :: "bytes option"
  no_time :: int
  no_id :: "uuid option"
  no_reply :: db_reply
  no_now :: int

record create_response =
  cs_id :: uuid
  cs_url :: bytes
  cs_expires_at :: int

definition link_password_hash :: "service_env \<Rightarrow> bytes option \<Rightarrow> jstr option \<Rightarrow> delivery_error + bytes option" where
  "link_password_hash env salt password =
     (case password of
        None \<Rightarrow> Inr None
      | Some s \<Rightarrow>
          (if TrimSpace s = [] then Inr None
           else
             (case HashPassword (IDKey env) salt (utf8_bytes s) of
                None \<Rightarrow> Inl ErrInternal
              | Some hash \<Rightarrow> Inr (Some hash))))"

definition insert_row :: "int \<Rightarrow> insert_params \<Rightarrow> delivery_table \<Rightarrow> delivery_table \<times> bool" where
  "insert_row now p rows = (case Insert now p rows of None \<Rightarrow> (rows, False) | Some rows' \<Rightarrow> (rows', True))"

text \<open>What is inserted, and the token of the link; or the error before the \<^verbatim>\<open>INSERT\<close>.\<close>

definition create_params ::
  "service_env \<Rightarrow> create_oracle \<Rightarrow> bytes \<Rightarrow> create_request \<Rightarrow> delivery_error + (insert_params \<times> bytes)" where
  "create_params env w actorID req =
     (if actorID = [] then Inl ErrUnauthorized
      else
        (case canonicalPayload req of
           None \<Rightarrow> Inl ErrInvalidRequest
         | Some (payload, summary) \<Rightarrow>
             (case validateCreate env req (go_stringify payload) of
                Some e \<Rightarrow> Inl e
              | None \<Rightarrow>
                  (case GenerateToken (no_token w) of
                     None \<Rightarrow> Inl ErrInternal
                   | Some token \<Rightarrow>
                       (case token_hmac env token of
                          None \<Rightarrow> Inl ErrInternal
                        | Some hash \<Rightarrow>
                            (case no_ciphertext w of
                               None \<Rightarrow> Inl ErrDependencyUnavailable
                             | Some ciphertext \<Rightarrow>
                                 (case link_password_hash env (no_salt w) (cr_password req) of
                                    Inl e \<Rightarrow> Inl e
                                  | Inr stored \<Rightarrow>
                                      (case no_id w of
                                         None \<Rightarrow> Inl ErrInternal
                                       | Some i \<Rightarrow>
                                           Inr (\<lparr>ip_id = i, ip_token_hash = hash,
                                             ip_encrypted_payload = ciphertext,
                                             ip_title = utf8_bytes (TrimSpace (cr_title req)),
                                             ip_description = utf8_bytes (TrimSpace (cr_description req)),
                                             ip_recipient_reference =
                                               utf8_bytes (TrimSpace (cr_recipient_reference req)),
                                             ip_expires_at =
                                               (no_time w + ttl env (cr_expires_in_seconds req)) div 1000,
                                             ip_password_hash = stored,
                                             ip_max_failed_attempts =
                                               (if cr_max_failed_attempts req \<le> 0 then 5
                                                else nat (cr_max_failed_attempts req)),
                                             ip_created_by = actorID,
                                             ip_payload_type = utf8_bytes (ps_type summary),
                                             ip_payload_field_count = ps_field_count summary,
                                             ip_contains_sensitive = ps_contains_sensitive summary\<rparr>,
                                             token))))))))) "

definition Create ::
  "service_env \<Rightarrow> create_oracle \<Rightarrow> bytes \<Rightarrow> create_request \<Rightarrow> delivery_table \<Rightarrow>
   delivery_table \<times> (delivery_error + create_response) \<times> audit_event list" where
  "Create env w actorID req rows =
     (case create_params env w actorID req of
        Inl e \<Rightarrow> (rows, Inl e, [])
      | Inr (params, token) \<Rightarrow>
          (case db_call (no_reply w) (insert_row (no_now w) params rows) rows of
             (rows', Some True) \<Rightarrow>
               (rows', Inr \<lparr>cs_id = ip_id params, cs_url = AppBaseURL env @ ascii ''/s#'' @ token,
                   cs_expires_at = no_time w + ttl env (cr_expires_in_seconds req)\<rparr>,
                [audit (ip_id params) actorID ''secret.created'' ''success''])
           | (rows', _) \<Rightarrow> (rows', Inl ErrInternal, [])))"

section \<open>Administration\<close>

definition status_text :: "delivery_status \<Rightarrow> string" where
  "status_text s = (case s of Active \<Rightarrow> ''active'' | Consuming \<Rightarrow> ''consuming'' | Consumed \<Rightarrow> ''consumed''
     | Expired \<Rightarrow> ''expired'' | Revoked \<Rightarrow> ''revoked'')"

text \<open>The answer of \<^verbatim>\<open>Revoke\<close>, \<open>None\<close> for an error, and the audit event, which is written in any case.\<close>

definition RevokeLink ::
  "db_reply \<Rightarrow> int \<Rightarrow> uuid \<Rightarrow> bytes \<Rightarrow> delivery_table \<Rightarrow>
   delivery_table \<times> (delivery_status \<times> bool) option option \<times> audit_event list" where
  "RevokeLink reply now link actorID rows =
     (case db_call reply (Revoke now link rows) rows of
        (rows', result) \<Rightarrow>
          (rows', result,
           [audit link actorID ''secret.revoked''
              (case result of Some (Some (status, _)) \<Rightarrow> status_text status | _ \<Rightarrow> ''unavailable'')]))"

definition SetPasswordProtection ::
  "service_env \<Rightarrow> db_reply \<Rightarrow> int \<Rightarrow> bytes option \<Rightarrow> uuid \<Rightarrow> jstr \<Rightarrow> bytes \<Rightarrow> delivery_table \<Rightarrow>
   delivery_table \<times> (delivery_error + bool) \<times> audit_event list" where
  "SetPasswordProtection env reply now salt link password actorID rows =
     (if TrimSpace password = [] \<or> 1024 < utf8_length password then (rows, Inl ErrInvalidRequest, [])
      else
        (case HashPassword (IDKey env) salt (utf8_bytes password) of
           None \<Rightarrow> (rows, Inl ErrInternal, [])
         | Some hash \<Rightarrow>
             (case db_call reply (UpdatePasswordProtection now link (Some hash) rows) rows of
                (rows', None) \<Rightarrow> (rows', Inl ErrInternal, [])
              | (rows', Some None) \<Rightarrow> (rows', Inl ErrSecretUnavailable, [])
              | (rows', Some (Some was)) \<Rightarrow>
                  (rows', Inr was,
                   [audit link actorID (if was then ''secret.password_replaced'' else ''secret.password_set'')
                      ''success''])))) "

definition RemovePasswordProtection ::
  "db_reply \<Rightarrow> int \<Rightarrow> uuid \<Rightarrow> bytes \<Rightarrow> delivery_table \<Rightarrow>
   delivery_table \<times> (delivery_error + bool) \<times> audit_event list" where
  "RemovePasswordProtection reply now link actorID rows =
     (case db_call reply (UpdatePasswordProtection now link None rows) rows of
        (rows', None) \<Rightarrow> (rows', Inl ErrInternal, [])
      | (rows', Some None) \<Rightarrow> (rows', Inl ErrSecretUnavailable, [])
      | (rows', Some (Some was)) \<Rightarrow>
          (rows', Inr was, if was then [audit link actorID ''secret.password_removed'' ''success''] else []))"

text \<open>\<^verbatim>\<open>Prepare\<close>: whether an attempt may be made, whether it needs a password, the expiry; \<open>None\<close> for an error.\<close>

definition PrepareLink ::
  "service_env \<Rightarrow> db_reply \<Rightarrow> int \<Rightarrow> bytes \<Rightarrow> delivery_table \<Rightarrow> (bool \<times> bool \<times> int option) option" where
  "PrepareLink env reply now token rows =
     (case token_hmac env token of
        None \<Rightarrow> Some (False, False, None)
      | Some hash \<Rightarrow>
          map_option (\<lambda>found. case found of None \<Rightarrow> (False, False, None)
                              | Some (protected, expires) \<Rightarrow> (True, protected, Some expires))
            (snd (db_call reply (rows, Prepare now hash rows) rows)))"

end
