(* ===== verification/Exchange.thy ===== *)
theory Exchange
  imports Recipient SecretSubmit DeliveryService
begin

text \<open>
  The two pages and the server together. What the create page sends as \<^verbatim>\<open>payload\<close> is decoded and
  normalised by the server; what the server answers to a consume request is shown by the
  recipient page. Bodies are JSON values here: \<open>JsonRoundTrip\<close> is about their texts. The HTTP part is
  \<^verbatim>\<open>internal/http/server.go\<close>: \<^verbatim>\<open>handlePrepare\<close>, \<^verbatim>\<open>handleConsume\<close>, \<^verbatim>\<open>decodeJSON\<close>, \<^verbatim>\<open>writeDeliveryError\<close>,
  \<^verbatim>\<open>writeError\<close> and \<^verbatim>\<open>writeJSON\<close>.
\<close>

section \<open>Names and labels on both sides\<close>

lemma name_char_unit:
  assumes "name_char c"
  shows "\<not> surrogate c" "\<not> go_space c" "\<not> is_white c" "unit_bytes c = 1" "c < 0x80"
  using assms
  by (auto simp: name_char_def surrogate_def is_high_def is_low_def go_space_def is_white_def unit_bytes_def
      unit_nat)

lemma valid_name_pattern: "valid_name = structuredFieldNamePattern"
  by (rule ext) (auto simp: valid_name_def structuredFieldNamePattern_def name_char_def list_all_iff)

text \<open>Text without surrogates is left alone by the decoder.\<close>

lemma go_text_plain: "list_all (\<lambda>c. \<not> surrogate c) s \<Longrightarrow> go_text s = s"
  by (induction s) (simp_all add: go_text_Cons)

lemma utf8_length_ascii: "list_all (\<lambda>c. c < 0x80) s \<Longrightarrow> utf8_length s = length s"
proof (induction s rule: utf8_length.induct)
  case (3 u v s)
  then have "\<not> is_high u" by (auto simp: is_high_def unit_nat)
  with 3 show ?case by (simp add: unit_bytes_def)
qed (simp_all add: unit_bytes_def)

lemma valid_name_text:
  assumes "valid_name s"
  shows "go_text s = s" "TrimSpace s = s" "utf8_length s = length s"
  using assms name_char_unit
  by (auto simp: valid_name_def list_all_iff intro!: go_text_plain TrimSpace_id utf8_length_ascii)

lemma lower_ascii: "name_char c \<Longrightarrow> lower_units c = [if 0x41 \<le> c \<and> c \<le> 0x5A then c + 32 else c]"
  by (auto simp: lower_units_def name_char_def unit_nat)

lemma ToLower_name: "valid_name s \<Longrightarrow> ToLower s = to_lower s"
proof -
  have "map f s = concat (map lower_units s)"
    if "list_all name_char s" "f = (\<lambda>c. if 0x41 \<le> c \<and> c \<le> 0x5A then c + 32 else if c = 0x212A then 0x6B
       else if c = 0x130 then 0x69 else c)" for s f
    using that
  proof (induction s)
    case (Cons c s)
    then have "c \<noteq> 0x212A" "c \<noteq> 0x130" by (auto simp: name_char_def unit_nat)
    with Cons show ?case by (simp add: lower_ascii)
  qed simp
  then show "valid_name s \<Longrightarrow> ToLower s = to_lower s"
    by (simp add: valid_name_def ToLower_def to_lower_def)
qed

lemma collapse_ascii: "list_all name_char s \<Longrightarrow>
    list_all (\<lambda>c. c < 0x80) (collapse_separators b s) \<and> length (collapse_separators b s) \<le> length s"
  by (induction s arbitrary: b) (auto simp: name_char_unit le_SucI)

lemma upper_small: "c < 0x80 \<Longrightarrow> upper_ascii c < 0x80"
proof -
  assume c: "c < 0x80"
  have "unat (c - 32) = unat c - 32" if "0x61 \<le> c"
  proof -
    have "(32 :: jchar) \<le> c" using that by (simp add: word_le_nat_alt)
    then show ?thesis by (simp add: unat_sub)
  qed
  with c show ?thesis by (auto simp: upper_ascii_def word_less_nat_alt)
qed

lemma capitalise_ascii: "list_all (\<lambda>c. c < 0x80) s \<Longrightarrow>
    list_all (\<lambda>c. c < 0x80) (capitalise b s) \<and> length (capitalise b s) = length s"
  by (induction s arbitrary: b) (auto simp: upper_small)

definition label_text :: "payload_field \<Rightarrow> jstr" where
  "label_text f = (case pf_label f of LabelText s \<Rightarrow> s | _ \<Rightarrow> [])"

lemma label_bound:
  assumes "valid_name key" and "length key \<le> 100" and "labelForField key = LabelText s"
  shows "list_all (\<lambda>c. c < 0x80) s \<and> length s \<le> 100"
proof -
  have lit: "list_all (\<lambda>c. c < 0x80) (js ''OAuth Client ID'')" "list_all (\<lambda>c. c < 0x80) (js ''OAuth Client Secret'')"
    by (simp_all add: js_def)
  have "list_all name_char key" using assms(1) by (simp add: valid_name_def)
  from collapse_ascii [OF this, of False] capitalise_ascii [of "collapse_separators False key" False]
  have "list_all (\<lambda>c. c < 0x80) (capitalise False (collapse_separators False key)) \<and>
      length (capitalise False (collapse_separators False key)) \<le> 100"
    using assms(2) by auto
  with assms(3) lit show ?thesis by (auto simp: labelForField_def Let_def split: if_splits)
qed

lemma ascii_not_surrogate: "c < 0x80 \<Longrightarrow> \<not> surrogate c"
  by (auto simp: surrogate_def is_high_def is_low_def unit_nat)

lemma go_text_ascii: "list_all (\<lambda>c. c < 0x80) s \<Longrightarrow> go_text s = s"
  by (rule go_text_plain) (auto simp: list_all_iff ascii_not_surrogate)

lemma TrimSpace_sublist: "sublist (TrimSpace s) s"
proof -
  have "suffix (dropWhile go_space t) t" for t
    by (metis suffix_def takeWhile_dropWhile_id)
  then have "sublist (rev (dropWhile go_space (rev (dropWhile go_space s)))) (dropWhile go_space s)"
    "sublist (dropWhile go_space s) s"
    by (metis prefix_imp_sublist suffix_to_prefix rev_rev_ident, simp add: suffix_imp_sublist)
  then show ?thesis unfolding TrimSpace_def by (rule sublist_order.order_trans)
qed

section \<open>The payload of the create page at the server\<close>

text \<open>The field that the server decodes from one of the client, and what it makes of it.\<close>

definition decoded_field :: "payload_field \<Rightarrow> structured_field" where
  "decoded_field f =
     \<lparr>sf_name = pf_name f, sf_label = label_text f, sf_value = go_text (pf_value f),
      sf_sensitive = pf_sensitive f, sf_multiline = pf_multiline f\<rparr>"

text \<open>The fields that the client can send and the server decodes: a name of the pattern, at most 100 bytes, its own label.\<close>

definition sendable :: "payload_field \<Rightarrow> bool" where
  "sendable f \<longleftrightarrow> valid_name (pf_name f) \<and> length (pf_name f) \<le> 100 \<and> pf_label f = labelForField (pf_name f) \<and>
     pf_label f \<noteq> LabelPrototype"

lemma decode_field_json:
  assumes "sendable f"
  shows "decode_field True (field_json f) = Some (decoded_field f)"
proof -
  have name: "go_text (pf_name f) = pf_name f" using assms by (simp add: sendable_def valid_name_text)
  have label: "go_text s = s" if "pf_label f = LabelText s" for s
    using label_bound [of "pf_name f" s] that assms by (simp add: sendable_def go_text_ascii)
  have proto: "pf_label f \<noteq> LabelPrototype" using assms unfolding sendable_def by blast
  show ?thesis
    using proto name label
    by (cases "pf_label f")
      (simp_all add: field_json_def obj_def decode_field_def member_own set_field_member_def
        decode_string_def decode_bool_def zero_field_def decoded_field_def label_text_def)
qed

lemma decode_fields_json:
  "\<forall>f \<in> set fs. sendable f \<Longrightarrow> decode_field_list True (map field_json fs) = Some (map decoded_field fs)"
  by (induction fs) (simp_all add: decode_field_json)

definition decoded_payload :: "payload_model \<Rightarrow> secret_payload" where
  "decoded_payload m =
     (case m of
        StructuredPayload fs \<Rightarrow> zero_payload\<lparr>sp_type := js ''structured'', sp_fields := map decoded_field fs\<rparr>
      | JsonPayload v \<Rightarrow> zero_payload\<lparr>sp_type := js ''json'', sp_value := Some v\<rparr>
      | TextPayload s \<Rightarrow> zero_payload\<lparr>sp_type := js ''text'', sp_text := go_text s\<rparr>)"

lemma decode_payload_json:
  assumes "\<And>fs. m = StructuredPayload fs \<Longrightarrow> \<forall>f \<in> set fs. sendable f"
  shows "decode_payload True (payload_json m) = Some (decoded_payload m)"
proof (cases m)
  case (StructuredPayload fs)
  with assms show ?thesis
    by (simp add: obj_def decode_payload_def member_own set_payload_member_def decode_string_def
        decode_fields_def decode_fields_json decoded_payload_def zero_payload_def)
qed (simp_all add: obj_def decode_payload_def member_own set_payload_member_def decode_string_def
    decoded_payload_def zero_payload_def)

text \<open>What the server keeps of a payload: \<open>None\<close> when it refuses it.\<close>

definition kept_field :: "payload_field \<Rightarrow> structured_field" where
  "kept_field f = normal_field (decoded_field f)"

lemma kept_field_accepted:
  assumes "sendable f"
  shows "sf_name (kept_field f) = pf_name f" "structuredFieldNamePattern (sf_name (kept_field f))"
    "utf8_length (sf_name (kept_field f)) \<le> 100" "utf8_length (sf_label (kept_field f)) \<le> 100"
    "ToLower (sf_name (kept_field f)) = to_lower (pf_name f)"
proof -
  have valid: "valid_name (pf_name f)" and len: "length (pf_name f) \<le> 100" using assms by (simp_all add: sendable_def)
  show name: "sf_name (kept_field f) = pf_name f"
    by (simp add: kept_field_def normal_field_def decoded_field_def Let_def valid_name_text [OF valid])
  show "structuredFieldNamePattern (sf_name (kept_field f))" using valid by (simp add: name valid_name_pattern)
  show "utf8_length (sf_name (kept_field f)) \<le> 100" using len by (simp add: name valid_name_text [OF valid])
  show "ToLower (sf_name (kept_field f)) = to_lower (pf_name f)" by (simp add: name ToLower_name [OF valid])
  have "utf8_length (TrimSpace (label_text f)) \<le> 100"
  proof (cases "pf_label f")
    case (LabelText s)
    with label_bound [OF valid len, of s] assms have "utf8_length s \<le> 100"
      by (simp add: sendable_def utf8_length_ascii)
    with utf8_length_sublist [OF TrimSpace_sublist, of s] LabelText show ?thesis by (simp add: label_text_def)
  qed (simp_all add: label_text_def TrimSpace_def)
  then show "utf8_length (sf_label (kept_field f)) \<le> 100"
    using len by (simp add: kept_field_def normal_field_def decoded_field_def Let_def valid_name_text [OF valid])
qed

lemma kept_fields_accepted:
  assumes "\<forall>f \<in> set fs. sendable f" and "distinct (map (\<lambda>f. to_lower (pf_name f)) fs)"
  shows "fields_accepted {} (map kept_field fs)"
proof -
  have "map (\<lambda>g. ToLower (sf_name g)) (map kept_field fs) = map (\<lambda>f. to_lower (pf_name f)) fs"
    using assms(1) kept_field_accepted(5) by simp
  then have "distinct (map (\<lambda>g. ToLower (sf_name g)) (map kept_field fs))" using assms(2) by (simp only:)
  then show ?thesis using assms(1) kept_field_accepted(2-4) by (simp add: fields_accepted_def)
qed

definition kept_payload :: "payload_model \<Rightarrow> secret_payload" where
  "kept_payload m =
     (case m of
        StructuredPayload fs \<Rightarrow> zero_payload\<lparr>sp_type := js ''structured'', sp_fields := map kept_field fs\<rparr>
      | _ \<Rightarrow> decoded_payload m)"

definition accepted_model :: "payload_model \<Rightarrow> bool" where
  "accepted_model m \<longleftrightarrow>
     (case m of
        StructuredPayload fs \<Rightarrow> fs \<noteq> [] \<and> length fs \<le> 50 \<and> (\<forall>f \<in> set fs. sendable f) \<and>
          distinct (map (\<lambda>f. to_lower (pf_name f)) fs)
      | _ \<Rightarrow> True)"

lemma normalize_decoded:
  assumes "accepted_model m"
  shows "\<exists>summary. normalizePayload (decoded_payload m) = Some (kept_payload m, summary)"
proof (cases m)
  case (StructuredPayload fs)
  have eq: "map normal_field (map decoded_field fs) = map kept_field fs" by (simp add: kept_field_def comp_def)
  from assms StructuredPayload have "fields_accepted {} (map kept_field fs)"
    by (simp add: accepted_model_def kept_fields_accepted)
  with assms StructuredPayload show ?thesis
    by (simp add: decoded_payload_def kept_payload_def normalizePayload_simps eq accepted_model_def
        del: map_map list.map_comp)
qed (simp_all add: decoded_payload_def kept_payload_def normalizePayload_simps)

lemma accepted_decode:
  "accepted_model m \<Longrightarrow> decode_payload True (payload_json m) = Some (decoded_payload m)"
  by (rule decode_payload_json) (simp add: accepted_model_def)

text \<open>
  The rows of a form: keys of at most 100 characters (the field has no limit of its own), none of them
  \<^verbatim>\<open>__proto__\<close>.
\<close>

definition plain_keys :: "form_row list \<Rightarrow> bool" where
  "plain_keys rows \<longleftrightarrow> (\<forall>r \<in> set rows. length (row_key r) \<le> 100 \<and> to_lower (row_key r) \<noteq> js ''__proto__'')"

lemma label_prototype: "labelForField key = LabelPrototype \<longleftrightarrow> to_lower key = js ''__proto__''"
  by (auto simp: labelForField_def Let_def)

lemma structured_accepted:
  assumes "structuredPayload rows = Inr m" and "length rows \<le> MAX_FIELDS" and "plain_keys rows"
  shows "m = StructuredPayload (map row_field rows) \<and> accepted_model m"
proof (cases "collect_fields [] rows")
  case (Inl e)
  with assms(1) show ?thesis by (simp add: structuredPayload_def split: if_splits)
next
  case (Inr fs)
  then have pass: "rows_pass [] rows" and fs: "fs = map row_field rows" by (simp_all add: collect_fields_iff)
  have m: "m = StructuredPayload (map row_field rows)" and ne: "rows \<noteq> []"
    using assms(1) Inr fs by (simp_all add: structuredPayload_def split: if_splits)
  have names: "map (\<lambda>f. to_lower (pf_name f)) (map row_field rows) = map row_norm rows"
    by (simp add: row_field_def row_norm_def)
  have "\<forall>f \<in> set (map row_field rows). sendable f"
    using pass assms(3) by (auto simp: rows_pass_def plain_keys_def sendable_def row_field_def label_prototype)
  moreover have "distinct (map (\<lambda>f. to_lower (pf_name f)) (map row_field rows))"
    using pass by (simp only: names rows_pass_def)
  ultimately show ?thesis using m ne assms(2) by (simp add: accepted_model_def MAX_FIELDS_def)
qed

lemma marshal_object: "\<exists>t. go_stringify (marshal_payload_json n) = 0x7B # t"
  by (simp add: marshal_payload_json_def js_def)

text \<open>What else the server asks of a request: the bounds of the texts, the attempts and the life time.\<close>

definition request_bounds :: "service_env \<Rightarrow> create_request \<Rightarrow> bool" where
  "request_bounds env req \<longleftrightarrow>
     utf8_length (cr_title req) \<le> 255 \<and> utf8_length (cr_description req) \<le> 2000 \<and>
     utf8_length (cr_recipient_reference req) \<le> 255 \<and>
     0 \<le> cr_max_failed_attempts req \<and> cr_max_failed_attempts req \<le> 20 \<and>
     (0 < sint (cr_expires_in_seconds req) \<longrightarrow> seconds_duration (cr_expires_in_seconds req) \<le> MaxSecretTTL env)"

lemma validateCreate_bounds:
  "validateCreate env req (go_stringify (marshal_payload_json n)) =
     (if MaxSecretBytes env < int (utf8_length (go_stringify (marshal_payload_json n))) then Some ErrPayloadTooLarge
      else if request_bounds env req then None else Some ErrInvalidRequest)"
proof -
  obtain t where t: "go_stringify (marshal_payload_json n) = 0x7B # t" using marshal_object by blast
  have "(0x7B :: jchar) # t \<noteq> js ''null''" by (simp add: js_def)
  then show ?thesis unfolding t by (auto simp: validateCreate_def request_bounds_def)
qed

text \<open>C12: Every structured payload that the create page builds from at most fifty rows, its keys being of at most a hundred
  characters and none of them \<^verbatim>\<open>__proto__\<close>, is decoded by the server and becomes a canonical payload
  with the same fields in order: the names and the flags as they are, the values (half a
  surrogate pair replaced), the labels of the page trimmed, the name where the page has none. The request is
  then accepted if and only if the text of the canonical payload is within the server's limit (else it is
  too large) and its other parts are within their bounds: nothing else about the payload is refused.\<close>

theorem client_payload_accepted:
  assumes "structuredPayload rows = Inr m" and "length rows \<le> MAX_FIELDS" and "plain_keys rows"
    and "cr_payload req = decode_payload True (payload_json m)"
  shows "\<exists>n summary. canonicalPayload req = Some (marshal_payload_json n, summary) \<and>
    map sf_name (sp_fields n) = map row_key rows \<and> map sf_value (sp_fields n) = map (\<lambda>r. go_text (fr_value r)) rows \<and>
    map sf_sensitive (sp_fields n) = map fr_sensitive rows \<and> map sf_multiline (sp_fields n) = map fr_multiline rows \<and>
    map sf_label (sp_fields n) = map (\<lambda>r.
      case labelForField (row_key r) of
        LabelText s \<Rightarrow> if TrimSpace s = [] then row_key r else TrimSpace s
      | _ \<Rightarrow> row_key r) rows \<and>
    validateCreate env req (go_stringify (marshal_payload_json n)) =
      (if MaxSecretBytes env < int (utf8_length (go_stringify (marshal_payload_json n))) then Some ErrPayloadTooLarge
       else if request_bounds env req then None else Some ErrInvalidRequest)"
proof -
  from structured_accepted [OF assms(1-3)] have m: "m = StructuredPayload (map row_field rows)" and ok: "accepted_model m"
    by auto
  obtain summary where norm: "normalizePayload (decoded_payload m) = Some (kept_payload m, summary)"
    using normalize_decoded [OF ok] by blast
  have fs: "sp_fields (kept_payload m) = map kept_field (map row_field rows)"
    by (simp add: m kept_payload_def zero_payload_def)
  have sent: "sendable (row_field r)" if "r \<in> set rows" for r using ok that by (simp add: m accepted_model_def)
  have names: "sf_name (kept_field (row_field r)) = row_key r" if "r \<in> set rows" for r
    using kept_field_accepted(1) [OF sent [OF that]] by (simp add: row_field_def)
  have labels: "sf_label (kept_field (row_field r)) = (case labelForField (row_key r) of
        LabelText s \<Rightarrow> if TrimSpace s = [] then row_key r else TrimSpace s | _ \<Rightarrow> row_key r)" if "r \<in> set rows" for r
    using names [OF that]
    by (simp add: kept_field_def normal_field_def decoded_field_def label_text_def row_field_def Let_def TrimSpace_def
        split: label.split)
  have "sf_value (kept_field (row_field r)) = go_text (fr_value r)"
    "sf_sensitive (kept_field (row_field r)) = fr_sensitive r"
    "sf_multiline (kept_field (row_field r)) = fr_multiline r" for r
    by (simp_all add: kept_field_def normal_field_def decoded_field_def row_field_def Let_def)
  with names labels show ?thesis
    by (intro exI [of _ "kept_payload m"] exI [of _ summary])
      (simp add: canonicalPayload_def assms(4) accepted_decode [OF ok] marshalPayload_def norm fs validateCreate_bounds
        del: payload_json.simps)
qed

definition small_env :: service_env where
  "small_env =
     \<lparr>TokenHMACPepper = [1], hmac_sha256 = (\<lambda>k m. k @ m), IDKey = sample_idkey, vault_open = (\<lambda>c. None),
      ConsumingLeaseTTL = 60, MaxSecretBytes = 32768, MaxSecretTTL = 3600, DefaultSecretTTL = 3600,
      AppBaseURL = []\<rparr>"

definition two_rows :: "form_row list" where
  "two_rows = [sample_row '' api_key'' ''k'', sample_row ''host'' ''h'']"

definition rows_request :: create_request where
  "rows_request =
     \<lparr>cr_title = [], cr_description = [], cr_recipient_reference = [], cr_secret = None,
      cr_payload = decode_payload True (payload_json (StructuredPayload (map row_field two_rows))),
      cr_expires_in_seconds = 0, cr_password = None, cr_max_failed_attempts = 5\<rparr>"

theorem client_payload_accepted_witness:
  "\<exists>n summary. canonicalPayload rows_request = Some (marshal_payload_json n, summary) \<and>
    map sf_name (sp_fields n) = [js ''api_key'', js ''host'']"
proof -
  have keys: "map row_key two_rows = [js ''api_key'', js ''host'']"
    by (simp add: two_rows_def row_key_def sample_row_def trim_def js_def is_white_def)
  then have "rows_pass [] two_rows" and plain: "plain_keys two_rows"
    by (simp_all add: two_rows_def rows_pass_def row_norm_def plain_keys_def text_literals)
  then have built: "structuredPayload two_rows = Inr (StructuredPayload (map row_field two_rows))"
    by (simp add: two_rows_def structuredPayload_def collect_fields_pass)
  have "length two_rows \<le> MAX_FIELDS" by (simp add: two_rows_def MAX_FIELDS_def)
  note accepted = client_payload_accepted [OF built this plain, of rows_request]
  have "cr_payload rows_request = decode_payload True (payload_json (StructuredPayload (map row_field two_rows)))"
    by (simp add: rows_request_def)
  from accepted [OF this, of small_env] show ?thesis unfolding keys by (elim exE conjE, intro exI conjI) assumption+
qed

section \<open>Where the two disagree\<close>

text \<open>
  A field named \<^verbatim>\<open>__proto__\<close>: the page takes it, and its label is the prototype object, which the server
  cannot decode as a string. The user gets the error of a malformed request.
\<close>

lemma decode_proto:
  "pf_label f = LabelPrototype \<Longrightarrow> decode_field strict (field_json f) = None"
  by (simp add: field_json_def obj_def decode_field_def member_own set_field_member_def
      decode_string_def zero_field_def)

lemma decode_list_none: "v \<in> set vs \<Longrightarrow> decode_field strict v = None \<Longrightarrow> decode_field_list strict vs = None"
  by (induction vs) (auto split: option.splits)

theorem proto_field_refused:
  assumes "well_formed_rows rows" and "r \<in> set rows" and "row_norm r = js ''__proto__''"
  shows "\<exists>m. structuredPayload rows = Inr m \<and> decode_payload strict (payload_json m) = None"
proof -
  have "collect_fields [] rows = Inr (map row_field rows)"
    using assms(1) by (simp add: collect_fields_iff well_formed_rows_pass)
  then have "structuredPayload rows = Inr (StructuredPayload (map row_field rows))"
    using assms(1) by (simp add: structuredPayload_def well_formed_rows_def)
  moreover have "decode_field_list strict (map field_json (map row_field rows)) = None"
  proof (rule decode_list_none [of "field_json (row_field r)"])
    have "pf_label (row_field r) = LabelPrototype"
      using assms(3) by (simp add: row_field_def label_prototype row_norm_def)
    then show "decode_field strict (field_json (row_field r)) = None" by (rule decode_proto)
  qed (use assms(2) in simp)
  ultimately show ?thesis
    by (simp add: obj_def decode_payload_def member_own set_payload_member_def decode_string_def
        decode_fields_def zero_payload_def)
qed

theorem proto_field_refused_witness:
  "\<exists>m. structuredPayload [sample_row ''user'' ''a'', sample_row ''__PROTO__'' ''b''] = Inr m \<and>
     decode_payload True (payload_json m) = None"
proof -
  have "well_formed_rows [sample_row ''user'' ''a'', sample_row ''__PROTO__'' ''b'']"
    "row_norm (sample_row ''__PROTO__'' ''b'') = js ''__proto__''"
  proof -
    have "to_lower (js ''__PROTO__'') = js ''__proto__''" by (simp add: to_lower_def lower_units_def js_def)
    moreover have "row_key (sample_row ''__PROTO__'' ''b'') = js ''__PROTO__''"
      "row_key (sample_row ''user'' ''a'') = js ''user''"
      by (simp_all add: row_key_def sample_row_def text_literals)
    ultimately show "well_formed_rows [sample_row ''user'' ''a'', sample_row ''__PROTO__'' ''b'']"
      "row_norm (sample_row ''__PROTO__'' ''b'') = js ''__proto__''"
      by (simp_all add: well_formed_rows_def row_norm_def text_literals)
  qed
  then show ?thesis
    using proto_field_refused [of "[sample_row ''user'' ''a'', sample_row ''__PROTO__'' ''b'']"
        "sample_row ''__PROTO__'' ''b''" True] by simp
qed

text \<open>
  The size limit. The page measures its own text, the server the text of \<^verbatim>\<open>json.Marshal\<close>, in which an angle
  bracket takes six bytes.
\<close>

lemma angle_units: "quote_unit 0x3C = [0x3C]" "\<not> is_high 0x3C" "length (go_quote_unit 0x3C) = 6"
  by (simp_all add: quote_unit_def is_high_def is_low_def go_quote_unit_def unicode_escape_def Let_def)

lemma angle_quoted: "quote_units (replicate n 0x3C) = replicate n 0x3C"
  by (induction n rule: induct_nat_012) (simp_all add: angle_units)

lemma angle_escaped: "length (go_quote_units (replicate n 0x3C)) = 6 * n"
  by (induction n rule: induct_nat_012) (simp_all add: angle_units)

lemma text_forms:
  "stringify (payload_json (TextPayload s)) = js ''{\"type\":\"text\",\"text\":\"'' @ quote_units s @ js ''\"}''"
  "s \<noteq> [] \<Longrightarrow> go_stringify (marshal_payload_json (kept_payload (TextPayload s))) =
     js ''{\"type\":\"text\",\"text\":\"'' @ go_quote_units (go_text s) @ js ''\"}''"
proof -
  have q: "json_quote (js ''type'') = js ''\"type\"''" "json_quote (js ''text'') = js ''\"text\"''"
    "go_quote (js ''type'') = js ''\"type\"''" "go_quote (js ''text'') = js ''\"text\"''"
    by (simp_all add: text_literals)
  have c: "(0x22 :: jchar) # t = js ''\"'' @ t" for t by (simp add: js_def)
  show "stringify (payload_json (TextPayload s)) = js ''{\"type\":\"text\",\"text\":\"'' @ quote_units s @ js ''\"}''"
    by (simp add: obj_def join_def q) (simp add: json_quote_def js_def)
  show "go_stringify (marshal_payload_json (kept_payload (TextPayload s))) =
     js ''{\"type\":\"text\",\"text\":\"'' @ go_quote_units (go_text s) @ js ''\"}''" if "s \<noteq> []"
    using that
    by (simp add: marshal_payload_json_def kept_payload_def decoded_payload_def zero_payload_def join_def q)
      (simp add: go_quote_def js_def)
qed

text \<open>C27: 
  The two size checks do not agree: a text of angle brackets that the browser finds small enough, 32768 bytes being
  the limit of both sides, is refused by the server as too large, which counts six bytes for each.
\<close>

theorem size_check_disagrees:
  assumes "5462 \<le> n" and "n \<le> 32000" and "MaxSecretBytes env = 32768" and "actorID \<noteq> []"
    and "cr_payload req = decode_payload True (payload_json (TextPayload (replicate n 0x3C)))"
  shows "validateSize (TextPayload (replicate n 0x3C)) = None \<and>
    create_params env w actorID req = Inl ErrPayloadTooLarge"
proof
  let ?s = "replicate n (0x3C :: jchar)"
  let ?m = "TextPayload ?s"
  have len: "length (js ''{\"type\":\"text\",\"text\":\"'') = 23" "length (js ''\"}'') = 2" by simp_all
  have "length (stringify (payload_json ?m)) = n + 25"
    unfolding text_forms(1) angle_quoted by (simp only: length_append length_replicate len)
  moreover have "list_all (\<lambda>c. c < 0x80) (stringify (payload_json ?m))"
  proof -
    have "list_all (\<lambda>c. c < 0x80) (js ''{\"type\":\"text\",\"text\":\"'')" "list_all (\<lambda>c. c < 0x80) (js ''\"}'')"
      by (simp_all add: js_def)
    then show ?thesis unfolding text_forms(1) angle_quoted list_all_iff by auto
  qed
  ultimately have "utf8_length (stringify (payload_json ?m)) = n + 25" using utf8_length_ascii by metis
  with assms(2) show "validateSize ?m = None" by (simp add: validateSize_def MAX_SECRET_BYTES_def)
  have s: "?s \<noteq> []" "go_text ?s = ?s"
    using assms(1) by (auto intro!: go_text_ascii simp: list_all_iff)
  have "length (go_stringify (marshal_payload_json (kept_payload ?m))) = 6 * n + 25"
    unfolding text_forms(2) [OF s(1)] s(2) by (simp only: length_append angle_escaped len)
  with utf8_length_ge [of "go_stringify (marshal_payload_json (kept_payload ?m))"] assms(1)
  have big: "32768 < int (utf8_length (go_stringify (marshal_payload_json (kept_payload ?m))))" by linarith
  have ok: "accepted_model ?m" by (simp add: accepted_model_def)
  obtain summary where norm: "normalizePayload (decoded_payload ?m) = Some (kept_payload ?m, summary)"
    using normalize_decoded [OF ok] by blast
  obtain t where t: "t = go_stringify (marshal_payload_json (kept_payload ?m))" by simp
  have "t = js ''{\"type\":\"text\",\"text\":\"'' @ go_quote_units ?s @ js ''\"}''"
    unfolding t text_forms(2) [OF s(1)] s(2) by (rule refl)
  then have "t \<noteq> []" "t \<noteq> js ''null''" by (simp_all add: js_def)
  with big have "validateCreate env req t = Some ErrPayloadTooLarge"
    by (simp add: validateCreate_def t [symmetric] assms(3))
  with assms(4,5) show "create_params env w actorID req = Inl ErrPayloadTooLarge"
    by (simp add: create_params_def canonicalPayload_def accepted_decode [OF ok] marshalPayload_def norm
        t [symmetric] del: payload_json.simps)
qed

definition angle_request :: create_request where
  "angle_request =
     \<lparr>cr_title = [], cr_description = [], cr_recipient_reference = [], cr_secret = None,
      cr_payload = decode_payload True (payload_json (TextPayload (replicate 6000 0x3C))),
      cr_expires_in_seconds = 60, cr_password = None, cr_max_failed_attempts = 5\<rparr>"

theorem size_check_disagrees_witness:
  "\<forall>w. validateSize (TextPayload (replicate 6000 0x3C)) = None \<and>
     create_params small_env w [1] angle_request = Inl ErrPayloadTooLarge"
  by (intro allI size_check_disagrees) (simp_all add: small_env_def angle_request_def)

section \<open>The answers of the server\<close>

text \<open>A body is \<open>None\<close> when the connection is closed without an answer, as after a panic.\<close>

definition writeError :: "string \<Rightarrow> string \<Rightarrow> nat \<Rightarrow> fetch_result" where
  "writeError code message status =
     Answer status (Some (obj [(''code'', JStr (js code)), (''message'', JStr (js message))]))"

definition delivery_message :: "delivery_error \<Rightarrow> string" where
  "delivery_message e =
     (case e of
        ErrSecretUnavailable \<Rightarrow> ''This secret has expired, was revoked, or has already been viewed.''
      | ErrLinkPasswordInvalid \<Rightarrow> ''The link password is incorrect.''
      | ErrPayloadTooLarge \<Rightarrow> ''Payload too large.''
      | ErrInvalidRequest \<Rightarrow> ''Invalid request.''
      | ErrDependencyUnavailable \<Rightarrow> ''Dependency unavailable.''
      | _ \<Rightarrow> ''The request could not be completed.'')"

definition writeDeliveryError :: "delivery_error \<Rightarrow> fetch_result" where
  "writeDeliveryError e = writeError (ErrorCodeFor e) (delivery_message e) (ErrorStatus e)"

text \<open>
  A request struct of string members, decoded with unknown members refused; \<open>limit\<close> bounds the bytes
  that are read. Both pages send the media type that \<^verbatim>\<open>decodeJSON\<close> asks for.
\<close>

fun decode_request_members ::
  "string list \<Rightarrow> (jstr \<times> json) list \<Rightarrow> (string \<Rightarrow> jstr) \<Rightarrow> (string \<Rightarrow> jstr) option" where
  "decode_request_members names [] r = Some r"
| "decode_request_members names ((k, v) # kvs) r =
     (case member names k of
        None \<Rightarrow> None
      | Some n \<Rightarrow>
          (case decode_string v (r n) of
             None \<Rightarrow> None
           | Some s \<Rightarrow> decode_request_members names kvs (r(n := s))))"

definition decodeJSON :: "string list \<Rightarrow> nat \<Rightarrow> json \<Rightarrow> fetch_result + (string \<Rightarrow> jstr)" where
  "decodeJSON names limit body =
     (if limit < utf8_length (stringify body)
      then Inl (writeError ''PAYLOAD_TOO_LARGE'' ''Payload too large.'' 413)
      else
        (case (case body of JObj kvs \<Rightarrow> decode_request_members names kvs (\<lambda>_. [])
               | JNull \<Rightarrow> Some (\<lambda>_. []) | _ \<Rightarrow> None) of
           None \<Rightarrow> Inl (writeError ''INVALID_REQUEST'' ''Invalid request.'' 400)
         | Some r \<Rightarrow> Inr r))"

definition consume_reply :: "consume_pc \<Rightarrow> fetch_result" where
  "consume_reply pc =
     (case pc of
        Refused e \<Rightarrow> writeDeliveryError e
      | Released i r \<Rightarrow> Answer 200 (Some (obj [(''secret'', rs_secret r), (''payload'', rs_payload r)]))
      | _ \<Rightarrow> Rejected)"

text \<open>
  \<^verbatim>\<open>handleConsume\<close>: an answer before the service is called, or the call that starts. \<open>allowed\<close> is the answer
  of the rate limiter.
\<close>

definition handleConsume :: "bool \<Rightarrow> json \<Rightarrow> fetch_result + consume_call" where
  "handleConsume allowed body =
     (case decodeJSON [''token'', ''password''] 4096 body of
        Inl answer \<Rightarrow> Inl answer
      | Inr r \<Rightarrow>
          (if \<not> allowed then Inl (writeError ''RATE_LIMITED'' ''Rate limit exceeded.'' 429)
           else Inr \<lparr>cc_token = utf8_bytes (r ''token''), cc_password = utf8_bytes (r ''password''),
                  cc_pc = Arrived\<rparr>))"

text \<open>\<^verbatim>\<open>handlePrepare\<close>; \<open>rfc3339\<close> is the text of a time.\<close>

definition handlePrepare ::
  "(int \<Rightarrow> string) \<Rightarrow> service_env \<Rightarrow> db_reply \<Rightarrow> int \<Rightarrow> bool \<Rightarrow> json \<Rightarrow> delivery_table \<Rightarrow> fetch_result" where
  "handlePrepare rfc3339 env reply now allowed body rows =
     (if \<not> allowed then writeError ''RATE_LIMITED'' ''Rate limit exceeded.'' 429
      else
        (case decodeJSON [''token''] 4096 body of
           Inl answer \<Rightarrow> answer
         | Inr r \<Rightarrow>
             (case PrepareLink env reply now (utf8_bytes (r ''token'')) rows of
                None \<Rightarrow> writeDeliveryError ErrInternal
              | Some (may, protected, expires) \<Rightarrow>
                  Answer 200 (Some (obj
                    ([(''may_attempt'', JBool may), (''password_required'', JBool protected)] @
                     (case expires of None \<Rightarrow> [] | Some t \<Rightarrow> [(''expires_at'', JStr (js (rfc3339 t)))]))))))) "

section \<open>The recipient page and the service\<close>

text \<open>The request that the page sends reaches the service with its token and its password.\<close>

lemma request_members:
  "member [''token'', ''password''] (js ''token'') = Some ''token''"
  "member [''token'', ''password''] (js ''password'') = Some ''password''"
  "member [''token''] (js ''token'') = Some ''token''"
  by (simp_all add: member_def)

lemma page_reaches_service:
  assumes "utf8_length (stringify (obj [(''token'', JStr t), (''password'', JStr pw)])) \<le> 4096"
  shows "handleConsume True (obj [(''token'', JStr t), (''password'', JStr pw)]) =
    Inr \<lparr>cc_token = utf8_bytes (go_text t), cc_password = utf8_bytes (go_text pw), cc_pc = Arrived\<rparr>"
  using assms by (simp add: handleConsume_def decodeJSON_def obj_def request_members decode_string_def)

text \<open>What the page shows of a canonical payload.\<close>

definition row_of :: "copy_texts \<Rightarrow> structured_field \<Rightarrow> secret_row" where
  "row_of texts f =
     \<lparr>row_name = (if sf_label f = [] then sf_name f else sf_label f), row_value = sf_value f,
      row_text = (if sf_sensitive f then mask else sf_value f), row_reveal_text = cp_show texts,
      row_reveal_hidden = (\<not> sf_sensitive f)\<rparr>"

lemma renderField_marshal: "renderField texts (Some (marshal_field f)) = row_of texts f"
  by (simp add: renderField_def marshal_field_def row_of_def Let_def or_val_def)

definition displays :: "recipient_page \<Rightarrow> secret_payload \<Rightarrow> bool" where
  "displays q n \<longleftrightarrow> currentState q = Revealed \<and> visible_panels q = [Revealed] \<and> token q = [] \<and>
     (if sp_type n = js ''structured''
      then \<not> structured_hidden q \<and> plain_hidden q \<and> structured_rows q = map (row_of (copy q)) (sp_fields n)
      else structured_hidden q \<and> \<not> plain_hidden q \<and> structured_rows q = [] \<and>
        secret_code q = (if sp_type n = js ''text'' then sp_text n
          else (case sp_value n of None \<Rightarrow> [] | Some v \<Rightarrow> stringify_indent 0 v)))"

lemma get_payload_members:
  "get_prop (Some (marshal_payload_json p)) ''type'' = Some (JStr (sp_type p))"
  "get_prop (Some (marshal_payload_json p)) ''fields'' =
     (if sp_fields p = [] then None else Some (JArr (map marshal_field (sp_fields p))))"
  "get_prop (Some (marshal_payload_json p)) ''text'' = (if sp_text p = [] then None else Some (JStr (sp_text p)))"
  "get_prop (Some (marshal_payload_json p)) ''value'' = sp_value p"
  by (auto simp: marshal_payload_json_def split: option.split)

lemma reveal_displays:
  assumes "normalizePayload p = Some (n, summary)"
  shows "displays (reveal_answer (Answer 200
    (Some (obj [(''secret'', legacy), (''payload'', marshal_payload_json n)]))) s) n"
proof -
  note shape = reveal_answer_def reveal_body_def resp_ok_def renderSecret_def displays_def get_payload_members
    zero_payload_def visible_panels_def panels_def panel_shown_def show_plain_def Let_def page_defs or_val_def
    text_of_def stringify_val_indent_def
  from assms show ?thesis
  proof (cases rule: normalizePayload_cases)
    case (1 fs)
    have "\<not> (\<exists>f \<in> set fs. nullish (Some (marshal_field f)))"
      by (simp add: nullish_def marshal_field_def)
    with 1(1,2) show ?thesis
      by (simp add: shape renderField_marshal comp_def)
  next
    case (2 t)
    then show ?thesis by (simp add: shape)
  next
    case (3 v)
    then show ?thesis by (simp add: shape)
  qed
qed

text \<open>Where the page ends for the outcome of a call.\<close>

definition outcome_state :: "consume_pc \<Rightarrow> recipient_state" where
  "outcome_state pc =
     (case pc of
        Released _ _ \<Rightarrow> Revealed
      | Refused e \<Rightarrow> (if e = ErrLinkPasswordInvalid then PasswordError
          else if e = ErrSecretUnavailable then Unavailable else NetworkError)
      | _ \<Rightarrow> NetworkError)"

lemma response_of_canonical:
  assumes "response_of i plain = Released j r"
  shows "\<exists>p n summary. normalizePayload p = Some (n, summary) \<and> rs_payload r = marshal_payload_json n"
  using assms
  by (fastforce simp: response_of_def normalizeConsumedPayload_def marshalPayload_def bind_eq_Some_conv
      split: plaintext.splits option.splits)

lemma reveal_rejected: "reveal_answer Rejected p = setSubmitting False (networkError RetryReveal p)"
  by (simp add: reveal_answer_def reveal_body_def page_defs)

lemma reveal_refused:
  "reveal_answer (writeDeliveryError e) p =
     (if e = ErrLinkPasswordInvalid then
        (setSubmitting False (setState PasswordError (p\<lparr>password_error_text := cp_wrongPassword (copy p)\<rparr>)))
          \<lparr>password_focused := True\<rparr>
      else if e = ErrSecretUnavailable then setSubmitting False (unavailable p)
      else setSubmitting False (networkError RetryReveal p))"
proof -
  have codes: "js (ErrorCodeFor e) = js ''LINK_PASSWORD_INVALID'' \<longleftrightarrow> e = ErrLinkPasswordInvalid"
    "js (ErrorCodeFor e) = js ''SECRET_UNAVAILABLE'' \<longleftrightarrow> e = ErrSecretUnavailable"
    by (cases e; simp add: ErrorCodeFor_def)+
  have "\<not> resp_ok (ErrorStatus e)" "ErrorStatus ErrLinkPasswordInvalid = 401"
    by (cases e; simp add: resp_ok_def ErrorStatus_def)+
  with codes show ?thesis
    by (cases "e = ErrLinkPasswordInvalid"; cases "e = ErrSecretUnavailable";
      simp add: writeDeliveryError_def writeError_def reveal_answer_def reveal_body_def page_defs)
qed

text \<open>C5: 
  The page follows the service: it shows the secret exactly when the call released one, asks for the password
  again exactly when it was wrong, reports the link as gone exactly when the service does, and offers
  a retry for everything else; it keeps the token for a retry, and forgets it otherwise.
\<close>

theorem recipient_follows_service:
  assumes "\<forall>i r. pc = Released i r \<longrightarrow> (\<exists>plain. response_of i plain = pc)"
  shows "(let q = reveal_answer (consume_reply pc) p
    in currentState q = outcome_state pc \<and> \<not> reveal_disabled q \<and>
       token q = (if outcome_state pc \<in> {Revealed, Unavailable} then [] else token p) \<and>
       (outcome_state pc = NetworkError \<longrightarrow>
          snd (networkRetry_click q) = (if token p = [] then []
            else [ConsumeCall (consume_request (token p) (password_value p))])))"
proof (cases pc)
  case (Released i r)
  then obtain n p' summary where n: "normalizePayload p' = Some (n, summary)" "rs_payload r = marshal_payload_json n"
    using assms response_of_canonical by metis
  have "displays (reveal_answer (consume_reply pc) p) n"
    using reveal_displays [OF n(1), of "rs_secret r" p] n(2) Released by (simp add: consume_reply_def)
  moreover have "\<not> reveal_disabled (reveal_answer x p)" for x
    by (simp add: reveal_answer_def page_defs split: prod.split)
  ultimately show ?thesis using Released by (simp add: displays_def outcome_state_def Let_def)
qed (auto simp: consume_reply_def reveal_refused reveal_rejected outcome_state_def Let_def page_defs
    networkRetry_click_def reveal_def consume_request_def)

theorem recipient_follows_service_witness:
  "\<forall>p. currentState (reveal_answer (consume_reply (Refused ErrDependencyUnavailable)) p) = NetworkError"
proof
  fix p
  show "currentState (reveal_answer (consume_reply (Refused ErrDependencyUnavailable)) p) = NetworkError"
    using recipient_follows_service [of "Refused ErrDependencyUnavailable" p]
    by (simp add: Let_def outcome_state_def)
qed

section \<open>What is typed is what is shown\<close>

lemma build_payload_accepted:
  assumes "build_payload syntax_message m0 rows data = Inr m" and "length rows \<le> MAX_FIELDS" and "plain_keys rows"
  shows "accepted_model m"
proof (cases "m0 = js ''structured''")
  case True
  with assms(1) have "structuredPayload rows = Inr m"
    by (auto simp: build_payload_def split: sum.splits option.splits)
  from structured_accepted [OF this assms(2,3)] show ?thesis by blast
next
  case False
  with assms(1) have "plainPayload syntax_message data = Inr m"
    by (auto simp: build_payload_def split: sum.splits option.splits)
  then show ?thesis
    by (auto simp: plainPayload_def accepted_model_def Let_def split: if_splits sum.splits)
qed

lemma canonical_shown:
  assumes "accepted_model m" and "cr_payload req = decode_payload True (payload_json m)"
  obtains summary legacy where "canonicalPayload req = Some (marshal_payload_json (kept_payload m), summary)"
    "normalizeConsumedPayload (marshal_payload_json (kept_payload m)) =
       Some (marshal_payload_json (kept_payload m), legacy)"
    "\<And>i q. displays (reveal_answer (consume_reply (Released i
       \<lparr>rs_secret = legacy, rs_payload = marshal_payload_json (kept_payload m)\<rparr>)) q) (kept_payload m)"
proof -
  obtain summary where norm: "normalizePayload (decoded_payload m) = Some (kept_payload m, summary)"
    using normalize_decoded [OF assms(1)] by blast
  from normal_payload_consumed(2) [OF decode_payload_valid [OF accepted_decode [OF assms(1)]] norm]
  obtain legacy where "normalizeConsumedPayload (marshal_payload_json (kept_payload m)) =
      Some (marshal_payload_json (kept_payload m), legacy)"
    by blast
  with norm reveal_displays [OF norm] show thesis
    by (intro that [of summary legacy])
      (simp_all add: canonicalPayload_def assms(2) accepted_decode [OF assms(1)] marshalPayload_def consume_reply_def)
qed

section \<open>The create request\<close>

text \<open>
  The body of the create request, decoded with unknown members refused. The members for the delivery by e-mail
  are skipped. A number must be an integer of 64 bits.
\<close>

definition zero_create :: create_request where
  "zero_create =
     \<lparr>cr_title = [], cr_description = [], cr_recipient_reference = [], cr_secret = None, cr_payload = None,
      cr_expires_in_seconds = 0, cr_password = None, cr_max_failed_attempts = 0\<rparr>"

definition create_names :: "string list" where
  "create_names = [''title'', ''description'', ''recipient_reference'', ''secret'', ''payload'',
     ''expires_in_seconds'', ''password'', ''max_failed_attempts'', ''delivery'', ''send_email'', ''recipient_email'']"

definition decode_int64 :: "json \<Rightarrow> int \<Rightarrow> int option" where
  "decode_int64 v old =
     (case v of
        JNull \<Rightarrow> Some old
      | JNum m e \<Rightarrow> (if e = 0 \<and> - (2 ^ 63) \<le> m \<and> m < 2 ^ 63 then Some m else None)
      | _ \<Rightarrow> None)"

definition set_create_member :: "string \<Rightarrow> json \<Rightarrow> create_request \<Rightarrow> create_request option" where
  "set_create_member name v r =
     (if name = ''title'' then map_option (\<lambda>s. r\<lparr>cr_title := s\<rparr>) (decode_string v (cr_title r))
      else if name = ''description'' then map_option (\<lambda>s. r\<lparr>cr_description := s\<rparr>) (decode_string v (cr_description r))
      else if name = ''recipient_reference''
      then map_option (\<lambda>s. r\<lparr>cr_recipient_reference := s\<rparr>) (decode_string v (cr_recipient_reference r))
      else if name = ''secret'' then Some (r\<lparr>cr_secret := Some v\<rparr>)
      else if name = ''payload''
      then (if v = JNull then Some (r\<lparr>cr_payload := None\<rparr>)
            else map_option (\<lambda>p. r\<lparr>cr_payload := Some p\<rparr>) (decode_payload True v))
      else if name = ''expires_in_seconds''
      then map_option (\<lambda>n. r\<lparr>cr_expires_in_seconds := word_of_int n\<rparr>) (decode_int64 v (sint (cr_expires_in_seconds r)))
      else if name = ''password''
      then (if v = JNull then Some (r\<lparr>cr_password := None\<rparr>)
            else map_option (\<lambda>s. r\<lparr>cr_password := Some s\<rparr>) (decode_string v []))
      else if name = ''max_failed_attempts''
      then map_option (\<lambda>n. r\<lparr>cr_max_failed_attempts := n\<rparr>) (decode_int64 v (cr_max_failed_attempts r))
      else Some r)"

fun decode_create_members :: "(jstr \<times> json) list \<Rightarrow> create_request \<Rightarrow> create_request option" where
  "decode_create_members [] r = Some r"
| "decode_create_members ((k, v) # kvs) r =
     (case member create_names k of
        None \<Rightarrow> None
      | Some n \<Rightarrow>
          (case set_create_member n v r of
             None \<Rightarrow> None
           | Some r' \<Rightarrow> decode_create_members kvs r'))"

definition decode_create :: "json \<Rightarrow> create_request option" where
  "decode_create v =
     (case v of JObj kvs \<Rightarrow> decode_create_members kvs zero_create | JNull \<Rightarrow> Some zero_create | _ \<Rightarrow> None)"

lemma create_members:
  "member create_names (js ''title'') = Some ''title''"
  "member create_names (js ''description'') = Some ''description''"
  "member create_names (js ''recipient_reference'') = Some ''recipient_reference''"
  "member create_names (js ''payload'') = Some ''payload''"
  "member create_names (js ''expires_in_seconds'') = Some ''expires_in_seconds''"
  "member create_names (js ''password'') = Some ''password''"
  "member create_names (js ''max_failed_attempts'') = Some ''max_failed_attempts''"
  "member create_names (js ''delivery'') = Some ''delivery''"
  by (simp_all add: member_def create_names_def)

text \<open>What the server decodes from the request of the create page.\<close>

lemma payload_json_not_null: "payload_json m \<noteq> JNull"
  by (cases m) (simp_all add: obj_def)

lemma set_create_member_simps:
  "set_create_member ''title'' (JStr s) r = Some (r\<lparr>cr_title := go_text s\<rparr>)"
  "set_create_member ''description'' (JStr s) r = Some (r\<lparr>cr_description := go_text s\<rparr>)"
  "set_create_member ''recipient_reference'' (JStr s) r = Some (r\<lparr>cr_recipient_reference := go_text s\<rparr>)"
  "set_create_member ''payload'' (payload_json m) r =
     map_option (\<lambda>p. r\<lparr>cr_payload := Some p\<rparr>) (decode_payload True (payload_json m))"
  "set_create_member ''expires_in_seconds'' v r =
     map_option (\<lambda>n. r\<lparr>cr_expires_in_seconds := word_of_int n\<rparr>) (decode_int64 v (sint (cr_expires_in_seconds r)))"
  "set_create_member ''password'' (if pw \<noteq> [] then JStr pw else JNull) r =
     Some (r\<lparr>cr_password := (if pw \<noteq> [] then Some (go_text pw) else None)\<rparr>)"
  "set_create_member ''max_failed_attempts'' v r =
     map_option (\<lambda>n. r\<lparr>cr_max_failed_attempts := n\<rparr>) (decode_int64 v (cr_max_failed_attempts r))"
  "set_create_member ''delivery'' v r = Some r"
  by (simp_all add: set_create_member_def decode_string_def payload_json_not_null)

lemma decode_create_body:
  assumes "decode_create (create_body data email m) = Some req"
  shows "cr_payload req = decode_payload True (payload_json m)"
    and "cr_password req = (if form_string data ''password'' = [] then None
      else Some (go_text (form_string data ''password'')))"
    and "decode_payload True (payload_json m) \<noteq> None"
proof -
  let ?pw = "form_string data ''password''"
  note members = decode_create_def create_body_def obj_def Let_def create_members set_create_member_simps
  from assms obtain p where p: "decode_payload True (payload_json m) = Some p"
    by (cases "decode_payload True (payload_json m)") (simp_all add: members)
  then show "decode_payload True (payload_json m) \<noteq> None" by simp
  have "cr_payload req = Some p \<and> cr_password req = (if ?pw = [] then None else Some (go_text ?pw))"
    using assms by (auto simp: members p split: option.splits if_splits)
  with p show "cr_payload req = decode_payload True (payload_json m)"
    "cr_password req = (if ?pw = [] then None else Some (go_text ?pw))"
    by simp_all
qed

end
