(* ===== verification/DeliverySystem.thy ===== *)
theory DeliverySystem
  imports DeliveryService
begin

text \<open>
  The delivery service as a whole: one table, any number of calls to \<^verbatim>\<open>Consume\<close> at any point of their
  program, and the other operations, in every interleaving. The state also keeps the lease ids that were
  handed out, which are random and hence taken to be new, and what was stored for every link, so that the
  safety of the one-time delivery can be stated: who gets the content, what it is, and how often.
\<close>

section \<open>The system\<close>

record delivery_system =
  ds_rows :: delivery_table
  ds_calls :: "consume_call list"
  ds_leases :: "uuid set"
  ds_created :: "(uuid \<times> json) list"
  ds_audit :: "audit_event list"

definition pc_lease :: "consume_pc \<Rightarrow> uuid option" where
  "pc_lease pc =
     (case pc of WantBegin _ _ l \<Rightarrow> Some l | WantDecrypt _ l _ \<Rightarrow> Some l | WantRestore _ l \<Rightarrow> Some l
      | WantComplete _ l _ \<Rightarrow> Some l | _ \<Rightarrow> None)"

definition set_pc :: "nat \<Rightarrow> consume_pc \<Rightarrow> consume_call list \<Rightarrow> consume_call list" where
  "set_pc i pc calls = calls[i := (calls ! i)\<lparr>cc_pc := pc\<rparr>]"

text \<open>The links whose row an operation has added, with their content.\<close>

definition newly_created :: "delivery_table \<Rightarrow> delivery_table \<Rightarrow> json \<Rightarrow> (uuid \<times> json) list" where
  "newly_created rows rows' payload = map (\<lambda>r. (dr_id r, payload)) (drop (length rows) rows')"

inductive svc_step :: "service_env \<Rightarrow> delivery_system \<Rightarrow> delivery_system \<Rightarrow> bool"
  for env :: service_env where
  svc_create:
    "(\<And>p. cr_payload req = Some p \<Longrightarrow> \<exists>body. decode_payload True body = Some p) \<Longrightarrow>
     canonicalPayload req = Some (payload, summary) \<Longrightarrow>
     (\<And>c. no_ciphertext w = Some c \<Longrightarrow> vault_open env c = Some (JsonText payload)) \<Longrightarrow>
     Create env w actorID req (ds_rows s) = (rows', result, events) \<Longrightarrow>
     svc_step env s (s\<lparr>ds_rows := rows',
       ds_created := ds_created s @ newly_created (ds_rows s) rows' payload,
       ds_audit := ds_audit s @ events\<rparr>)"
| svc_arrive:
    "svc_step env s (s\<lparr>ds_calls := ds_calls s @ [\<lparr>cc_token = token, cc_password = password, cc_pc = Arrived\<rparr>]\<rparr>)"
| svc_consume:
    "i < length (ds_calls s) \<Longrightarrow> (\<And>l. co_lease w = Some l \<Longrightarrow> l \<notin> ds_leases s) \<Longrightarrow>
     consume_step env w (ds_calls s ! i) (ds_rows s) = (rows', pc, events) \<Longrightarrow>
     svc_step env s (s\<lparr>ds_rows := rows', ds_calls := set_pc i pc (ds_calls s),
       ds_leases := set_option (co_lease w) \<union> ds_leases s, ds_audit := ds_audit s @ events\<rparr>)"
| svc_abandon:
    "i < length (ds_calls s) \<Longrightarrow> (\<And>j r. cc_pc (ds_calls s ! i) \<noteq> Released j r) \<Longrightarrow>
     svc_step env s (s\<lparr>ds_calls := set_pc i Abandoned (ds_calls s)\<rparr>)"
| svc_revoke:
    "RevokeLink reply now link actorID (ds_rows s) = (rows', result, events) \<Longrightarrow>
     svc_step env s (s\<lparr>ds_rows := rows', ds_audit := ds_audit s @ events\<rparr>)"
| svc_protect:
    "SetPasswordProtection env reply now salt link password actorID (ds_rows s) = (rows', result', events) \<Longrightarrow>
     svc_step env s (s\<lparr>ds_rows := rows', ds_audit := ds_audit s @ events\<rparr>)"
| svc_unprotect:
    "RemovePasswordProtection reply now link actorID (ds_rows s) = (rows', result', events) \<Longrightarrow>
     svc_step env s (s\<lparr>ds_rows := rows', ds_audit := ds_audit s @ events\<rparr>)"
| svc_cleanup:
    "svc_step env s (s\<lparr>ds_rows := fst (Cleanup now (ConsumingLeaseTTL env) ret (ds_rows s))\<rparr>)"
| svc_audit_lost: "svc_step env s (s\<lparr>ds_audit := butlast (ds_audit s)\<rparr>)"

text \<open>
  A creation comes from a decoded body, and Vault opens its ciphertext to the payload. A creation whose
  payload is refused changes nothing and is left out.
\<close>

definition svc_init :: delivery_system where
  "svc_init = \<lparr>ds_rows = [], ds_calls = [], ds_leases = {}, ds_created = [], ds_audit = []\<rparr>"

section \<open>What each operation does to the table\<close>

text \<open>
  A change of the table that no call makes through its lease: the rows evolve as the statements allow,
  new rows have the content that is logged for them, and a lease that a row has afterwards, other than
  the ones in \<open>L\<close>, was there before, under the same token and password.
\<close>

definition lease_frame :: "uuid set \<Rightarrow> delivery_table \<Rightarrow> delivery_table \<Rightarrow> bool" where
  "lease_frame L rows rows' \<longleftrightarrow>
     (\<forall>r' \<in> set rows'. \<forall>l. consuming_lease_id r' = Some l \<and> l \<notin> L \<longrightarrow>
        (\<exists>r \<in> set rows. dr_id r = dr_id r' \<and> consuming_lease_id r = Some l \<and>
           password_hash r = password_hash r' \<and> token_hash r = token_hash r'))"

lemma lease_frame_refl [simp]: "lease_frame L rows rows"
  by (auto simp: lease_frame_def)

lemma lease_frame_trans: "lease_frame L a b \<Longrightarrow> lease_frame L b c \<Longrightarrow> lease_frame L a c"
  unfolding lease_frame_def by (metis (mono_tags, lifting))

lemma update_where_frame:
  assumes "\<And>r l. r \<in> set rows \<Longrightarrow> P r \<Longrightarrow> consuming_lease_id (f r) = Some l \<Longrightarrow> l \<notin> L \<Longrightarrow>
    consuming_lease_id r = Some l \<and> password_hash (f r) = password_hash r"
    and "\<And>r. same_key r (f r)"
  shows "lease_frame L rows (fst (update_where now P f rows))"
  using assms unfolding lease_frame_def update_where_def same_key_def by fastforce

lemma clear_lease_none [simp]: "consuming_lease_id (clear_lease r) = None"
  by (simp add: clear_lease_def)

lemma fail_row_none [simp]: "consuming_lease_id (fail_row now r) = None"
  by (simp add: fail_row_def Let_def)

lemma fail_row_key [simp]: "same_key r (fail_row now r)"
  by (simp add: fail_row_def Let_def same_key_def clear_lease_def)

lemma clear_lease_key [simp]: "same_key r (clear_lease x) = same_key r x"
  by (simp add: same_key_def clear_lease_def)

lemma active_no_lease: "table_ok rows \<Longrightarrow> r \<in> set rows \<Longrightarrow> dr_status r = Active \<Longrightarrow> consuming_lease_id r = None"
  by (auto simp: table_ok_def row_ok_def)

lemma frame_Begin: "lease_frame {l} rows (fst (BeginConsume now lease h e l rows))"
  unfolding BeginConsume_def case_prod_beta Let_def fst_conv
  by (rule update_where_frame) (auto simp: same_key_def)

lemma frame_Failure: "lease_frame L rows (fst (RecordPasswordFailure now lease h e rows))"
  unfolding RecordPasswordFailure_def case_prod_beta Let_def fst_conv
  by (rule update_where_frame) auto

lemma frame_Protect:
  "table_ok rows \<Longrightarrow> lease_frame L rows (fst (UpdatePasswordProtection now i e rows))"
  unfolding UpdatePasswordProtection_def Let_def fst_conv
  by (rule update_where_frame) (auto simp: same_key_def active_no_lease)

lemma frame_Restore: "lease_frame L rows (RestoreConsume now i l rows)"
  unfolding RestoreConsume_def by (rule update_where_frame) (auto simp: same_key_def clear_lease_def)

lemma frame_Complete: "lease_frame L rows (fst (CompleteConsume now i l rows))"
  unfolding CompleteConsume_def case_prod_beta Let_def fst_conv
  by (rule update_where_frame) (auto simp: same_key_def clear_lease_def)

lemma frame_Revoke: "lease_frame L rows (fst (Revoke now i rows))"
  unfolding Revoke_def case_prod_beta Let_def fst_conv
  by (rule update_where_frame) (auto simp: same_key_def clear_lease_def)

lemma frame_Cleanup: "lease_frame L rows (fst (Cleanup now lease ret rows))"
proof -
  have "lease_frame L rows (fst (cleanup_expire now rows))" for rows
    unfolding cleanup_expire_def by (rule update_where_frame) (auto simp: same_key_def)
  moreover have "lease_frame L rows (fst (cleanup_restore now lease rows))" for rows
    unfolding cleanup_restore_def by (rule update_where_frame) (auto simp: same_key_def clear_lease_def)
  moreover have "lease_frame L rows (fst (cleanup_payloads now ret rows))" for rows
    unfolding cleanup_payloads_def by (rule update_where_frame) (auto simp: same_key_def)
  ultimately show ?thesis unfolding Cleanup_fst by (blast intro: lease_frame_trans)
qed

lemma Insert_rows: "Insert now p rows = Some rows' \<Longrightarrow> rows' = rows @ [new_row now p]"
  by (auto simp: Insert_def split: if_splits)

lemma frame_Insert: "Insert now p rows = Some rows' \<Longrightarrow> lease_frame L rows rows'"
  by (fastforce dest: Insert_rows simp: lease_frame_def new_row_def)

lemma length_update_where [simp]: "length (fst (update_where now P f rows)) = length rows"
  by (simp add: update_where_def)

lemma length_ops [simp]:
  "length (fst (BeginConsume now lease h e l rows)) = length rows"
  "length (fst (RecordPasswordFailure now lease h e' rows)) = length rows"
  "length (fst (UpdatePasswordProtection now i e rows)) = length rows"
  "length (RestoreConsume now i l rows) = length rows"
  "length (fst (CompleteConsume now i l rows)) = length rows"
  "length (fst (Revoke now i rows)) = length rows"
  "length (fst (Cleanup now lease ret rows)) = length rows"
  by (simp_all add: BeginConsume_def RecordPasswordFailure_def UpdatePasswordProtection_def RestoreConsume_def
      CompleteConsume_def Revoke_def Cleanup_fst cleanup_expire_def cleanup_restore_def cleanup_payloads_def
      case_prod_beta Let_def)

text \<open>A change that keeps the rows, in which no lease is new but those in \<open>L\<close>.\<close>

definition quiet :: "uuid set \<Rightarrow> delivery_table \<Rightarrow> delivery_table \<Rightarrow> bool" where
  "quiet L rows rows' \<longleftrightarrow> table_ok rows' \<and> table_evolves rows rows' \<and> lease_frame L rows rows' \<and>
     length rows' = length rows"

lemma quiet_refl [simp]: "quiet L rows rows \<longleftrightarrow> table_ok rows"
  by (simp add: quiet_def table_evolves_def list_all2_same)

lemma quiet_ops:
  assumes "table_ok rows"
  shows "quiet {l} rows (fst (BeginConsume now lease h e l rows))"
    and "quiet L rows (fst (RecordPasswordFailure now lease h e' rows))"
    and "quiet L rows (fst (UpdatePasswordProtection now i e rows))"
    and "quiet L rows (RestoreConsume now i l rows)"
    and "quiet L rows (fst (CompleteConsume now i l rows))"
    and "quiet L rows (fst (Revoke now i rows))"
    and "quiet L rows (fst (Cleanup now lease ret rows))"
  unfolding quiet_def using assms
  by (simp_all add: table_ok_ops frame_Begin frame_Failure frame_Protect frame_Restore frame_Complete
      frame_Revoke frame_Cleanup store_event_evolves store_begin store_failure store_protect store_restore
      store_complete store_revoke store_cleanup)

lemma quiet_db_call:
  "table_ok rows \<Longrightarrow> quiet L rows (fst result) \<Longrightarrow> db_call reply result rows = (rows', answer) \<Longrightarrow> quiet L rows rows'"
  by (auto simp: db_call_def split: db_reply.splits)

section \<open>The invariant\<close>

definition pw_ok :: "service_env \<Rightarrow> consume_call \<Rightarrow> bytes option \<Rightarrow> bool" where
  "pw_ok env c e \<longleftrightarrow> (case e of None \<Rightarrow> True | Some h \<Rightarrow> VerifyPassword (IDKey env) (cc_password c) h = Some True)"

text \<open>The caller knows the token and the password of a row.\<close>

definition row_for :: "service_env \<Rightarrow> consume_call \<Rightarrow> delivery_row \<Rightarrow> bool" where
  "row_for env c r \<longleftrightarrow> token_hmac env (cc_token c) = Some (token_hash r) \<and> pw_ok env c (password_hash r)"

definition holder :: "service_env \<Rightarrow> delivery_table \<Rightarrow> consume_call \<Rightarrow> uuid \<Rightarrow> uuid \<Rightarrow> bool" where
  "holder env rows c i l \<longleftrightarrow>
     (\<forall>r \<in> set rows. dr_id r = i \<and> consuming_lease_id r = Some l \<longrightarrow> row_for env c r)"

definition content :: "service_env \<Rightarrow> (uuid \<times> json) list \<Rightarrow> uuid \<Rightarrow> bytes \<Rightarrow> bool" where
  "content env created i ct \<longleftrightarrow> (\<exists>v. (i, v) \<in> set created \<and> vault_open env ct = Some (JsonText v))"

definition delivered :: "service_env \<Rightarrow> delivery_table \<Rightarrow> (uuid \<times> json) list \<Rightarrow> consume_call \<Rightarrow> uuid \<Rightarrow>
    consume_response \<Rightarrow> bool" where
  "delivered env rows created c i resp \<longleftrightarrow>
     (\<exists>r \<in> set rows. dr_id r = i \<and> dr_status r = Consumed \<and> row_for env c r) \<and>
     (\<exists>v. (i, v) \<in> set created \<and> normalizeConsumedPayload v = Some (rs_payload resp, rs_secret resp))"

definition call_ok ::
  "service_env \<Rightarrow> delivery_table \<Rightarrow> uuid set \<Rightarrow> (uuid \<times> json) list \<Rightarrow> consume_call \<Rightarrow> bool" where
  "call_ok env rows leases created c \<longleftrightarrow> (\<forall>l. pc_lease (cc_pc c) = Some l \<longrightarrow> l \<in> leases) \<and>
     (case cc_pc c of
        WantBegin h e l \<Rightarrow> token_hmac env (cc_token c) = Some h \<and> pw_ok env c e \<and>
          (\<forall>r \<in> set rows. consuming_lease_id r \<noteq> Some l)
      | WantDecrypt i l ct \<Rightarrow> holder env rows c i l \<and> content env created i ct
      | WantComplete i l plain \<Rightarrow> holder env rows c i l \<and> (\<exists>v. plain = JsonText v \<and> (i, v) \<in> set created)
      | Released i resp \<Rightarrow> delivered env rows created c i resp
      | _ \<Rightarrow> True)"

definition rows_inv :: "service_env \<Rightarrow> delivery_table \<Rightarrow> uuid set \<Rightarrow> (uuid \<times> json) list \<Rightarrow> bool" where
  "rows_inv env rows leases created \<longleftrightarrow>
     table_ok rows \<and>
     (\<forall>r \<in> set rows. \<forall>l. consuming_lease_id r = Some l \<longrightarrow> l \<in> leases) \<and>
     (\<forall>r \<in> set rows. \<not> row_closed r \<longrightarrow> content env created (dr_id r) (encrypted_payload r)) \<and>
     distinct (map fst created) \<and> fst ` set created \<subseteq> dr_id ` set rows"

text \<open>No lease belongs to two calls, and no link was released to two.\<close>

definition calls_apart :: "consume_call list \<Rightarrow> bool" where
  "calls_apart calls \<longleftrightarrow>
     (\<forall>i < length calls. \<forall>j < length calls. i \<noteq> j \<longrightarrow>
        (\<forall>l. pc_lease (cc_pc (calls ! i)) = Some l \<longrightarrow> pc_lease (cc_pc (calls ! j)) \<noteq> Some l) \<and>
        (\<forall>k a b. cc_pc (calls ! i) = Released k a \<longrightarrow> cc_pc (calls ! j) \<noteq> Released k b))"

definition svc_inv :: "service_env \<Rightarrow> delivery_system \<Rightarrow> bool" where
  "svc_inv env s \<longleftrightarrow> rows_inv env (ds_rows s) (ds_leases s) (ds_created s) \<and>
     (\<forall>c \<in> set (ds_calls s). call_ok env (ds_rows s) (ds_leases s) (ds_created s) c) \<and>
     calls_apart (ds_calls s)"

section \<open>The invariant is kept\<close>

lemma quiet_ok: "quiet L rows rows' \<Longrightarrow> table_ok rows'"
  by (simp add: quiet_def)

lemma frame_lease:
  assumes "lease_frame L rows rows'" and "r' \<in> set rows'" and "consuming_lease_id r' = Some l" and "l \<notin> L"
  obtains r where "r \<in> set rows" "dr_id r = dr_id r'" "consuming_lease_id r = Some l"
    "password_hash r = password_hash r'" "token_hash r = token_hash r'"
  using assms unfolding lease_frame_def by metis

lemma quiet_row:
  assumes "quiet L rows rows'" and "r \<in> set rows"
  obtains r' where "r' \<in> set rows'" "row_evolves r r'"
  using assms table_evolves_row unfolding quiet_def by metis

lemma quiet_row_back:
  assumes "quiet L rows rows'" and "r' \<in> set rows'"
  obtains r where "r \<in> set rows" "row_evolves r r'"
proof -
  have all2: "list_all2 row_evolves rows rows'"
    using assms(1) by (auto simp: quiet_def table_evolves_def)
  from assms(2) obtain i where "i < length rows'" "rows' ! i = r'" by (auto simp: in_set_conv_nth)
  with all2 have "i < length rows" "row_evolves (rows ! i) r'"
    by (auto simp: list_all2_conv_all_nth)
  then show thesis using that nth_mem by blast
qed

lemma pw_ok_pc [simp]: "pw_ok env (c\<lparr>cc_pc := pc\<rparr>) e = pw_ok env c e"
  by (simp add: pw_ok_def split: option.split)

lemma row_for_pc [simp]: "row_for env (c\<lparr>cc_pc := pc\<rparr>) r = row_for env c r"
  by (simp add: row_for_def)

lemma holder_pc [simp]: "holder env rows (c\<lparr>cc_pc := pc\<rparr>) i l = holder env rows c i l"
  by (simp add: holder_def)

lemma delivered_pc [simp]: "delivered env rows created (c\<lparr>cc_pc := pc\<rparr>) i r = delivered env rows created c i r"
  by (simp add: delivered_def)

lemma holder_frame:
  assumes "holder env rows c i l" and "lease_frame L rows rows'" and "l \<notin> L"
  shows "holder env rows' c i l"
  unfolding holder_def
proof (intro ballI impI, elim conjE)
  fix r' assume r': "r' \<in> set rows'" "dr_id r' = i" "consuming_lease_id r' = Some l"
  from frame_lease [OF assms(2) r'(1,3) assms(3)] obtain r where r: "r \<in> set rows" "dr_id r = dr_id r'"
    "consuming_lease_id r = Some l" "password_hash r = password_hash r'" "token_hash r = token_hash r'" .
  with assms(1) r' have "row_for env c r" by (simp add: holder_def)
  with r(4,5) show "row_for env c r'" by (simp add: row_for_def)
qed

lemma content_mono: "content env created i ct \<Longrightarrow> set created \<subseteq> set created' \<Longrightarrow> content env created' i ct"
  by (auto simp: content_def)

lemma delivered_evolves:
  assumes "delivered env rows created c i resp" and "table_evolves rows rows'" and "set created \<subseteq> set created'"
  shows "delivered env rows' created' c i resp"
proof -
  from assms(1) obtain r v where r: "r \<in> set rows" "dr_id r = i" "dr_status r = Consumed" "row_for env c r"
    and v: "(i, v) \<in> set created" "normalizeConsumedPayload v = Some (rs_payload resp, rs_secret resp)"
    by (auto simp: delivered_def)
  from table_evolves_row [OF assms(2) r(1)] obtain r' where r': "r' \<in> set rows'" "row_evolves r r'" .
  with r have "dr_id r' = i" "dr_status r' = Consumed" "row_for env c r'"
    by (auto simp: row_evolves_def same_key_def row_closed_def row_for_def)
  with r' v assms(3) show ?thesis by (auto simp: delivered_def)
qed

text \<open>A call keeps its part of the invariant while others change the table, unless they take its lease.\<close>

lemma call_ok_frame:
  assumes "call_ok env rows leases created c" and "lease_frame L rows rows'" and "table_evolves rows rows'"
    and "\<forall>l \<in> L. pc_lease (cc_pc c) \<noteq> Some l"
    and "leases \<subseteq> leases'" and "set created \<subseteq> set created'"
  shows "call_ok env rows' leases' created' c"
proof (cases "cc_pc c")
  case (WantBegin h e l)
  then have l: "l \<notin> L" using assms(4) by (auto simp: pc_lease_def)
  have "consuming_lease_id r' \<noteq> Some l" if "r' \<in> set rows'" for r'
  proof
    assume "consuming_lease_id r' = Some l"
    from frame_lease [OF assms(2) that this l] obtain r where "r \<in> set rows" "consuming_lease_id r = Some l" .
    with assms(1) WantBegin show False by (auto simp: call_ok_def)
  qed
  with assms(1,5) WantBegin show ?thesis by (auto simp: call_ok_def)
next
  case (WantDecrypt i l ct)
  then have "l \<notin> L" using assms(4) by (auto simp: pc_lease_def)
  with assms WantDecrypt show ?thesis
    by (auto simp: call_ok_def intro: content_mono holder_frame)
next
  case (WantComplete i l plain)
  then have "l \<notin> L" using assms(4) by (auto simp: pc_lease_def)
  with assms WantComplete show ?thesis by (auto simp: call_ok_def intro: holder_frame)
next
  case (Released i resp)
  with assms show ?thesis by (auto simp: call_ok_def intro: delivered_evolves)
qed (use assms(1,5) in \<open>auto simp: call_ok_def\<close>)

lemma call_ok_quiet:
  assumes "call_ok env rows leases created c" and "quiet L rows rows'" and "\<forall>l \<in> L. pc_lease (cc_pc c) \<noteq> Some l"
    and "leases \<subseteq> leases'"
  shows "call_ok env rows' leases' created c"
  using call_ok_frame [OF assms(1) _ _ assms(3,4) subset_refl] assms(2) by (simp add: quiet_def)

lemma rows_leases_quiet:
  assumes "quiet L rows rows'" and "\<forall>r \<in> set rows. \<forall>l. consuming_lease_id r = Some l \<longrightarrow> l \<in> leases"
    and "L \<subseteq> leases" and "r' \<in> set rows'" and "consuming_lease_id r' = Some l"
  shows "l \<in> leases"
proof (cases "l \<in> L")
  case False
  from assms(1) have "lease_frame L rows rows'" by (simp add: quiet_def)
  from frame_lease [OF this assms(4,5) False] assms(2) show ?thesis by metis
qed (use assms(3) in auto)

lemma rows_content_quiet:
  assumes "quiet L rows rows'"
    and "\<forall>r \<in> set rows. \<not> row_closed r \<longrightarrow> content env created (dr_id r) (encrypted_payload r)"
    and "r' \<in> set rows'" and "\<not> row_closed r'"
  shows "content env created (dr_id r') (encrypted_payload r')"
proof -
  from quiet_row_back [OF assms(1,3)] obtain r where r: "r \<in> set rows" "row_evolves r r'" .
  with assms(4) have "\<not> row_closed r" "encrypted_payload r' = encrypted_payload r" "dr_id r' = dr_id r"
    by (auto simp: row_evolves_def row_closed_def same_key_def)
  with assms(2) r show ?thesis by simp
qed

lemma rows_ids_quiet: "quiet L rows rows' \<Longrightarrow> dr_id ` set rows \<subseteq> dr_id ` set rows'"
proof
  fix x assume "quiet L rows rows'" "x \<in> dr_id ` set rows"
  then obtain r where "r \<in> set rows" "x = dr_id r" by auto
  from quiet_row [OF \<open>quiet L rows rows'\<close> this(1)] obtain r' where "r' \<in> set rows'" "row_evolves r r'" .
  with \<open>x = dr_id r\<close> show "x \<in> dr_id ` set rows'"
    by (intro image_eqI [of _ _ r']) (simp_all add: row_evolves_def same_key_def)
qed

lemma rows_inv_quiet:
  assumes "rows_inv env rows leases created" and "quiet L rows rows'" and "L \<subseteq> leases" and "leases \<subseteq> leases'"
  shows "rows_inv env rows' leases' created"
  unfolding rows_inv_def
proof (intro conjI ballI allI impI)
  show "l \<in> leases'" if "r' \<in> set rows'" "consuming_lease_id r' = Some l" for r' l
    using rows_leases_quiet [OF assms(2) _ assms(3) that] assms(1,4) unfolding rows_inv_def by blast
  show "content env created (dr_id r') (encrypted_payload r')" if "r' \<in> set rows'" "\<not> row_closed r'" for r'
    using rows_content_quiet [OF assms(2) _ that] assms(1) unfolding rows_inv_def by blast
  show "fst ` set created \<subseteq> dr_id ` set rows'"
    using rows_ids_quiet [OF assms(2)] assms(1) unfolding rows_inv_def by blast
qed (use assms(1) quiet_ok [OF assms(2)] in \<open>simp_all add: rows_inv_def\<close>)

lemma svc_inv_quiet:
  assumes "svc_inv env s" and "quiet {} (ds_rows s) rows'"
  shows "svc_inv env (s\<lparr>ds_rows := rows', ds_audit := events\<rparr>)"
  using assms(1) rows_inv_quiet [OF _ assms(2)] call_ok_quiet [OF _ assms(2)]
  unfolding svc_inv_def by auto

text \<open>One call moves: the table may change under its lease, and the call has a new program counter.\<close>

lemma nth_set_pc: "j < length calls \<Longrightarrow> i < length calls \<Longrightarrow>
    set_pc i pc calls ! j = (if j = i then (calls ! i)\<lparr>cc_pc := pc\<rparr> else calls ! j)"
  by (simp add: set_pc_def nth_list_update)

lemma length_set_pc [simp]: "length (set_pc i pc calls) = length calls"
  by (simp add: set_pc_def)

lemma call_lease_known: "call_ok env rows leases created c \<Longrightarrow> pc_lease (cc_pc c) = Some l \<Longrightarrow> l \<in> leases"
  by (simp add: call_ok_def)

lemma calls_apart_move:
  assumes "calls_apart calls" and "i < length calls" and "\<forall>c \<in> set calls. \<forall>l. pc_lease (cc_pc c) = Some l \<longrightarrow> l \<in> leases"
    and "\<And>l. pc_lease pc = Some l \<Longrightarrow> pc_lease (cc_pc (calls ! i)) = Some l \<or> l \<notin> leases"
    and "\<And>k a j b. pc = Released k a \<Longrightarrow> j < length calls \<Longrightarrow> j \<noteq> i \<Longrightarrow> cc_pc (calls ! j) \<noteq> Released k b"
  shows "calls_apart (set_pc i pc calls)"
  unfolding calls_apart_def length_set_pc
proof (intro allI impI)
  fix j k assume j: "j < length calls" and k: "k < length calls" and neq: "j \<noteq> k"
  have apart: "pc_lease (cc_pc (calls ! a)) = Some l \<Longrightarrow> pc_lease (cc_pc (calls ! b)) \<noteq> Some l"
    "cc_pc (calls ! a) = Released m x \<Longrightarrow> cc_pc (calls ! b) \<noteq> Released m y"
    if "a < length calls" "b < length calls" "a \<noteq> b" for a b l m x y
    using assms(1) that unfolding calls_apart_def by blast+
  have known: "a < length calls \<Longrightarrow> pc_lease (cc_pc (calls ! a)) = Some l \<Longrightarrow> l \<in> leases" for a l
    using assms(3) nth_mem by blast
  show "(\<forall>l. pc_lease (cc_pc (set_pc i pc calls ! j)) = Some l \<longrightarrow> pc_lease (cc_pc (set_pc i pc calls ! k)) \<noteq> Some l) \<and>
     (\<forall>m a b. cc_pc (set_pc i pc calls ! j) = Released m a \<longrightarrow> cc_pc (set_pc i pc calls ! k) \<noteq> Released m b)"
    using apart [OF j k neq] apart [OF k j] known [OF j] known [OF k] assms(4) assms(5) j k neq assms(2)
    by (auto simp: nth_set_pc)
qed

lemma svc_inv_move:
  assumes inv: "svc_inv env s" and i: "i < length (ds_calls s)" and quiet: "quiet L (ds_rows s) rows'"
    and L: "\<forall>l \<in> L. pc_lease (cc_pc (ds_calls s ! i)) = Some l" and leases: "ds_leases s \<subseteq> leases'"
    and new: "call_ok env rows' leases' (ds_created s) ((ds_calls s ! i)\<lparr>cc_pc := pc\<rparr>)"
    and lease: "\<And>l. pc_lease pc = Some l \<Longrightarrow> pc_lease (cc_pc (ds_calls s ! i)) = Some l \<or> l \<notin> ds_leases s"
    and released: "\<And>k a j b. pc = Released k a \<Longrightarrow> j < length (ds_calls s) \<Longrightarrow> j \<noteq> i \<Longrightarrow>
      cc_pc (ds_calls s ! j) \<noteq> Released k b"
  shows "svc_inv env (s\<lparr>ds_rows := rows', ds_calls := set_pc i pc (ds_calls s), ds_leases := leases',
    ds_audit := events\<rparr>)"
proof -
  have calls: "\<forall>c \<in> set (ds_calls s). call_ok env (ds_rows s) (ds_leases s) (ds_created s) c"
    and apart: "calls_apart (ds_calls s)" and rows: "rows_inv env (ds_rows s) (ds_leases s) (ds_created s)"
    using inv by (simp_all add: svc_inv_def)
  have known: "\<forall>c \<in> set (ds_calls s). \<forall>l. pc_lease (cc_pc c) = Some l \<longrightarrow> l \<in> ds_leases s"
    using calls call_lease_known by blast
  have "L \<subseteq> ds_leases s" using L known i nth_mem by blast
  have "call_ok env rows' leases' (ds_created s) (set_pc i pc (ds_calls s) ! j)" if j: "j < length (ds_calls s)" for j
  proof (cases "j = i")
    case False
    have "\<forall>l \<in> L. pc_lease (cc_pc (ds_calls s ! j)) \<noteq> Some l"
      using apart L i j False unfolding calls_apart_def by metis
    moreover have "call_ok env (ds_rows s) (ds_leases s) (ds_created s) (ds_calls s ! j)"
      using calls j nth_mem by blast
    ultimately show ?thesis
      using call_ok_quiet [OF _ quiet _ leases] False i j by (simp add: nth_set_pc)
  qed (use new i in \<open>simp add: nth_set_pc\<close>)
  then have "\<forall>c \<in> set (set_pc i pc (ds_calls s)). call_ok env rows' leases' (ds_created s) c"
    by (auto simp: in_set_conv_nth)
  moreover have "calls_apart (set_pc i pc (ds_calls s))"
    by (rule calls_apart_move [OF apart i known]) (use lease released in auto)
  ultimately show ?thesis
    using rows_inv_quiet [OF rows quiet \<open>L \<subseteq> ds_leases s\<close> leases] by (simp add: svc_inv_def)
qed

section \<open>The steps of a call\<close>

lemma lookup_forms:
  assumes "consume_lookup env w token password rows = pc"
  shows "pc_lease pc = None \<and> (\<forall>k a. pc \<noteq> Released k a) \<or>
    (\<exists>h e l. pc = WantBegin h e l \<and> token_hmac env token = Some h \<and> co_lease w = Some l \<and>
       (\<forall>stored. e = Some stored \<longrightarrow> VerifyPassword (IDKey env) password stored = Some True))"
  using assms
  by (auto simp: consume_lookup_def pc_lease_def Let_def split: option.splits bool.splits)

lemma call_ok_trivial:
  "pc_lease pc = None \<Longrightarrow> (\<And>k a. pc \<noteq> Released k a) \<Longrightarrow> call_ok env rows leases created (c\<lparr>cc_pc := pc\<rparr>)"
  by (cases pc) (auto simp: call_ok_def pc_lease_def)

lemma update_where_rows:
  "set (fst (update_where now P f rows)) =
     {r \<in> set rows. \<not> P r} \<union> (\<lambda>r. (f r)\<lparr>updated_at := now\<rparr>) ` {r \<in> set rows. P r}"
  by (auto simp: update_where_def)

lemma update_where_written:
  "set (snd (update_where now P f rows)) = (\<lambda>r. (f r)\<lparr>updated_at := now\<rparr>) ` {r \<in> set rows. P r}"
  by (auto simp: update_where_def)

lemma first_row_in: "first_row rs = Some r \<Longrightarrow> r \<in> set rs"
  by (auto simp: first_row_def split: list.splits)

lemma Begin_lease:
  assumes "r' \<in> set (fst (BeginConsume now lease h e l rows))" and "consuming_lease_id r' = Some l"
    and "\<forall>r \<in> set rows. consuming_lease_id r \<noteq> Some l"
  shows "token_hash r' = h \<and> password_hash r' = e"
  using assms by (auto simp: BeginConsume_def case_prod_beta Let_def update_where_rows)

lemma Begin_item:
  assumes "snd (BeginConsume now lease h e l rows) = Some item"
  shows "item \<in> set (fst (BeginConsume now lease h e l rows)) \<and> dr_status item = Consuming"
proof -
  let ?P = "\<lambda>r. token_hash r = h \<and> password_hash r = e \<and> consumable now lease r"
  let ?u = "update_where now ?P (\<lambda>r. r\<lparr>dr_status := Consuming, consuming_started_at := Some now,
    consuming_lease_id := Some l\<rparr>) rows"
  have "first_row (snd ?u) = Some item"
    using assms by (simp add: BeginConsume_def case_prod_beta Let_def)
  then have "item \<in> set (snd ?u)" by (rule first_row_in)
  moreover have "set (snd ?u) \<subseteq> set (fst ?u)" by (auto simp: update_where_rows update_where_written)
  moreover have "r \<in> set (snd ?u) \<Longrightarrow> dr_status r = Consuming" for r by (auto simp: update_where_written)
  ultimately show ?thesis by (auto simp: BeginConsume_def case_prod_beta Let_def)
qed

lemma Complete_row:
  assumes "snd (CompleteConsume now i l rows)"
  shows "\<exists>r \<in> set rows. held_by i l r \<and>
    (\<exists>r' \<in> set (fst (CompleteConsume now i l rows)). dr_id r' = i \<and> dr_status r' = Consumed \<and>
       token_hash r' = token_hash r \<and> password_hash r' = password_hash r)"
proof -
  from assms have "length (filter (held_by i l) rows) = 1"
    by (simp add: CompleteConsume_def update_where_def Let_def)
  then obtain r where "r \<in> set rows" "held_by i l r"
    by (metis One_nat_def filter_False length_greater_0_conv less_numeral_extra(1) list.size(3))
  let ?r = "(clear_lease (r\<lparr>dr_status := Consumed, consumed_at := Some now, encrypted_payload := []\<rparr>))
    \<lparr>updated_at := now\<rparr>"
  have "?r \<in> set (fst (CompleteConsume now i l rows))"
    using \<open>r \<in> set rows\<close> \<open>held_by i l r\<close>
    by (auto simp: CompleteConsume_def case_prod_beta Let_def update_where_rows)
  moreover have "dr_id ?r = i" "dr_status ?r = Consumed" "token_hash ?r = token_hash r"
    "password_hash ?r = password_hash r"
    using \<open>held_by i l r\<close> by (simp_all add: clear_lease_def held_by_def)
  ultimately show ?thesis using \<open>r \<in> set rows\<close> \<open>held_by i l r\<close> by blast
qed

lemma svc_inv_call:
  "svc_inv env s \<Longrightarrow> i < length (ds_calls s) \<Longrightarrow>
     call_ok env (ds_rows s) (ds_leases s) (ds_created s) (ds_calls s ! i)"
  by (simp add: svc_inv_def)

lemma svc_inv_table: "svc_inv env s \<Longrightarrow> table_ok (ds_rows s)"
  by (simp add: svc_inv_def rows_inv_def)

text \<open>A step that gives up, or only restores or records a failure.\<close>

lemma svc_inv_giveup:
  assumes "svc_inv env s" and "i < length (ds_calls s)" and "quiet L (ds_rows s) rows'"
    and "\<forall>l \<in> L. pc_lease (cc_pc (ds_calls s ! i)) = Some l"
    and "pc_lease pc = None" and "\<And>k a. pc \<noteq> Released k a" and "ds_leases s \<subseteq> leases'"
  shows "svc_inv env (s\<lparr>ds_rows := rows', ds_calls := set_pc i pc (ds_calls s), ds_leases := leases',
    ds_audit := events\<rparr>)"
  by (rule svc_inv_move [OF assms(1-4,7) call_ok_trivial]) (use assms(5,6) in auto)

lemma inv_lookup:
  assumes inv: "svc_inv env s" and i: "i < length (ds_calls s)" and pc: "cc_pc (ds_calls s ! i) = Arrived"
    and fresh: "\<And>l. co_lease w = Some l \<Longrightarrow> l \<notin> ds_leases s"
    and step: "consume_step env w (ds_calls s ! i) (ds_rows s) = (rows', pc', events)"
  shows "svc_inv env (s\<lparr>ds_rows := rows', ds_calls := set_pc i pc' (ds_calls s),
    ds_leases := set_option (co_lease w) \<union> ds_leases s, ds_audit := ds_audit s @ events\<rparr>)"
proof -
  let ?c = "ds_calls s ! i" and ?leases = "set_option (co_lease w) \<union> ds_leases s"
  have q: "quiet {} (ds_rows s) (ds_rows s)" using svc_inv_table [OF inv] by simp
  have rows: "rows' = ds_rows s" and look: "consume_lookup env w (cc_token ?c) (cc_password ?c) (ds_rows s) = pc'"
    using step by (auto simp: consume_step_def pc)
  from lookup_forms [OF look] consider
    "pc_lease pc' = None" "\<forall>k a. pc' \<noteq> Released k a"
    | h e l where "pc' = WantBegin h e l" "token_hmac env (cc_token ?c) = Some h" "co_lease w = Some l"
      "\<forall>stored. e = Some stored \<longrightarrow> VerifyPassword (IDKey env) (cc_password ?c) stored = Some True"
    by (elim disjE exE conjE) metis+
  then show ?thesis
  proof cases
    case 1
    show ?thesis unfolding rows by (rule svc_inv_giveup [OF inv i q]) (use 1 in auto)
  next
    case 2
    have unheld: "\<forall>r \<in> set (ds_rows s). consuming_lease_id r \<noteq> Some l"
      using inv fresh [OF 2(3)] by (auto simp: svc_inv_def rows_inv_def)
    show ?thesis
      unfolding rows
    proof (rule svc_inv_move [OF inv i q])
      show "call_ok env (ds_rows s) ?leases (ds_created s) (?c\<lparr>cc_pc := pc'\<rparr>)"
        using 2 unheld by (auto simp: call_ok_def pc_lease_def pw_ok_def split: option.split)
    qed (use 2 fresh [OF 2(3)] in \<open>auto simp: pc_lease_def\<close>)
  qed
qed

lemma db_call_cases:
  assumes "db_call reply result rows = (rows', answer)"
  shows "(rows' = rows \<or> rows' = fst result) \<and> (answer = None \<or> rows' = fst result \<and> answer = Some (snd result))"
  using assms by (auto simp: db_call_def split: db_reply.splits)

lemma inv_failure:
  assumes inv: "svc_inv env s" and i: "i < length (ds_calls s)" and pc: "cc_pc (ds_calls s ! i) = WantFailure h e"
    and step: "consume_step env w (ds_calls s ! i) (ds_rows s) = (rows', pc', events)"
  shows "svc_inv env (s\<lparr>ds_rows := rows', ds_calls := set_pc i pc' (ds_calls s),
    ds_leases := set_option (co_lease w) \<union> ds_leases s, ds_audit := ds_audit s @ events\<rparr>)"
proof -
  have ok: "table_ok (ds_rows s)" by (rule svc_inv_table [OF inv])
  from step pc obtain answer where
    db: "db_call (co_reply w) (RecordPasswordFailure (co_now w) (ConsumingLeaseTTL env) h e (ds_rows s)) (ds_rows s)
      = (rows', answer)" and "\<exists>err. pc' = Refused err"
    by (auto simp: consume_step_def consume_failure_def split: prod.splits option.splits)
  moreover have "quiet {} (ds_rows s) rows'"
    by (rule quiet_db_call [OF ok quiet_ops(2) [OF ok] db])
  ultimately show ?thesis
    by (intro svc_inv_giveup [OF inv i, of "{}"]) (auto simp: pc_lease_def)
qed

lemma inv_begin:
  assumes inv: "svc_inv env s" and i: "i < length (ds_calls s)" and pc: "cc_pc (ds_calls s ! i) = WantBegin h e l"
    and step: "consume_step env w (ds_calls s ! i) (ds_rows s) = (rows', pc', events)"
  shows "svc_inv env (s\<lparr>ds_rows := rows', ds_calls := set_pc i pc' (ds_calls s),
    ds_leases := set_option (co_lease w) \<union> ds_leases s, ds_audit := ds_audit s @ events\<rparr>)"
proof -
  let ?c = "ds_calls s ! i" and ?leases = "set_option (co_lease w) \<union> ds_leases s"
  let ?started = "BeginConsume (co_now w) (ConsumingLeaseTTL env) h e l (ds_rows s)"
  have ok: "table_ok (ds_rows s)" by (rule svc_inv_table [OF inv])
  from step pc obtain answer where db: "db_call (co_reply w) ?started (ds_rows s) = (rows', answer)"
    and forms: "(\<exists>err. pc' = Refused err) \<or>
      (\<exists>item. answer = Some (Some item) \<and> pc' = WantDecrypt (dr_id item) l (encrypted_payload item))"
    by (auto simp: consume_step_def consume_begin_def split: prod.splits option.splits)
  have q: "quiet {l} (ds_rows s) rows'" by (rule quiet_db_call [OF ok quiet_ops(1) [OF ok] db])
  have L: "\<forall>l' \<in> {l}. pc_lease (cc_pc ?c) = Some l'" by (simp add: pc pc_lease_def)
  have c_ok: "call_ok env (ds_rows s) (ds_leases s) (ds_created s) ?c" by (rule svc_inv_call [OF inv i])
  from forms show ?thesis
  proof
    assume "\<exists>err. pc' = Refused err"
    then show ?thesis by (intro svc_inv_giveup [OF inv i q L]) (auto simp: pc_lease_def)
  next
    assume "\<exists>item. answer = Some (Some item) \<and> pc' = WantDecrypt (dr_id item) l (encrypted_payload item)"
    then obtain item where answer: "answer = Some (Some item)"
      and pc': "pc' = WantDecrypt (dr_id item) l (encrypted_payload item)" by blast
    with db_call_cases [OF db] have rows: "rows' = fst ?started" and item: "snd ?started = Some item" by auto
    have "holder env rows' ?c (dr_id item) l"
      using Begin_lease [of _ "co_now w" "ConsumingLeaseTTL env" h e l "ds_rows s"] c_ok
      by (auto simp: rows holder_def row_for_def call_ok_def pc)
    moreover have "rows_inv env rows' (ds_leases s) (ds_created s)"
      using inv rows_inv_quiet [OF _ q, of env "ds_leases s" "ds_created s"] call_lease_known [OF c_ok, of l]
      by (auto simp: svc_inv_def pc pc_lease_def)
    then have "content env (ds_created s) (dr_id item) (encrypted_payload item)"
      using Begin_item [OF item] by (auto simp: rows_inv_def rows row_closed_def)
    ultimately show ?thesis
      using call_lease_known [OF c_ok, of l]
      by (intro svc_inv_move [OF inv i q L]) (auto simp: pc' pc call_ok_def pc_lease_def)
  qed
qed

lemma inv_decrypt:
  assumes inv: "svc_inv env s" and i: "i < length (ds_calls s)" and pc: "cc_pc (ds_calls s ! i) = WantDecrypt k l ct"
    and step: "consume_step env w (ds_calls s ! i) (ds_rows s) = (rows', pc', events)"
  shows "svc_inv env (s\<lparr>ds_rows := rows', ds_calls := set_pc i pc' (ds_calls s),
    ds_leases := set_option (co_lease w) \<union> ds_leases s, ds_audit := ds_audit s @ events\<rparr>)"
proof -
  have q: "quiet {} (ds_rows s) (ds_rows s)" using svc_inv_table [OF inv] by simp
  have c_ok: "call_ok env (ds_rows s) (ds_leases s) (ds_created s) (ds_calls s ! i)" by (rule svc_inv_call [OF inv i])
  have rows: "rows' = ds_rows s" using step by (simp add: consume_step_def pc)
  have "pc' = WantRestore k l \<or> (\<exists>plain. pc' = WantComplete k l plain \<and> vault_open env ct = Some plain)"
    using step by (auto simp: consume_step_def pc consume_decrypt_def split: option.splits if_splits)
  then have "call_ok env (ds_rows s) (set_option (co_lease w) \<union> ds_leases s) (ds_created s)
      ((ds_calls s ! i)\<lparr>cc_pc := pc'\<rparr>) \<and> pc_lease pc' = Some l \<and> (\<forall>k a. pc' \<noteq> Released k a)"
    using c_ok by (auto simp: call_ok_def pc pc_lease_def content_def)
  then show ?thesis
    unfolding rows by (intro svc_inv_move [OF inv i q]) (auto simp: pc pc_lease_def)
qed

lemma inv_restore:
  assumes inv: "svc_inv env s" and i: "i < length (ds_calls s)" and pc: "cc_pc (ds_calls s ! i) = WantRestore k l"
    and step: "consume_step env w (ds_calls s ! i) (ds_rows s) = (rows', pc', events)"
  shows "svc_inv env (s\<lparr>ds_rows := rows', ds_calls := set_pc i pc' (ds_calls s),
    ds_leases := set_option (co_lease w) \<union> ds_leases s, ds_audit := ds_audit s @ events\<rparr>)"
proof -
  have ok: "table_ok (ds_rows s)" by (rule svc_inv_table [OF inv])
  obtain answer where
    db: "db_call (co_reply w) (RestoreConsume (co_now w) k l (ds_rows s), ()) (ds_rows s) = (rows', answer)"
    using step by (cases "db_call (co_reply w) (RestoreConsume (co_now w) k l (ds_rows s), ()) (ds_rows s)")
      (auto simp: consume_step_def pc consume_restore_def)
  have q: "quiet {} (ds_rows s) rows'"
    by (rule quiet_db_call [OF ok _ db]) (simp add: quiet_ops [OF ok])
  have "\<exists>err. pc' = Refused err" using step by (auto simp: consume_step_def pc consume_restore_def)
  then show ?thesis by (intro svc_inv_giveup [OF inv i q]) (auto simp: pc_lease_def)
qed

lemma inv_complete:
  assumes inv: "svc_inv env s" and i: "i < length (ds_calls s)"
    and pc: "cc_pc (ds_calls s ! i) = WantComplete k l plain"
    and step: "consume_step env w (ds_calls s ! i) (ds_rows s) = (rows', pc', events)"
  shows "svc_inv env (s\<lparr>ds_rows := rows', ds_calls := set_pc i pc' (ds_calls s),
    ds_leases := set_option (co_lease w) \<union> ds_leases s, ds_audit := ds_audit s @ events\<rparr>)"
proof -
  let ?c = "ds_calls s ! i" and ?leases = "set_option (co_lease w) \<union> ds_leases s"
  let ?complete = "CompleteConsume (co_now w) k l (ds_rows s)"
  have ok: "table_ok (ds_rows s)" by (rule svc_inv_table [OF inv])
  from step pc obtain answer where db: "db_call (co_reply w) ?complete (ds_rows s) = (rows', answer)"
    and forms: "(\<exists>err. pc' = Refused err) \<or> answer = Some True \<and> pc' = response_of k plain"
    by (auto simp: consume_step_def consume_complete_def split: prod.splits option.splits bool.splits)
  have q: "quiet {} (ds_rows s) rows'" by (rule quiet_db_call [OF ok quiet_ops(5) [OF ok] db])
  have c_ok: "call_ok env (ds_rows s) (ds_leases s) (ds_created s) ?c" by (rule svc_inv_call [OF inv i])
  consider err where "pc' = Refused err"
    | v resp where "answer = Some True" "pc' = Released k resp" "plain = JsonText v"
      "normalizeConsumedPayload v = Some (rs_payload resp, rs_secret resp)"
    using forms by (auto simp: response_of_def split: plaintext.splits option.splits)
  then show ?thesis
  proof cases
    case 1
    then show ?thesis by (intro svc_inv_giveup [OF inv i q]) (auto simp: pc_lease_def)
  next
    case 2
    with db_call_cases [OF db] have rows: "rows' = fst ?complete" and "snd ?complete" by auto
    from Complete_row [OF this(2)] obtain r r' where r: "r \<in> set (ds_rows s)" "held_by k l r"
      and r': "r' \<in> set rows'" "dr_id r' = k" "dr_status r' = Consumed" "token_hash r' = token_hash r"
        "password_hash r' = password_hash r"
      unfolding rows by blast
    have "row_for env ?c r" using c_ok r by (auto simp: call_ok_def pc holder_def held_by_def)
    with r' have "\<exists>r \<in> set rows'. dr_id r = k \<and> dr_status r = Consumed \<and> row_for env ?c r"
      by (auto simp: row_for_def)
    moreover have "(k, v) \<in> set (ds_created s)" using c_ok 2(3) by (auto simp: call_ok_def pc)
    ultimately have new: "call_ok env rows' ?leases (ds_created s) (?c\<lparr>cc_pc := pc'\<rparr>)"
      using 2 by (auto simp: call_ok_def pc_lease_def delivered_def)
    have "cc_pc (ds_calls s ! j) \<noteq> Released k b" if j: "j < length (ds_calls s)" for j b
    proof
      assume "cc_pc (ds_calls s ! j) = Released k b"
      with svc_inv_call [OF inv j] obtain r2 where "r2 \<in> set (ds_rows s)" "dr_id r2 = k" "dr_status r2 = Consumed"
        by (auto simp: call_ok_def delivered_def)
      with table_row_unique [OF ok this(1) r(1)] r(2) show False by (simp add: held_by_def)
    qed
    then show ?thesis
      using new by (intro svc_inv_move [OF inv i q]) (auto simp: 2(2) pc_lease_def)
  qed
qed

section \<open>Creation\<close>

lemma create_params_ciphertext:
  "create_params env w actorID req = Inr (p, token) \<Longrightarrow> no_ciphertext w = Some (ip_encrypted_payload p)"
  by (auto simp: create_params_def split: if_splits option.splits sum.splits prod.splits)

lemma Create_rows:
  assumes "Create env w actorID req rows = (rows', result, events)"
  shows "rows' = rows \<or> (\<exists>p. Insert (no_now w) p rows = Some rows' \<and> no_ciphertext w = Some (ip_encrypted_payload p))"
proof (cases "create_params env w actorID req")
  case (Inr pt)
  obtain p token where pt: "pt = (p, token)" by (cases pt)
  obtain answer where "db_call (no_reply w) (insert_row (no_now w) p rows) rows = (rows', answer)"
    using assms Inr pt by (auto simp: Create_def split: prod.splits option.splits bool.splits)
  from db_call_cases [OF this] have "rows' = rows \<or> Insert (no_now w) p rows = Some rows'"
    by (auto simp: insert_row_def split: option.splits)
  with create_params_ciphertext [of env w actorID req p token] Inr pt show ?thesis by auto
qed (use assms in \<open>auto simp: Create_def\<close>)

lemma newly_created_simps [simp]:
  "newly_created rows rows payload = []"
  "newly_created rows (rows @ [r]) payload = [(dr_id r, payload)]"
  by (simp_all add: newly_created_def)

lemma inv_create:
  assumes inv: "svc_inv env s" and vault: "\<And>c. no_ciphertext w = Some c \<Longrightarrow> vault_open env c = Some (JsonText payload)"
    and create: "Create env w actorID req (ds_rows s) = (rows', result, events)"
  shows "svc_inv env (s\<lparr>ds_rows := rows',
    ds_created := ds_created s @ newly_created (ds_rows s) rows' payload, ds_audit := ds_audit s @ events\<rparr>)"
  using Create_rows [OF create]
proof
  assume "rows' = ds_rows s"
  with inv show ?thesis by (simp add: svc_inv_def)
next
  assume "\<exists>p. Insert (no_now w) p (ds_rows s) = Some rows' \<and> no_ciphertext w = Some (ip_encrypted_payload p)"
  then obtain p where ins: "Insert (no_now w) p (ds_rows s) = Some rows'"
    and "no_ciphertext w = Some (ip_encrypted_payload p)" by blast
  then have open_it: "vault_open env (ip_encrypted_payload p) = Some (JsonText payload)" using vault by blast
  let ?r = "new_row (no_now w) p"
  have rows: "rows' = ds_rows s @ [?r]" by (rule Insert_rows [OF ins])
  have new: "dr_id ?r = ip_id p" "encrypted_payload ?r = ip_encrypted_payload p" "consuming_lease_id ?r = None"
    by (simp_all add: new_row_def)
  have fresh: "ip_id p \<notin> dr_id ` set (ds_rows s)" using ins by (auto simp: Insert_def split: if_splits)
  have old: "rows_inv env (ds_rows s) (ds_leases s) (ds_created s)"
    and calls: "\<forall>c \<in> set (ds_calls s). call_ok env (ds_rows s) (ds_leases s) (ds_created s) c"
    using inv by (simp_all add: svc_inv_def)
  let ?created = "ds_created s @ [(ip_id p, payload)]"
  have sub: "set (ds_created s) \<subseteq> set ?created" by auto
  have "rows_inv env rows' (ds_leases s) ?created"
    unfolding rows_inv_def
  proof (intro conjI ballI allI impI)
    show "table_ok rows'" using Insert_ok [OF _ ins] old by (simp add: rows_inv_def)
    show "content env ?created (dr_id r) (encrypted_payload r)" if "r \<in> set rows'" "\<not> row_closed r" for r
    proof (cases "r = ?r")
      case True
      with open_it show ?thesis by (auto simp: content_def new)
    next
      case False
      with that old show ?thesis by (auto simp: rows rows_inv_def intro: content_mono [OF _ sub])
    qed
    show "distinct (map fst ?created)" using old fresh by (auto simp: rows_inv_def)
  qed (use old in \<open>auto simp: rows rows_inv_def new\<close>)
  moreover have "table_evolves (ds_rows s) rows'" by (rule store_event_evolves) (rule store_insert [OF ins])
  then have "\<forall>c \<in> set (ds_calls s). call_ok env rows' (ds_leases s) ?created c"
    using calls call_ok_frame [OF _ frame_Insert [OF ins, of "{}"] _ _ subset_refl sub] by auto
  ultimately show ?thesis using inv by (simp add: svc_inv_def rows new)
qed

section \<open>Every step\<close>

lemma calls_apart_arrive:
  assumes "calls_apart calls" and "cc_pc c = Arrived"
  shows "calls_apart (calls @ [c])"
  unfolding calls_apart_def
proof (intro allI impI)
  fix i j assume ij: "i < length (calls @ [c])" "j < length (calls @ [c])" "i \<noteq> j"
  then consider "i < length calls" "j < length calls" | "i = length calls" | "j = length calls" by fastforce
  then show "(\<forall>l. pc_lease (cc_pc ((calls @ [c]) ! i)) = Some l \<longrightarrow> pc_lease (cc_pc ((calls @ [c]) ! j)) \<noteq> Some l) \<and>
      (\<forall>k a b. cc_pc ((calls @ [c]) ! i) = Released k a \<longrightarrow> cc_pc ((calls @ [c]) ! j) \<noteq> Released k b)"
  proof cases
    case 1
    with assms(1) ij(3) show ?thesis by (simp add: calls_apart_def nth_append)
  qed (simp_all add: assms(2) pc_lease_def)
qed

lemma svc_inv_arrive:
  assumes "svc_inv env s"
  shows "svc_inv env (s\<lparr>ds_calls := ds_calls s @ [\<lparr>cc_token = t, cc_password = p, cc_pc = Arrived\<rparr>]\<rparr>)"
  using assms calls_apart_arrive [of "ds_calls s" "\<lparr>cc_token = t, cc_password = p, cc_pc = Arrived\<rparr>"]
  by (simp add: svc_inv_def call_ok_def pc_lease_def)

text \<open>A call that has ended does not move.\<close>

lemma set_pc_same: "cc_pc (calls ! i) = pc \<Longrightarrow> set_pc i pc calls = calls"
proof -
  assume "cc_pc (calls ! i) = pc"
  then have "(calls ! i)\<lparr>cc_pc := pc\<rparr> = calls ! i" by simp
  then show ?thesis by (simp add: set_pc_def)
qed

lemma svc_inv_leases:
  assumes "svc_inv env s" and "ds_leases s \<subseteq> leases'"
  shows "svc_inv env (s\<lparr>ds_leases := leases', ds_audit := a\<rparr>)"
proof -
  have "quiet {} (ds_rows s) (ds_rows s)" using svc_inv_table [OF assms(1)] by simp
  from rows_inv_quiet [OF _ this _ assms(2)] call_ok_quiet [OF _ this _ assms(2)] assms(1)
  show ?thesis by (auto simp: svc_inv_def)
qed

lemma svc_inv_audit: "svc_inv env (s\<lparr>ds_audit := a\<rparr>) = svc_inv env s"
  by (simp add: svc_inv_def)

lemma quiet_admin:
  assumes "table_ok rows"
  shows "RevokeLink reply now link actorID rows = (rows', result, events) \<Longrightarrow> quiet {} rows rows'"
    and "SetPasswordProtection env reply now salt link password actorID rows = (rows', result', events) \<Longrightarrow> quiet {} rows rows'"
    and "RemovePasswordProtection reply now link actorID rows = (rows', result', events) \<Longrightarrow> quiet {} rows rows'"
  using quiet_db_call [OF assms quiet_ops(6) [OF assms]] quiet_db_call [OF assms quiet_ops(3) [OF assms]] assms
  by (auto simp: RevokeLink_def SetPasswordProtection_def RemovePasswordProtection_def
      split: prod.splits option.splits if_splits)

lemma svc_step_inv: "svc_step env s s' \<Longrightarrow> svc_inv env s \<Longrightarrow> svc_inv env s'"
proof (induction rule: svc_step.induct)
  case (svc_create req payload summary w actorID s rows' result events)
  then show ?case by (intro inv_create) auto
next
  case (svc_arrive s token password)
  then show ?case by (rule svc_inv_arrive)
next
  case (svc_consume i s w rows' pc events)
  note inv = svc_consume(4) and i = svc_consume(1) and fresh = svc_consume(2) and step = svc_consume(3)
  show ?case
  proof (cases "cc_pc (ds_calls s ! i)")
    case Arrived show ?thesis by (rule inv_lookup [OF inv i Arrived fresh step])
  next
    case (WantFailure h e) show ?thesis by (rule inv_failure [OF inv i WantFailure step])
  next
    case (WantBegin h e l) show ?thesis by (rule inv_begin [OF inv i WantBegin step])
  next
    case (WantDecrypt k l ct) show ?thesis by (rule inv_decrypt [OF inv i WantDecrypt step])
  next
    case (WantRestore k l) show ?thesis by (rule inv_restore [OF inv i WantRestore step])
  next
    case (WantComplete k l plain) show ?thesis by (rule inv_complete [OF inv i WantComplete step])
  next
    case (Released k resp)
    with step have ended: "rows' = ds_rows s" "cc_pc (ds_calls s ! i) = pc" by (simp_all add: consume_step_def)
    show ?thesis using svc_inv_leases [OF inv] by (simp add: ended(1) set_pc_same [OF ended(2)])
  next
    case (Refused err)
    with step have ended: "rows' = ds_rows s" "cc_pc (ds_calls s ! i) = pc" by (simp_all add: consume_step_def)
    show ?thesis using svc_inv_leases [OF inv] by (simp add: ended(1) set_pc_same [OF ended(2)])
  next
    case Abandoned
    with step have ended: "rows' = ds_rows s" "cc_pc (ds_calls s ! i) = pc" by (simp_all add: consume_step_def)
    show ?thesis using svc_inv_leases [OF inv] by (simp add: ended(1) set_pc_same [OF ended(2)])
  qed
next
  case (svc_abandon i s)
  have "svc_inv env (s\<lparr>ds_rows := ds_rows s, ds_calls := set_pc i Abandoned (ds_calls s),
      ds_leases := ds_leases s, ds_audit := ds_audit s\<rparr>)"
    using svc_abandon by (intro svc_inv_giveup [of _ _ _ "{}"]) (auto simp: pc_lease_def svc_inv_table)
  then show ?case by simp
next
  case (svc_revoke reply now link actorID s rows' result events)
  then show ?case using quiet_admin(1) svc_inv_table by (intro svc_inv_quiet) blast+
next
  case (svc_protect reply now salt link password actorID s rows' result' events)
  then show ?case using quiet_admin(2) svc_inv_table by (intro svc_inv_quiet) blast+
next
  case (svc_unprotect reply now link actorID s rows' result' events)
  then show ?case using quiet_admin(3) svc_inv_table by (intro svc_inv_quiet) blast+
next
  case (svc_cleanup s now ret)
  have "svc_inv env (s\<lparr>ds_rows := fst (Cleanup now (ConsumingLeaseTTL env) ret (ds_rows s)), ds_audit := ds_audit s\<rparr>)"
    by (rule svc_inv_quiet [OF svc_cleanup]) (rule quiet_ops [OF svc_inv_table [OF svc_cleanup]])
  then show ?case by simp
next
  case (svc_audit_lost s)
  then show ?case by (simp add: svc_inv_audit)
qed

lemma svc_init_inv: "svc_inv env svc_init"
  by (simp add: svc_inv_def svc_init_def rows_inv_def table_ok_def calls_apart_def)

lemma svc_reachable_inv: "(svc_step env)\<^sup>*\<^sup>* svc_init s \<Longrightarrow> svc_inv env s"
  by (induction rule: rtranclp_induct) (auto intro: svc_step_inv svc_init_inv)

section \<open>One-time delivery\<close>

text \<open>What is stored is a canonical payload, which comes back as it is.\<close>

definition canonical :: "json \<Rightarrow> bool" where
  "canonical v \<longleftrightarrow> (\<exists>legacy. normalizeConsumedPayload v = Some (v, legacy))"

lemma marshalPayload_canonical:
  assumes "marshalPayload p = Some (v, summary)" and "payload_valid p"
  shows "canonical v"
proof -
  from assms(1) obtain n where n: "normalizePayload p = Some (n, summary)" and v: "v = marshal_payload_json n"
    by (auto simp: marshalPayload_def)
  from normalizePayload_valid [OF n assms(2)] have valid: "payload_valid n" "go_valid (sp_type n)" by auto
  obtain summary' where "normalizePayload n = Some (n, summary')" using normalizePayload_idem [OF n] by blast
  moreover obtain legacy where "legacyProjection n = Some legacy" using legacyProjection_normal [OF n] by blast
  ultimately have "normalizeConsumedPayload v = Some (v, legacy)"
    using decode_marshal_payload [OF valid] by (simp add: normalizeConsumedPayload_def v)
  then show ?thesis by (auto simp: canonical_def)
qed

lemma legacyPayload_valid: "payload_valid (legacyPayload v)"
  by (simp add: legacyPayload_def payload_valid_def zero_payload_def split: json.split)

lemma canonicalPayload_canonical:
  assumes "canonicalPayload req = Some (v, summary)"
    and "\<And>p. cr_payload req = Some p \<Longrightarrow> \<exists>body. decode_payload True body = Some p"
  shows "canonical v"
  using assms marshalPayload_canonical legacyPayload_valid decode_payload_valid
  by (auto simp: canonicalPayload_def split: option.splits if_splits)

lemma created_canonical:
  "(svc_step env)\<^sup>*\<^sup>* svc_init s \<Longrightarrow> (k, v) \<in> set (ds_created s) \<Longrightarrow> canonical v"
proof (induction arbitrary: k v rule: rtranclp_induct)
  case (step s s')
  from step.hyps(2) step.IH step.prems show ?case
    by (cases rule: svc_step.cases) (auto simp: newly_created_def dest: canonicalPayload_canonical)
qed (simp add: svc_init_def)

section \<open>A sample run\<close>

text \<open>A link is created and opened; the key derivation, the HMAC and Vault are stand-ins.\<close>

definition sample_content :: json where
  "sample_content = JObj [(js ''type'', JStr (js ''text'')), (js ''text'', JStr (js ''ok''))]"

definition sample_env :: service_env where
  "sample_env = \<lparr>TokenHMACPepper = [1], hmac_sha256 = (\<lambda>k m. take 32 (m @ replicate 32 0)),
     IDKey = sample_idkey, vault_open = (\<lambda>c. if c = [9] then Some (JsonText sample_content) else None),
     ConsumingLeaseTTL = 30, MaxSecretBytes = 32768, MaxSecretTTL = 604800000000000,
     DefaultSecretTTL = 86400000000000, AppBaseURL = ascii ''http://localhost:8080''\<rparr>"

definition sample_request :: create_request where
  "sample_request = \<lparr>cr_title = [], cr_description = [], cr_recipient_reference = [],
     cr_secret = Some (JStr (js ''ok'')), cr_payload = None, cr_expires_in_seconds = 0, cr_password = None,
     cr_max_failed_attempts = 0\<rparr>"

definition sample_create :: create_oracle where
  "sample_create = \<lparr>no_token = Some [0, 0, 0], no_ciphertext = Some [9], no_salt = None, no_time = 0,
     no_id = Some 7, no_reply = Answered, no_now = 0\<rparr>"

definition sample_token :: bytes where
  "sample_token = ascii ''AAAA''"

definition sample_row :: delivery_row where
  "sample_row = \<lparr>dr_id = 7, token_hash = sample_token @ replicate 28 0, encrypted_payload = [9], dr_title = None,
     dr_description = None, dr_recipient_reference = None, dr_status = Active, expires_at = 86400000000,
     consumed_at = None, revoked_at = None, consuming_started_at = None, consuming_lease_id = None,
     password_hash = None, failed_attempts = 0, max_failed_attempts = 5, created_by = [1],
     payload_type = ascii ''text'', payload_field_count = 0, payload_contains_sensitive = False,
     created_at = 0, updated_at = 0\<rparr>"

definition sample_world :: consume_oracle where
  "sample_world = \<lparr>co_now = 5, co_reply = Answered, co_lease = None, co_vault_up = True\<rparr>"

definition consume_next :: "service_env \<Rightarrow> consume_oracle \<Rightarrow> nat \<Rightarrow> delivery_system \<Rightarrow> delivery_system" where
  "consume_next env w i s =
     (case consume_step env w (ds_calls s ! i) (ds_rows s) of (rows', pc, events) \<Rightarrow>
        s\<lparr>ds_rows := rows', ds_calls := set_pc i pc (ds_calls s),
          ds_leases := set_option (co_lease w) \<union> ds_leases s, ds_audit := ds_audit s @ events\<rparr>)"

lemma svc_consume_next:
  assumes "i < length (ds_calls s)" and "\<And>l. co_lease w = Some l \<Longrightarrow> l \<notin> ds_leases s"
  shows "svc_step env s (consume_next env w i s)"
proof -
  obtain rows' pc events where "consume_step env w (ds_calls s ! i) (ds_rows s) = (rows', pc, events)"
    by (cases "consume_step env w (ds_calls s ! i) (ds_rows s)") auto
  from svc_consume [OF assms this] this show ?thesis by (simp add: consume_next_def)
qed

lemma sample_payload_eq: "canonicalPayload sample_request =
    Some (sample_content, \<lparr>ps_type = js ''text'', ps_field_count = 0, ps_contains_sensitive = False\<rparr>)"
proof -
  have "legacyPayload (JStr (js ''ok'')) = zero_payload\<lparr>sp_type := js ''text'', sp_text := js ''ok''\<rparr>"
    by (simp add: legacyPayload_def)
  then have "marshalPayload (legacyPayload (JStr (js ''ok''))) = Some (marshal_payload_json
      (zero_payload\<lparr>sp_type := js ''text'', sp_text := js ''ok''\<rparr>),
      \<lparr>ps_type = js ''text'', ps_field_count = 0, ps_contains_sensitive = False\<rparr>)"
    by (simp only: marshalPayload_def normalizePayload_simps option.map case_prod_conv)
  then show ?thesis
    by (simp add: canonicalPayload_def sample_request_def marshal_payload_json_def zero_payload_def
        sample_content_def)
qed

lemma sample_validate: "validateCreate sample_env sample_request (go_stringify sample_content) = None"
  by (simp add: validateCreate_def seconds_duration_def sample_env_def sample_request_def sample_content_def
      join_def text_literals js_append)

lemma sample_token_eq: "GenerateToken (Some [0, 0, 0]) = Some sample_token"
  by (simp add: GenerateToken_def sample_token_def Let_def sextet_def URLAlphabet_def ascii_def)

lemma sample_type: "utf8_bytes (js ''text'') = ascii ''text''"
  by (simp add: js_def utf8_unit_def is_high_def is_low_def ascii_def)

definition sample_response :: create_response where
  "sample_response = \<lparr>cs_id = 7, cs_url = ascii ''http://localhost:8080'' @ ascii ''/s#'' @ sample_token,
     cs_expires_at = 86400000000000\<rparr>"

lemma sample_created: "Create sample_env sample_create [1] sample_request [] =
    ([sample_row], Inr sample_response, [audit 7 [1] ''secret.created'' ''success''])"
proof -
  have h: "token_hmac sample_env sample_token = Some (sample_token @ replicate 28 0)"
    by (simp add: token_hmac_def TokenHMAC_def sample_env_def sample_token_def ascii_def)
  have "create_params sample_env sample_create [1] sample_request = Inr (\<lparr>ip_id = 7,
      ip_token_hash = sample_token @ replicate 28 0, ip_encrypted_payload = [9], ip_title = [],
      ip_description = [], ip_recipient_reference = [], ip_expires_at = 86400000000, ip_password_hash = None,
      ip_max_failed_attempts = 5, ip_created_by = [1], ip_payload_type = ascii ''text'',
      ip_payload_field_count = 0, ip_contains_sensitive = False\<rparr>, sample_token)"
    by (simp add: create_params_def sample_payload_eq sample_validate sample_create_def sample_token_eq h)
      (simp add: sample_request_def TrimSpace_def link_password_hash_def ttl_def sample_env_def sample_type)
  then show ?thesis
    by (simp add: Create_def sample_create_def db_call_def insert_row_def Insert_def sample_token_def
        payload_types_def new_row_def emptyToNil_def sample_row_def sample_response_def)
      (simp add: sample_env_def sample_request_def ttl_def)
qed

text \<open>The run: create, arrive, and the four statements of the call.\<close>

definition sample_arrived :: delivery_system where
  "sample_arrived = \<lparr>ds_rows = [sample_row],
     ds_calls = [\<lparr>cc_token = sample_token, cc_password = [], cc_pc = Arrived\<rparr>], ds_leases = {},
     ds_created = [(7, sample_content)], ds_audit = [audit 7 [1] ''secret.created'' ''success'']\<rparr>"

definition sample_released :: delivery_system where
  "sample_released =
     (let w = sample_world; e = sample_env
      in consume_next e w 0 (consume_next e w 0 (consume_next e w 0
           (consume_next e (w\<lparr>co_lease := Some 1\<rparr>) 0 sample_arrived))))"

lemma sample_arrived_reachable: "(svc_step sample_env)\<^sup>*\<^sup>* svc_init sample_arrived"
proof -
  let ?s = "svc_init\<lparr>ds_rows := [sample_row], ds_created := [(7, sample_content)],
    ds_audit := [audit 7 [1] ''secret.created'' ''success'']\<rparr>"
  have created: "Create sample_env sample_create [1] sample_request (ds_rows svc_init) =
      ([sample_row], Inr sample_response, [audit 7 [1] ''secret.created'' ''success''])"
    using sample_created by (simp add: svc_init_def)
  have "svc_step sample_env svc_init (svc_init\<lparr>ds_rows := [sample_row],
      ds_created := ds_created svc_init @ newly_created (ds_rows svc_init) [sample_row] sample_content,
      ds_audit := ds_audit svc_init @ [audit 7 [1] ''secret.created'' ''success'']\<rparr>)"
    by (rule svc_create [OF _ sample_payload_eq _ created])
      (auto simp: sample_request_def sample_create_def sample_env_def)
  then have "svc_step sample_env svc_init ?s"
    by (simp add: svc_init_def newly_created_def sample_row_def)
  moreover have "svc_step sample_env ?s sample_arrived"
    using svc_arrive [of sample_env ?s sample_token "[]"] by (simp add: svc_init_def sample_arrived_def)
  ultimately show ?thesis by (meson converse_rtranclp_into_rtranclp r_into_rtranclp)
qed

lemma sample_released_reachable: "(svc_step sample_env)\<^sup>*\<^sup>* svc_init sample_released"
proof -
  have go: "(svc_step sample_env)\<^sup>*\<^sup>* svc_init (consume_next sample_env w 0 s)"
    if "(svc_step sample_env)\<^sup>*\<^sup>* svc_init s" "0 < length (ds_calls s)"
      "\<And>l. co_lease w = Some l \<Longrightarrow> l \<notin> ds_leases s" for w s
    using that svc_consume_next [of 0 s w sample_env] by (auto intro: rtranclp.rtrancl_into_rtrancl)
  have len: "length (ds_calls (consume_next e w 0 s)) = length (ds_calls s)" for e w s
    by (simp add: consume_next_def split: prod.split)
  show ?thesis
    unfolding sample_released_def Let_def
    by (intro go sample_arrived_reachable) (simp_all add: len sample_arrived_def sample_world_def)
qed

lemma sample_released_pc:
  "ds_calls sample_released = [\<lparr>cc_token = sample_token, cc_password = [],
     cc_pc = Released 7 \<lparr>rs_secret = JStr (js ''ok''), rs_payload = sample_content\<rparr>\<rparr>]"
  by code_simp


text \<open>C2: A secret is delivered at most once: whatever the interleaving of the calls, of any number of server
  processes, with failures, lost answers and crashes anywhere, no two calls release the content of the
  same link, and the row of a released link is consumed and its ciphertext gone.\<close>

theorem released_once:
  assumes "(svc_step env)\<^sup>*\<^sup>* svc_init s" and "i < length (ds_calls s)" and "j < length (ds_calls s)"
    and "cc_pc (ds_calls s ! i) = Released k a" and "cc_pc (ds_calls s ! j) = Released k b"
  shows "i = j \<and> (\<exists>r \<in> set (ds_rows s). dr_id r = k \<and> dr_status r = Consumed \<and> encrypted_payload r = [])"
proof -
  have inv: "svc_inv env s" by (rule svc_reachable_inv [OF assms(1)])
  then have "i = j" using assms(2-5) unfolding svc_inv_def calls_apart_def by blast
  moreover from svc_inv_call [OF inv assms(2)] assms(4)
  obtain r where "r \<in> set (ds_rows s)" "dr_id r = k" "dr_status r = Consumed"
    by (auto simp: call_ok_def delivered_def)
  moreover from this svc_inv_table [OF inv] have "encrypted_payload r = []"
    by (simp add: table_ok_def row_ok_def)
  ultimately show ?thesis by blast
qed

theorem released_once_witness:
  "\<exists>r \<in> set (ds_rows sample_released). dr_id r = 7 \<and> encrypted_payload r = []"
  using released_once [OF sample_released_reachable, of 0 0 7] by (auto simp: sample_released_pc)

text \<open>C3: Only a caller who presented the token of the link and, when the link has a password, that password,
  gets the content: the row of a released link carries the HMAC of the caller's token, and its password
  hash, also after every change of the password, accepts what the caller sent.\<close>

theorem released_to_holder:
  assumes "(svc_step env)\<^sup>*\<^sup>* svc_init s" and "i < length (ds_calls s)"
    and "cc_pc (ds_calls s ! i) = Released k resp"
  shows "\<exists>r \<in> set (ds_rows s). dr_id r = k \<and> token_hmac env (cc_token (ds_calls s ! i)) = Some (token_hash r) \<and>
    (\<forall>stored. password_hash r = Some stored \<longrightarrow>
       VerifyPassword (IDKey env) (cc_password (ds_calls s ! i)) stored = Some True)"
  using svc_inv_call [OF svc_reachable_inv [OF assms(1)] assms(2)] assms(3)
  by (auto simp: call_ok_def delivered_def row_for_def pw_ok_def split: option.splits)

theorem released_to_holder_witness:
  "\<exists>r \<in> set (ds_rows sample_released). token_hmac sample_env sample_token = Some (token_hash r)"
  using released_to_holder [OF sample_released_reachable, of 0 7] by (auto simp: sample_released_pc)

text \<open>C4: What a recipient gets is what was stored when the link was created: the payload of the response is
  the canonical payload logged for that id, and no id was ever used twice.\<close>

theorem released_content:
  assumes "(svc_step env)\<^sup>*\<^sup>* svc_init s" and "i < length (ds_calls s)"
    and "cc_pc (ds_calls s ! i) = Released k resp"
  shows "map_of (ds_created s) k = Some (rs_payload resp)"
proof -
  have inv: "svc_inv env s" by (rule svc_reachable_inv [OF assms(1)])
  from svc_inv_call [OF inv assms(2)] assms(3) obtain v where v: "(k, v) \<in> set (ds_created s)"
    "normalizeConsumedPayload v = Some (rs_payload resp, rs_secret resp)"
    by (auto simp: call_ok_def delivered_def)
  have "rs_payload resp = v"
    using created_canonical [OF assms(1) v(1)] v(2) by (auto simp: canonical_def)
  moreover have "distinct (map fst (ds_created s))" using inv by (simp add: svc_inv_def rows_inv_def)
  ultimately show ?thesis using v(1) by (simp add: map_of_is_SomeI)
qed

theorem released_content_witness: "map_of (ds_created sample_released) 7 = Some sample_content"
  using released_content [OF sample_released_reachable, of 0 7] by (simp add: sample_released_pc)

end
