(* ===== verification/DeliveryRuns.thy ===== *)
theory DeliveryRuns
  imports DeliverySystem
begin

text \<open>
  What one call to the delivery service does: that it ends, what it answers and leaves in the table when
  nothing interferes, on the success path and on the error paths, and how the attempts of a link are
  counted; and what a creation makes of the requested life time.
\<close>

section \<open>A call ends\<close>

definition ended :: "consume_pc \<Rightarrow> bool" where
  "ended pc \<longleftrightarrow> (case pc of Refused _ \<Rightarrow> True | Released _ _ \<Rightarrow> True | Abandoned \<Rightarrow> True | _ \<Rightarrow> False)"

text \<open>The statements that are left; a call that was refused by Vault still has to restore the row.\<close>

definition steps_left :: "consume_pc \<Rightarrow> nat" where
  "steps_left pc = (case pc of Arrived \<Rightarrow> 4 | WantBegin _ _ _ \<Rightarrow> 3 | WantDecrypt _ _ _ \<Rightarrow> 2
     | WantFailure _ _ \<Rightarrow> 1 | WantRestore _ _ \<Rightarrow> 1 | WantComplete _ _ _ \<Rightarrow> 1 | _ \<Rightarrow> 0)"

text \<open>A call in any surroundings: at each of its steps anything may have happened to the table.\<close>

fun consume_trace :: "service_env \<Rightarrow> (consume_oracle \<times> delivery_table) list \<Rightarrow> consume_call \<Rightarrow> consume_call" where
  "consume_trace env [] c = c"
| "consume_trace env ((w, rows) # ws) c =
     consume_trace env ws (c\<lparr>cc_pc := fst (snd (consume_step env w c rows))\<rparr>)"

lemma steps_left_ended: "ended pc \<longleftrightarrow> steps_left pc = 0"
  by (cases pc) (simp_all add: ended_def steps_left_def)

lemma steps_left_step:
  "steps_left (fst (snd (consume_step env w c rows))) \<le> steps_left (cc_pc c) - 1"
  by (cases "cc_pc c")
    (auto simp: consume_step_def consume_lookup_def consume_failure_def consume_begin_def consume_decrypt_def
      consume_restore_def consume_complete_def response_of_def steps_left_def Let_def
      split: option.splits bool.splits prod.splits plaintext.splits)

lemma steps_left_trace: "steps_left (cc_pc (consume_trace env ws c)) \<le> steps_left (cc_pc c) - length ws"
proof (induction ws arbitrary: c)
  case (Cons x ws)
  obtain w rows where "x = (w, rows)" by (cases x)
  with Cons [of "c\<lparr>cc_pc := fst (snd (consume_step env w c rows))\<rparr>"] steps_left_step [of env w c rows]
  show ?case by simp
qed simp

text \<open>Every call to the consume operation ends after at most four steps, whatever the database, Vault and
  the other calls do in between.\<close>

lemma consume_terminates:
  assumes "4 \<le> length ws"
  shows "ended (cc_pc (consume_trace env ws \<lparr>cc_token = token, cc_password = password, cc_pc = Arrived\<rparr>))"
  using steps_left_trace [of env ws "\<lparr>cc_token = token, cc_password = password, cc_pc = Arrived\<rparr>"] assms
  by (simp add: steps_left_ended steps_left_def)

section \<open>A call alone\<close>

text \<open>The steps of a call with nothing in between, and the events it audits.\<close>

fun consume_run ::
  "service_env \<Rightarrow> consume_oracle list \<Rightarrow> consume_call \<Rightarrow> delivery_table \<Rightarrow>
   delivery_table \<times> consume_pc \<times> audit_event list" where
  "consume_run env [] c rows = (rows, cc_pc c, [])"
| "consume_run env (w # ws) c rows =
     (case consume_step env w c rows of
        (rows', pc, events) \<Rightarrow>
          (case consume_run env ws (c\<lparr>cc_pc := pc\<rparr>) rows' of
             (rows'', pc', events') \<Rightarrow> (rows'', pc', events @ events')))"

definition arrived :: "bytes \<Rightarrow> bytes \<Rightarrow> consume_call" where
  "arrived token password = \<lparr>cc_token = token, cc_password = password, cc_pc = Arrived\<rparr>"

lemma first_row_filter:
  assumes "r \<in> set rows" and "P r" and "\<And>x. x \<in> set rows \<Longrightarrow> P x \<Longrightarrow> x = r"
  shows "first_row (filter P rows) = Some r"
proof -
  have "r \<in> set (filter P rows)" using assms(1,2) by simp
  then obtain x xs where f: "filter P rows = x # xs" by (cases "filter P rows") auto
  then have "x \<in> set (filter P rows)" by simp
  then have "x = r" using assms(3) by simp
  with f show ?thesis by (simp add: first_row_def)
qed

lemma table_hash_unique:
  "table_ok rows \<Longrightarrow> r \<in> set rows \<Longrightarrow> s \<in> set rows \<Longrightarrow> token_hash r = token_hash s \<Longrightarrow> r = s"
  by (auto simp: table_ok_def distinct_map inj_on_def)

lemma update_where_first:
  assumes "r \<in> set rows" and "P r" and "\<And>x. x \<in> set rows \<Longrightarrow> P x \<Longrightarrow> x = r"
  shows "first_row (snd (update_where now P f rows)) = Some ((f r)\<lparr>updated_at := now\<rparr>)"
proof -
  have "first_row (map g xs) = map_option g (first_row xs)" for g :: "delivery_row \<Rightarrow> delivery_row" and xs
    by (simp add: first_row_def split: list.split)
  with first_row_filter [of r rows P, OF assms] show ?thesis by (simp add: update_where_def Let_def)
qed

text \<open>The one row with a token.\<close>

definition replace_row :: "uuid \<Rightarrow> delivery_row \<Rightarrow> delivery_table \<Rightarrow> delivery_table" where
  "replace_row i r rows = map (\<lambda>x. if dr_id x = i then r else x) rows"

lemma update_where_replace:
  assumes "table_ok rows" and "r \<in> set rows" and "P r" and "\<And>x. x \<in> set rows \<Longrightarrow> P x \<Longrightarrow> x = r"
  shows "fst (update_where now P f rows) = replace_row (dr_id r) ((f r)\<lparr>updated_at := now\<rparr>) rows"
proof -
  let ?g = "\<lambda>r. (f r)\<lparr>updated_at := now\<rparr>"
  have "(if P x then ?g x else x) = (if dr_id x = dr_id r then ?g r else x)" if x: "x \<in> set rows" for x
  proof (cases "dr_id x = dr_id r")
    case True
    then have "x = r" by (rule table_row_unique [OF assms(1) x assms(2)])
    then show ?thesis using assms(3) by simp
  next
    case False
    then have "\<not> P x" using assms(4) [OF x] by blast
    then show ?thesis using False by simp
  qed
  then show ?thesis by (simp add: update_where_def replace_row_def Let_def)
qed

lemma replace_row_twice: "dr_id s = i \<Longrightarrow> replace_row i t (replace_row i s rows) = replace_row i t rows"
  by (auto simp: replace_row_def)

lemma replace_row_in: "r \<in> set rows \<Longrightarrow> dr_id r = i \<Longrightarrow> s \<in> set (replace_row i s rows)"
  by (force simp: replace_row_def)

lemma filter_unique:
  assumes "table_ok rows" and "r \<in> set rows" and "P r" and "\<And>x. x \<in> set rows \<Longrightarrow> P x \<Longrightarrow> x = r"
  shows "filter P rows = [r]"
proof -
  have "distinct rows" using assms(1) by (auto simp: table_ok_def distinct_map)
  moreover from assms(2) obtain xs ys where rows: "rows = xs @ r # ys" by (auto simp: in_set_conv_decomp)
  ultimately have r: "r \<notin> set xs \<union> set ys" by auto
  have "\<not> P x" if x: "x \<in> set xs \<union> set ys" for x
  proof
    assume "P x"
    from x have "x \<in> set rows" by (auto simp: rows)
    from assms(4) [OF this \<open>P x\<close>] x r show False by simp
  qed
  then have "filter P xs = []" "filter P ys = []" by (simp_all add: filter_empty_conv)
  with assms(3) show ?thesis by (simp add: rows)
qed

lemma update_where_written_one:
  assumes "table_ok rows" and "r \<in> set rows" and "P r" and "\<And>x. x \<in> set rows \<Longrightarrow> P x \<Longrightarrow> x = r"
  shows "update_where now P f rows =
    (replace_row (dr_id r) ((f r)\<lparr>updated_at := now\<rparr>) rows, [(f r)\<lparr>updated_at := now\<rparr>])"
proof -
  have "snd (update_where now P f rows) = [(f r)\<lparr>updated_at := now\<rparr>]"
    by (simp add: update_where_def Let_def filter_unique [of rows r P, OF assms])
  with update_where_replace [of rows r P, OF assms] show ?thesis by (metis prod.collapse)
qed

lemma Find_row:
  assumes "table_ok rows" and "r \<in> set rows" and "consumable now lease r"
  shows "FindConsumeCandidate now lease (token_hash r) rows = Some r"
  unfolding FindConsumeCandidate_def
  by (rule first_row_filter) (use assms table_hash_unique [OF assms(1) _ assms(2)] in auto)

definition leased :: "int \<Rightarrow> uuid \<Rightarrow> delivery_row \<Rightarrow> delivery_row" where
  "leased now l r = r\<lparr>dr_status := Consuming, consuming_started_at := Some now, consuming_lease_id := Some l,
     updated_at := now\<rparr>"

lemma Begin_row:
  assumes "table_ok rows" and "r \<in> set rows" and "consumable now lease r"
  shows "BeginConsume now lease (token_hash r) (password_hash r) l rows =
    (replace_row (dr_id r) (leased now l r) rows, Some (leased now l r))"
proof -
  have "update_where now (\<lambda>x. token_hash x = token_hash r \<and> password_hash x = password_hash r \<and> consumable now lease x)
      (\<lambda>r. r\<lparr>dr_status := Consuming, consuming_started_at := Some now, consuming_lease_id := Some l\<rparr>) rows
    = (replace_row (dr_id r) (leased now l r) rows, [leased now l r])"
    unfolding leased_def
    by (subst update_where_written_one [OF assms(1,2)])
      (use assms(3) table_hash_unique [OF assms(1) _ assms(2)] in auto)
  then show ?thesis by (simp add: BeginConsume_def first_row_def)
qed

lemma Failure_row:
  assumes "table_ok rows" and "r \<in> set rows" and "consumable now lease r" and "password_hash r = Some stored"
  shows "RecordPasswordFailure now lease (token_hash r) stored rows =
    (replace_row (dr_id r) ((fail_row now r)\<lparr>updated_at := now\<rparr>) rows,
     Some (dr_id r, max_failed_attempts r \<le> failed_attempts r + 1))"
proof -
  have "update_where now (\<lambda>x. token_hash x = token_hash r \<and> password_hash x = Some stored \<and> consumable now lease x)
      (fail_row now) rows
    = (replace_row (dr_id r) ((fail_row now r)\<lparr>updated_at := now\<rparr>) rows, [(fail_row now r)\<lparr>updated_at := now\<rparr>])"
    by (subst update_where_written_one [OF assms(1,2)])
      (use assms(3,4) table_hash_unique [OF assms(1) _ assms(2)] in auto)
  then show ?thesis
    by (simp add: RecordPasswordFailure_def first_row_def fail_row_def clear_lease_def Let_def)
qed

lemma held_unique: "table_ok rows \<Longrightarrow> r \<in> set rows \<Longrightarrow> x \<in> set rows \<Longrightarrow> held_by (dr_id r) l x \<Longrightarrow> x = r"
  using table_row_unique by (auto simp: held_by_def)

lemma Complete_one:
  assumes "table_ok rows" and "r \<in> set rows" and "held_by (dr_id r) l r"
  shows "CompleteConsume now (dr_id r) l rows =
    (replace_row (dr_id r) ((clear_lease (r\<lparr>dr_status := Consumed, consumed_at := Some now,
       encrypted_payload := []\<rparr>))\<lparr>updated_at := now\<rparr>) rows, True)"
  unfolding CompleteConsume_def
  by (subst update_where_written_one [where P = "held_by (dr_id r) l", OF assms]) (use held_unique [OF assms(1,2)] in auto)

lemma Restore_one:
  assumes "table_ok rows" and "r \<in> set rows" and "held_by (dr_id r) l r"
  shows "RestoreConsume now (dr_id r) l rows =
    replace_row (dr_id r) ((clear_lease (r\<lparr>dr_status := Active\<rparr>))\<lparr>updated_at := now\<rparr>) rows"
  unfolding RestoreConsume_def
  by (subst update_where_written_one [where P = "held_by (dr_id r) l", OF assms]) (use held_unique [OF assms(1,2)] in auto)

text \<open>The row of a link that can be opened, and the caller that may open it.\<close>

definition opens :: "service_env \<Rightarrow> delivery_table \<Rightarrow> delivery_row \<Rightarrow> bytes \<Rightarrow> bool" where
  "opens env rows r token \<longleftrightarrow> table_ok rows \<and> r \<in> set rows \<and> dr_status r = Active \<and>
     token_hmac env token = Some (token_hash r)"

lemma opens_consumable: "opens env rows r token \<Longrightarrow> now < expires_at r \<Longrightarrow> consumable now lease r"
  by (auto simp: opens_def consumable_def table_ok_def row_ok_def)

definition answered :: "int \<Rightarrow> uuid \<Rightarrow> bool \<Rightarrow> consume_oracle" where
  "answered now lease vault_up =
     \<lparr>co_now = now, co_reply = Answered, co_lease = Some lease, co_vault_up = vault_up\<rparr>"

lemma answered_simps [simp]:
  "co_now (answered t l u) = t" "co_reply (answered t l u) = Answered" "co_lease (answered t l u) = Some l"
  "co_vault_up (answered t l u) = u"
  by (simp_all add: answered_def)

lemma db_call_Answered [simp]: "db_call Answered result s = (fst result, Some (snd result))"
  by (simp add: db_call_def)

lemma leased_simps [simp]:
  "dr_id (leased t l r) = dr_id r" "held_by (dr_id r) l (leased t l r)"
  "encrypted_payload (leased t l r) = encrypted_payload r"
  by (simp_all add: leased_def held_by_def)

lemma leased_ok:
  assumes "table_ok rows" and "r \<in> set rows" and "consumable now lease r"
  shows "table_ok (replace_row (dr_id r) (leased now l r) rows)"
    and "leased now l r \<in> set (replace_row (dr_id r) (leased now l r) rows)"
proof -
  from BeginConsume_ok [OF assms(1)] Begin_row [OF assms]
  show "table_ok (replace_row (dr_id r) (leased now l r) rows)" by (metis fst_conv)
  show "leased now l r \<in> set (replace_row (dr_id r) (leased now l r) rows)"
    by (rule replace_row_in [OF assms(2)]) simp
qed

lemma leased_table:
  assumes "opens env rows r token" and "now < expires_at r"
  shows "table_ok (replace_row (dr_id r) (leased now l r) rows)"
    and "leased now l r \<in> set (replace_row (dr_id r) (leased now l r) rows)"
  using leased_ok [OF _ _ opens_consumable [OF assms]] assms(1) by (auto simp: opens_def)

text \<open>The first two steps: the link is found, the password accepted, and the row leased.\<close>

definition accepts :: "service_env \<Rightarrow> delivery_row \<Rightarrow> bytes \<Rightarrow> bool" where
  "accepts env r password \<longleftrightarrow>
     (\<forall>stored. password_hash r = Some stored \<longrightarrow> VerifyPassword (IDKey env) password stored = Some True)"

lemma run_begin:
  assumes "opens env rows r token" and "accepts env r password" and "t1 < expires_at r" and "t2 < expires_at r"
  shows "consume_run env (answered t1 l u1 # answered t2 l u2 # ws) (arrived token password) rows =
    consume_run env ws \<lparr>cc_token = token, cc_password = password,
       cc_pc = WantDecrypt (dr_id r) l (encrypted_payload r)\<rparr> (replace_row (dr_id r) (leased t2 l r) rows)"
proof -
  have r: "table_ok rows" "r \<in> set rows" "token_hmac env token = Some (token_hash r)"
    using assms(1) by (simp_all add: opens_def)
  have find: "FindConsumeCandidate t1 (ConsumingLeaseTTL env) (token_hash r) rows = Some r"
    by (rule Find_row [OF r(1,2) opens_consumable [OF assms(1,3)]])
  have look: "consume_lookup env (answered t1 l u1) token password rows = WantBegin (token_hash r) (password_hash r) l"
    using assms(2) by (cases "password_hash r") (simp_all add: consume_lookup_def r(3) find accepts_def)
  have "consume_begin env (answered t2 l u2) (token_hash r) (password_hash r) l rows =
      (replace_row (dr_id r) (leased t2 l r) rows, WantDecrypt (dr_id r) l (encrypted_payload r))"
    using Begin_row [OF r(1,2) opens_consumable [OF assms(1,4)], of "ConsumingLeaseTTL env" l]
    by (simp add: consume_begin_def)
  with look show ?thesis by (simp add: arrived_def consume_step_def)
qed

lemma clear_leased:
  assumes "opens env rows r token"
  shows "clear_lease (leased t l r\<lparr>dr_status := Active\<rparr>) = r\<lparr>updated_at := t\<rparr>"
  using assms by (cases r) (auto simp: opens_def table_ok_def row_ok_def leased_def clear_lease_def)

lemma step_decrypt:
  "consume_step env (answered t l u) (c\<lparr>cc_pc := WantDecrypt i l' ct\<rparr>) rows =
     (rows, (case if u then vault_open env ct else None of None \<Rightarrow> WantRestore i l'
        | Some plain \<Rightarrow> WantComplete i l' plain), [])"
  by (simp add: consume_step_def consume_decrypt_def)

lemma step_complete:
  assumes "table_ok rows" and "s \<in> set rows" and "held_by (dr_id s) l s"
  shows "consume_step env (answered t l' u) (c\<lparr>cc_pc := WantComplete (dr_id s) l plain\<rparr>) rows =
     (replace_row (dr_id s) ((clear_lease (s\<lparr>dr_status := Consumed, consumed_at := Some t,
        encrypted_payload := []\<rparr>))\<lparr>updated_at := t\<rparr>) rows, response_of (dr_id s) plain,
      (case response_of (dr_id s) plain of
         Released _ _ \<Rightarrow> [audit (dr_id s) [] ''secret.consumed'' ''success''] | _ \<Rightarrow> []))"
  by (simp add: consume_step_def consume_complete_def Complete_one [OF assms])

lemma step_restore:
  assumes "table_ok rows" and "s \<in> set rows" and "held_by (dr_id s) l s"
  shows "consume_step env (answered t l' u) (c\<lparr>cc_pc := WantRestore (dr_id s) l\<rparr>) rows =
     (replace_row (dr_id s) ((clear_lease (s\<lparr>dr_status := Active\<rparr>))\<lparr>updated_at := t\<rparr>) rows,
      Refused ErrDependencyUnavailable, [])"
  by (simp add: consume_step_def consume_restore_def Restore_one [OF assms])

lemma sample_row_ok: "table_ok [sample_row]"
  by (simp add: table_ok_def row_ok_def sample_row_def sample_token_def)

lemma sample_opens: "opens sample_env [sample_row] sample_row sample_token"
  using sample_row_ok by (simp add: opens_def) (simp add: sample_row_def token_hmac_def TokenHMAC_def sample_env_def sample_token_def ascii_def)

lemma sample_normal: "normalizeConsumedPayload sample_content = Some (sample_content, JStr (js ''ok''))"
  by (simp add: normalizeConsumedPayload_def sample_content_def decode_payload_def member_own Let_def
      set_payload_member_def decode_string_def text_literals marshalPayload_def normalizePayload_def type_names
      zero_payload_def marshal_payload_json_def legacyProjection_def)

lemma run_releases:
  assumes "opens env rows r token" and "accepts env r password" and "t1 < expires_at r" and "t2 < expires_at r"
    and "vault_open env (encrypted_payload r) = Some (JsonText v)"
    and "normalizeConsumedPayload v = Some (payload, secret)"
  shows "consume_run env [answered t1 l u1, answered t2 l u2, answered t3 l True, answered t4 l u4]
      (arrived token password) rows =
    (replace_row (dr_id r) (r\<lparr>dr_status := Consumed, consumed_at := Some t4, encrypted_payload := [],
       consuming_started_at := None, consuming_lease_id := None, updated_at := t4\<rparr>) rows,
     Released (dr_id r) \<lparr>rs_secret = secret, rs_payload = payload\<rparr>,
     [audit (dr_id r) [] ''secret.consumed'' ''success''])"
proof -
  let ?rows = "replace_row (dr_id r) (leased t2 l r) rows"
  note held = leased_table [OF assms(1,4), of l] leased_simps(2) [of r l t2]
  have complete: "consume_step env (answered t4 l u4) (c\<lparr>cc_pc := WantComplete (dr_id r) l (JsonText v)\<rparr>) ?rows =
      (replace_row (dr_id r) ((clear_lease (leased t2 l r\<lparr>dr_status := Consumed, consumed_at := Some t4,
         encrypted_payload := []\<rparr>))\<lparr>updated_at := t4\<rparr>) ?rows,
       Released (dr_id r) \<lparr>rs_secret = secret, rs_payload = payload\<rparr>,
       [audit (dr_id r) [] ''secret.consumed'' ''success''])" for c
    using step_complete [where rows = ?rows and s = "leased t2 l r" and l = l and env = env and t = t4 and l' = l
        and u = u4 and c = c and plain = "JsonText v"] held assms(6)
    by (simp add: response_of_def)
  have row: "(clear_lease (leased t2 l r\<lparr>dr_status := Consumed, consumed_at := Some t4, encrypted_payload := []\<rparr>))
      \<lparr>updated_at := t4\<rparr> = r\<lparr>dr_status := Consumed, consumed_at := Some t4, encrypted_payload := [],
       consuming_started_at := None, consuming_lease_id := None, updated_at := t4\<rparr>"
    by (simp add: leased_def clear_lease_def)
  let ?c = "\<lparr>cc_token = token, cc_password = password, cc_pc = Arrived\<rparr>"
  show ?thesis
    using run_begin [OF assms(1-4), of l u1 u2 "[answered t3 l True, answered t4 l u4]"]
      step_decrypt [where env = env and t = t3 and l = l and u = True and c = ?c and i = "dr_id r" and l' = l
        and ct = "encrypted_payload r" and rows = ?rows] complete [of ?c] assms(5)
    by (simp add: row replace_row_twice)
qed

text \<open>The holder of the token and password of an active link gets its content: with the database and Vault
  answering and the link not expired, a call releases the decrypted payload, audits it, and leaves the
  row consumed, without ciphertext and lease, and every other row as it was.\<close>

theorem consume_succeeds:
  assumes "opens env rows r token" and "accepts env r password" and "t1 < expires_at r" and "t2 < expires_at r"
    and "vault_open env (encrypted_payload r) = Some (JsonText v)"
    and "normalizeConsumedPayload v = Some (payload, secret)"
  shows "consume_run env [answered t1 l u1, answered t2 l u2, answered t3 l True, answered t4 l u4]
      (arrived token password) rows =
    (replace_row (dr_id r) (r\<lparr>dr_status := Consumed, consumed_at := Some t4, encrypted_payload := [],
       consuming_started_at := None, consuming_lease_id := None, updated_at := t4\<rparr>) rows,
     Released (dr_id r) \<lparr>rs_secret = secret, rs_payload = payload\<rparr>,
     [audit (dr_id r) [] ''secret.consumed'' ''success''])"
  by (rule run_releases [OF assms])

theorem consume_succeeds_witness:
  "fst (snd (consume_run sample_env [answered 1 3 True, answered 2 3 True, answered 3 3 True, answered 4 3 True]
      (arrived sample_token []) [sample_row])) =
     Released 7 \<lparr>rs_secret = JStr (js ''ok''), rs_payload = sample_content\<rparr>"
proof -
  obtain payload secret where n: "normalizeConsumedPayload sample_content = Some (payload, secret)"
    "payload = sample_content" "secret = JStr (js ''ok'')"
    using sample_normal by simp
  have "accepts sample_env sample_row []" "vault_open sample_env (encrypted_payload sample_row) = Some (JsonText sample_content)"
    "expires_at sample_row = 86400000000" "dr_id sample_row = 7"
    by (simp_all add: accepts_def sample_row_def sample_env_def)
  with consume_succeeds [OF sample_opens this(1) _ _ this(2) n(1),
      where ?t1.0 = 1 and ?t2.0 = 2 and ?t3.0 = 3 and ?t4.0 = 4 and l = 3 and ?u1.0 = True and ?u2.0 = True
        and ?u4.0 = True] n
  show ?thesis by simp
qed

text \<open>C16: A Vault outage costs nothing: when Vault does not open the payload, the call answers that the
  dependency is unavailable and the row is active again with its ciphertext, as if nothing had happened.\<close>

theorem vault_outage_restores:
  assumes "opens env rows r token" and "accepts env r password" and "t1 < expires_at r" and "t2 < expires_at r"
    and "\<not> u3 \<or> vault_open env (encrypted_payload r) = None"
  shows "consume_run env [answered t1 l u1, answered t2 l u2, answered t3 l u3, answered t4 l u4]
      (arrived token password) rows =
    (replace_row (dr_id r) (r\<lparr>updated_at := t4\<rparr>) rows, Refused ErrDependencyUnavailable, [])"
proof -
  let ?rows = "replace_row (dr_id r) (leased t2 l r) rows"
  note held = leased_table [OF assms(1,4), of l] leased_simps(2) [of r l t2]
  let ?c = "\<lparr>cc_token = token, cc_password = password, cc_pc = Arrived\<rparr>"
  have "consume_step env (answered t4 l u4) (?c\<lparr>cc_pc := WantRestore (dr_id r) l\<rparr>) ?rows =
      (replace_row (dr_id r) (r\<lparr>updated_at := t4\<rparr>) rows, Refused ErrDependencyUnavailable, [])"
    using step_restore [where rows = ?rows and s = "leased t2 l r" and l = l and env = env and t = t4 and l' = l
        and u = u4 and c = ?c] held
    by (simp add: clear_leased [OF assms(1)] replace_row_twice)
  moreover have "(if u3 then vault_open env (encrypted_payload r) else None) = None" using assms(5) by auto
  ultimately show ?thesis
    using run_begin [OF assms(1-4), of l u1 u2 "[answered t3 l u3, answered t4 l u4]"]
      step_decrypt [where env = env and t = t3 and l = l and u = u3 and c = ?c and i = "dr_id r" and l' = l
        and ct = "encrypted_payload r" and rows = ?rows]
    by simp
qed

theorem vault_outage_restores_witness:
  "consume_run sample_env [answered 1 3 True, answered 2 3 True, answered 3 3 False, answered 4 3 True]
      (arrived sample_token []) [sample_row] =
     ([sample_row\<lparr>updated_at := 4\<rparr>], Refused ErrDependencyUnavailable, [])"
  using vault_outage_restores [OF sample_opens, where password = "[]" and ?t1.0 = 1 and ?t2.0 = 2 and ?t3.0 = 3 and ?t4.0 = 4
      and l = 3 and ?u1.0 = True and ?u2.0 = True and ?u3.0 = False and ?u4.0 = True]
  by (simp add: accepts_def sample_row_def replace_row_def)

section \<open>Wrong passwords\<close>

definition locks :: "delivery_row \<Rightarrow> bool" where
  "locks r \<longleftrightarrow> max_failed_attempts r \<le> failed_attempts r + 1"

definition failed_row :: "int \<Rightarrow> delivery_row \<Rightarrow> delivery_row" where
  "failed_row now r = (fail_row now r)\<lparr>updated_at := now\<rparr>"

lemma failed_row_simps [simp]:
  "dr_id (failed_row t r) = dr_id r" "token_hash (failed_row t r) = token_hash r"
  "password_hash (failed_row t r) = password_hash r" "expires_at (failed_row t r) = expires_at r"
  "max_failed_attempts (failed_row t r) = max_failed_attempts r"
  "failed_attempts (failed_row t r) = failed_attempts r + 1"
  "dr_status (failed_row t r) = (if locks r then Revoked else Active)"
  "encrypted_payload (failed_row t r) = (if locks r then [] else encrypted_payload r)"
  by (simp_all add: failed_row_def fail_row_def clear_lease_def locks_def Let_def)

lemma run_failure:
  assumes "opens env rows r token" and "password_hash r = Some stored"
    and "VerifyPassword (IDKey env) password stored = Some False" and "t1 < expires_at r" and "t2 < expires_at r"
  shows "consume_run env [answered t1 l u1, answered t2 l u2] (arrived token password) rows =
    (replace_row (dr_id r) (failed_row t2 r) rows,
     Refused (if locks r then ErrSecretUnavailable else ErrLinkPasswordInvalid),
     [audit (dr_id r) [] ''secret.password_failed'' (if locks r then ''locked'' else ''invalid'')])"
proof -
  have r: "table_ok rows" "r \<in> set rows" "token_hmac env token = Some (token_hash r)"
    using assms(1) by (simp_all add: opens_def)
  have "FindConsumeCandidate t1 (ConsumingLeaseTTL env) (token_hash r) rows = Some r"
    by (rule Find_row [OF r(1,2) opens_consumable [OF assms(1,4)]])
  then have "consume_lookup env (answered t1 l u1) token password rows = WantFailure (token_hash r) stored"
    by (simp add: consume_lookup_def r(3) assms(2,3))
  moreover have "consume_failure env (answered t2 l u2) (token_hash r) stored rows =
      (replace_row (dr_id r) (failed_row t2 r) rows,
       Refused (if locks r then ErrSecretUnavailable else ErrLinkPasswordInvalid),
       [audit (dr_id r) [] ''secret.password_failed'' (if locks r then ''locked'' else ''invalid'')])"
    using Failure_row [OF r(1,2) opens_consumable [OF assms(1,5)] assms(2), of "ConsumingLeaseTTL env"]
    by (simp add: consume_failure_def locks_def failed_row_def)
  ultimately show ?thesis by (simp add: arrived_def consume_step_def)
qed

lemma opens_failed:
  assumes "opens env rows r token" and "password_hash r = Some stored" and "t2 < expires_at r" and "\<not> locks r"
  shows "opens env (replace_row (dr_id r) (failed_row t2 r) rows) (failed_row t2 r) token"
proof -
  have r: "table_ok rows" "r \<in> set rows" "token_hmac env token = Some (token_hash r)"
    using assms(1) by (simp_all add: opens_def)
  have "fst (RecordPasswordFailure t2 0 (token_hash r) stored rows) = replace_row (dr_id r) (failed_row t2 r) rows"
    using Failure_row [OF r(1,2) opens_consumable [OF assms(1,3)] assms(2)] by (simp add: failed_row_def)
  then have "table_ok (replace_row (dr_id r) (failed_row t2 r) rows)"
    using RecordPasswordFailure_ok [OF r(1)] by metis
  then show ?thesis
    using r replace_row_in [OF r(2), of "dr_id r" "failed_row t2 r"] assms(4) by (simp add: opens_def)
qed

text \<open>One call after the other, each with the times of its two statements and its own password.\<close>

fun guesses ::
  "service_env \<Rightarrow> bytes \<Rightarrow> (int \<times> int \<times> bytes) list \<Rightarrow> delivery_table \<Rightarrow> delivery_table \<times> consume_pc list" where
  "guesses env token [] rows = (rows, [])"
| "guesses env token ((t1, t2, password) # gs) rows =
     (case consume_run env [answered t1 0 True, answered t2 0 True] (arrived token password) rows of
        (rows', pc, _) \<Rightarrow> (case guesses env token gs rows' of (rows'', pcs) \<Rightarrow> (rows'', pc # pcs)))"

text \<open>C15: Wrong passwords are counted and lock the link: as many wrong passwords as attempts are left are
  answered as wrong, the last one as unavailable, and then the link is revoked and its ciphertext gone.\<close>

theorem wrong_passwords_lock:
  assumes "opens env rows r token" and "password_hash r = Some stored"
    and "\<forall>(t1, t2, password) \<in> set gs. t1 < expires_at r \<and> t2 < expires_at r \<and>
      VerifyPassword (IDKey env) password stored = Some False"
    and "length gs + failed_attempts r = max_failed_attempts r"
  shows "\<exists>rows'. guesses env token gs rows =
      (rows', replicate (length gs - 1) (Refused ErrLinkPasswordInvalid) @ [Refused ErrSecretUnavailable]) \<and>
    (\<exists>r' \<in> set rows'. dr_id r' = dr_id r \<and> dr_status r' = Revoked \<and> encrypted_payload r' = [])"
  using assms
proof (induction gs arbitrary: rows r)
  case Nil
  then show ?case by (auto simp: opens_def table_ok_def row_ok_def)
next
  case (Cons g gs)
  obtain t1 t2 password where g: "g = (t1, t2, password)" by (cases g)
  with Cons.prems(3) have ok: "VerifyPassword (IDKey env) password stored = Some False"
    "t1 < expires_at r" "t2 < expires_at r" by auto
  let ?rows = "replace_row (dr_id r) (failed_row t2 r) rows"
  note run = run_failure [OF Cons.prems(1,2) ok, of 0 True True]
  show ?case
  proof (cases gs)
    case Nil
    then have l: "locks r" using Cons.prems(4) by (simp add: locks_def)
    have "r \<in> set rows" using Cons.prems(1) by (simp add: opens_def)
    from replace_row_in [OF this] l
    have "\<exists>r' \<in> set ?rows. dr_id r' = dr_id r \<and> dr_status r' = Revoked \<and> encrypted_payload r' = []"
      by (intro bexI [of _ "failed_row t2 r"]) simp_all
    with run l Nil show ?thesis by (simp add: g)
  next
    case (Cons g' gs')
    then have l: "\<not> locks r" using Cons.prems(4) by (simp add: locks_def)
    have "length gs + failed_attempts (failed_row t2 r) = max_failed_attempts (failed_row t2 r)"
      using Cons.prems(4) by simp
    from Cons.IH [OF opens_failed [OF Cons.prems(1,2) ok(3) l] _ _ this] Cons.prems(2,3)
    obtain rows' where "guesses env token gs ?rows =
        (rows', replicate (length gs - 1) (Refused ErrLinkPasswordInvalid) @ [Refused ErrSecretUnavailable])"
      "\<exists>r' \<in> set rows'. dr_id r' = dr_id r \<and> dr_status r' = Revoked \<and> encrypted_payload r' = []"
      by auto
    with run l show ?thesis by (simp add: g \<open>gs = g' # gs'\<close>)
  qed
qed

definition sample_stored :: bytes where
  "sample_stored = encode_hash (replicate 16 7) (take 32 ([1, 2] @ replicate 32 0))"

lemma sample_wrong: "VerifyPassword sample_idkey [1, 3] sample_stored = Some False"
  unfolding sample_stored_def by (subst VerifyPassword_encoded) (simp_all add: sample_idkey_def)

definition sample_protected :: delivery_row where
  "sample_protected = sample_row\<lparr>password_hash := Some sample_stored, max_failed_attempts := 2\<rparr>"

lemma sample_protected_opens: "opens sample_env [sample_protected] sample_protected sample_token"
  using sample_opens by (simp add: opens_def sample_protected_def table_ok_def row_ok_def) (simp add: sample_row_def)

theorem wrong_passwords_lock_witness:
  "snd (guesses sample_env sample_token [(1, 2, [1, 3]), (3, 4, [1, 3])] [sample_protected]) =
     [Refused ErrLinkPasswordInvalid, Refused ErrSecretUnavailable]"
proof -
  have stored: "password_hash sample_protected = Some sample_stored" by (simp add: sample_protected_def)
  have "\<forall>(t1, t2, password) \<in> set [(1, 2, [1, 3]), (3, 4, [1, 3])]. t1 < expires_at sample_protected \<and>
      t2 < expires_at sample_protected \<and> VerifyPassword (IDKey sample_env) password sample_stored = Some False"
    using sample_wrong by (simp add: sample_protected_def sample_row_def sample_env_def)
  from wrong_passwords_lock [OF sample_protected_opens stored this] show ?thesis
    by (auto simp: sample_protected_def sample_row_def)
qed

section \<open>A call alone, as one operation\<close>

text \<open>What the four statements amount to when nothing comes in between: the specification of \<^verbatim>\<open>Consume\<close>. \<open>now\<close> is
  the time at which the link is opened or the wrong password counted, \<open>later\<close> that of the last statement.\<close>

definition openable :: "service_env \<Rightarrow> int \<Rightarrow> bytes \<Rightarrow> delivery_table \<Rightarrow> delivery_row option" where
  "openable env now token rows =
     (case token_hmac env token of
        None \<Rightarrow> None
      | Some h \<Rightarrow> find (\<lambda>r. token_hash r = h \<and> consumable now (ConsumingLeaseTTL env) r) rows)"

definition password_right :: "service_env \<Rightarrow> bytes \<Rightarrow> delivery_row \<Rightarrow> bool option" where
  "password_right env password r =
     (case password_hash r of None \<Rightarrow> Some True | Some stored \<Rightarrow> VerifyPassword (IDKey env) password stored)"

definition atomic_consume ::
  "service_env \<Rightarrow> int \<Rightarrow> int \<Rightarrow> bool \<Rightarrow> bytes \<Rightarrow> bytes \<Rightarrow> delivery_table \<Rightarrow>
   delivery_table \<times> consume_pc \<times> audit_event list" where
  "atomic_consume env now later vault_up token password rows =
     (case openable env now token rows of
        None \<Rightarrow> (rows, Refused ErrSecretUnavailable, [])
      | Some r \<Rightarrow>
          (let put = (\<lambda>r' t. replace_row (dr_id r)
                   (r'\<lparr>consuming_started_at := None, consuming_lease_id := None, updated_at := t\<rparr>) rows)
           in case password_right env password r of
                None \<Rightarrow> (rows, Abandoned, [])
              | Some False \<Rightarrow>
                  (if max_failed_attempts r \<le> failed_attempts r + 1
                   then (put (r\<lparr>failed_attempts := failed_attempts r + 1, dr_status := Revoked, revoked_at := Some now,
                           encrypted_payload := []\<rparr>) now,
                         Refused ErrSecretUnavailable, [audit (dr_id r) [] ''secret.password_failed'' ''locked''])
                   else (put (r\<lparr>failed_attempts := failed_attempts r + 1, dr_status := Active\<rparr>) now,
                         Refused ErrLinkPasswordInvalid, [audit (dr_id r) [] ''secret.password_failed'' ''invalid'']))
              | Some True \<Rightarrow>
                  (case if vault_up then vault_open env (encrypted_payload r) else None of
                     None \<Rightarrow> (put (r\<lparr>dr_status := Active\<rparr>) later, Refused ErrDependencyUnavailable, [])
                   | Some plain \<Rightarrow>
                       (put (r\<lparr>dr_status := Consumed, consumed_at := Some later, encrypted_payload := []\<rparr>) later,
                        response_of (dr_id r) plain,
                        (case response_of (dr_id r) plain of
                           Released _ _ \<Rightarrow> [audit (dr_id r) [] ''secret.consumed'' ''success''] | _ \<Rightarrow> [])))))"

lemma first_row_find: "first_row (filter P rows) = find P rows"
  by (induction rows) (simp_all add: first_row_def)

lemma run_ended: "ended pc \<Longrightarrow> consume_run env ws (c\<lparr>cc_pc := pc\<rparr>) rows = (rows, pc, [])"
proof (induction ws arbitrary: c)
  case (Cons w ws)
  then have "consume_step env w (c\<lparr>cc_pc := pc\<rparr>) rows = (rows, pc, [])"
    by (cases pc) (simp_all add: consume_step_def ended_def)
  with Cons show ?case by simp
qed simp

lemma response_ended [simp]: "ended (response_of i plain)"
  by (simp add: response_of_def ended_def split: plaintext.split option.split)

lemma ended_simps [simp]: "ended (Refused e)" "ended Abandoned"
  by (simp_all add: ended_def)

lemma run_step:
  "consume_step env w (c\<lparr>cc_pc := pc\<rparr>) rows = (rows', pc', events) \<Longrightarrow> ended pc' \<Longrightarrow>
   consume_run env (w # ws) (c\<lparr>cc_pc := pc\<rparr>) rows = (rows', pc', events)"
  using run_ended [of pc' env ws c rows'] by simp

text \<open>From a leased row to the end.\<close>

lemma run_leased:
  fixes l :: uuid and t :: int and r :: delivery_row and rows :: delivery_table
  assumes "table_ok rows" and "r \<in> set rows" and "consumable t lease r"
  defines "rows1 \<equiv> replace_row (dr_id r) (leased t l r) rows"
    and "put \<equiv> \<lambda>r' t. replace_row (dr_id r)
      (r'\<lparr>consuming_started_at := None, consuming_lease_id := None, updated_at := t\<rparr>) rows"
  shows "consume_run env (answered t3 l up # answered t4 l u4 # ws)
      (c\<lparr>cc_pc := WantDecrypt (dr_id r) l (encrypted_payload r)\<rparr>) rows1 =
    (case if up then vault_open env (encrypted_payload r) else None of
       None \<Rightarrow> (put (r\<lparr>dr_status := Active\<rparr>) t4, Refused ErrDependencyUnavailable, [])
     | Some plain \<Rightarrow>
         (put (r\<lparr>dr_status := Consumed, consumed_at := Some t4, encrypted_payload := []\<rparr>) t4,
          response_of (dr_id r) plain,
          (case response_of (dr_id r) plain of
             Released _ _ \<Rightarrow> [audit (dr_id r) [] ''secret.consumed'' ''success''] | _ \<Rightarrow> [])))"
proof -
  note held = leased_ok [OF assms(1-3), of l] leased_simps(2) [of r l t]
  show ?thesis
  proof (cases "if up then vault_open env (encrypted_payload r) else None")
    case None
    have "consume_step env (answered t4 l u4) (c\<lparr>cc_pc := WantRestore (dr_id r) l\<rparr>) rows1 =
        (put (r\<lparr>dr_status := Active\<rparr>) t4, Refused ErrDependencyUnavailable, [])"
      using step_restore [where rows = rows1 and s = "leased t l r" and l = l and env = env and t = t4 and l' = l
          and u = u4 and c = c] held
      by (simp add: rows1_def put_def replace_row_twice leased_def clear_lease_def)
    from run_step [OF this] None show ?thesis
      by (simp add: step_decrypt [where c = c])
  next
    case (Some plain)
    have "consume_step env (answered t4 l u4) (c\<lparr>cc_pc := WantComplete (dr_id r) l plain\<rparr>) rows1 =
        (put (r\<lparr>dr_status := Consumed, consumed_at := Some t4, encrypted_payload := []\<rparr>) t4,
         response_of (dr_id r) plain, (case response_of (dr_id r) plain of
             Released _ _ \<Rightarrow> [audit (dr_id r) [] ''secret.consumed'' ''success''] | _ \<Rightarrow> []))"
      using step_complete [where rows = rows1 and s = "leased t l r" and l = l and env = env and t = t4 and l' = l
          and u = u4 and c = c and plain = plain] held
      by (simp add: rows1_def put_def replace_row_twice leased_def clear_lease_def
        cong: consume_pc.case_cong)
    from run_step [OF this] Some show ?thesis
      by (simp add: step_decrypt [where c = c])
  qed
qed

text \<open>C14: A call to \<^verbatim>\<open>Consume\<close> that nothing interferes with, on any table that satisfies its constraints, with the database
  answering: it ends after at most four statements, and its answer, the table it leaves and the events it audits are those of
  one atomic operation, on every path: no link that can be opened, a hash that cannot be read, a wrong password that is or is not the last,
  Vault out of service, a payload that cannot be decoded, and success; a link under a lease that has run out
  counts as one that can be opened. (The link must not become or cease to be open between the first two statements.)\<close>

theorem consume_alone:
  assumes "table_ok rows"
    and "\<forall>r \<in> set rows. consumable t1 (ConsumingLeaseTTL env) r \<longleftrightarrow> consumable t2 (ConsumingLeaseTTL env) r"
  shows "consume_run env ([answered t1 l u1, answered t2 l u2, answered t3 l up, answered t4 l u4] @ ws)
      (arrived token password) rows = atomic_consume env t2 t4 up token password rows"
proof -
  let ?c = "arrived token password"
  let ?w = "answered t1 l u1" and ?ws = "[answered t2 l u2, answered t3 l up, answered t4 l u4] @ ws"
  have c: "?c\<lparr>cc_pc := Arrived\<rparr> = ?c" by (simp add: arrived_def)
  have look: "consume_step env ?w ?c rows = (rows, consume_lookup env ?w token password rows, [])"
    by (simp add: arrived_def consume_step_def)
  have same: "find (\<lambda>r. token_hash r = h \<and> consumable t1 (ConsumingLeaseTTL env) r) rows =
      find (\<lambda>r. token_hash r = h \<and> consumable t2 (ConsumingLeaseTTL env) r) rows" for h
    by (rule find_cong) (use assms(2) in auto)
  have at_once: ?thesis if "consume_lookup env ?w token password rows = pc" "ended pc"
      "atomic_consume env t2 t4 up token password rows = (rows, pc, [])" for pc
    using run_step [where env = env and w = ?w and c = ?c and pc = Arrived and rows = rows and ws = ?ws] look that by (simp add: c)
  show ?thesis
  proof (cases "openable env t2 token rows")
    case None
    then have "consume_lookup env ?w token password rows = Refused ErrSecretUnavailable"
      by (auto simp: consume_lookup_def openable_def FindConsumeCandidate_def first_row_find same split: option.splits)
    with None show ?thesis by (intro at_once) (simp_all add: atomic_consume_def)
  next
    case (Some r)
    then obtain h where h: "token_hmac env token = Some h"
      and f: "find (\<lambda>r. token_hash r = h \<and> consumable t2 (ConsumingLeaseTTL env) r) rows = Some r"
      by (auto simp: openable_def split: option.splits)
    from f have r: "r \<in> set rows" "token_hash r = h" "consumable t2 (ConsumingLeaseTTL env) r"
      by (auto simp: find_Some_iff)
    have found: "FindConsumeCandidate t1 (ConsumingLeaseTTL env) h rows = Some r"
      by (simp add: FindConsumeCandidate_def first_row_find same f)
    show ?thesis
    proof (cases "password_right env password r")
      case None
      then have "consume_lookup env ?w token password rows = Abandoned"
        by (auto simp: consume_lookup_def h found password_right_def split: option.splits)
      with None Some show ?thesis by (intro at_once) (simp_all add: atomic_consume_def)
    next
      case right: (Some ok)
      show ?thesis
      proof (cases ok)
        case False
        with right obtain stored where stored: "password_hash r = Some stored"
            "VerifyPassword (IDKey env) password stored = Some False"
          by (auto simp: password_right_def split: option.splits)
        then have lookup: "consume_lookup env ?w token password rows = WantFailure h stored"
          by (simp add: consume_lookup_def h found)
        have "consume_step env (answered t2 l u2) (?c\<lparr>cc_pc := WantFailure h stored\<rparr>) rows =
            atomic_consume env t2 t4 up token password rows"
          using Failure_row [OF assms(1) r(1,3) stored(1)] right False
          by (simp add: consume_step_def consume_failure_def r(2) atomic_consume_def Some fail_row_def clear_lease_def Let_def)
        moreover have "ended (fst (snd (atomic_consume env t2 t4 up token password rows)))"
          using right False by (simp add: atomic_consume_def Some Let_def)
        ultimately have "consume_run env ?ws (?c\<lparr>cc_pc := WantFailure h stored\<rparr>) rows =
            atomic_consume env t2 t4 up token password rows"
          using run_step [where env = env and w = "answered t2 l u2" and c = ?c and pc = "WantFailure h stored" and rows = rows] by (metis append_Cons prod.collapse)
        with look lookup show ?thesis by (cases "atomic_consume env t2 t4 up token password rows") simp
      next
        case True
        then have lookup: "consume_lookup env ?w token password rows = WantBegin h (password_hash r) l"
          using right by (auto simp: consume_lookup_def h found password_right_def split: option.splits)
        have "consume_step env (answered t2 l u2) (?c\<lparr>cc_pc := WantBegin h (password_hash r) l\<rparr>) rows =
            (replace_row (dr_id r) (leased t2 l r) rows, WantDecrypt (dr_id r) l (encrypted_payload r), [])"
          using Begin_row [OF assms(1) r(1,3), of l] by (simp add: consume_step_def consume_begin_def r(2))
        with run_leased [OF assms(1) r(1,3), of env t3 l up t4 u4 ws ?c] right True look lookup
        show ?thesis by (simp add: atomic_consume_def Some Let_def split: option.splits)
      qed
    qed
  qed
qed

theorem consume_alone_witness:
  "consume_run sample_env [answered 1 3 True, answered 2 3 True, answered 3 3 True, answered 4 3 True]
      (arrived sample_token [1, 3]) [sample_protected] =
     ([sample_protected\<lparr>failed_attempts := 1, updated_at := 2\<rparr>], Refused ErrLinkPasswordInvalid,
      [audit 7 [] ''secret.password_failed'' ''invalid''])"
proof -
  have open_row: "openable sample_env 2 sample_token [sample_protected] = Some sample_protected"
    using sample_protected_opens opens_consumable [OF sample_protected_opens, of 2 "ConsumingLeaseTTL sample_env"]
    by (simp add: openable_def opens_def) (simp add: sample_protected_def sample_row_def)
  have wrong: "password_right sample_env [1, 3] sample_protected = Some False"
    using sample_wrong by (simp add: password_right_def sample_protected_def sample_env_def)
  have row: "table_ok [sample_protected]"
      "\<forall>r \<in> set [sample_protected]. consumable 1 (ConsumingLeaseTTL sample_env) r \<longleftrightarrow> consumable 2 (ConsumingLeaseTTL sample_env) r"
    using sample_protected_opens by (simp_all add: opens_def) (simp add: consumable_def sample_protected_def sample_row_def)
  show ?thesis
    using consume_alone [OF row, where l = 3 and ?u1.0 = True and ?u2.0 = True and ?t3.0 = 3 and up = True and ?t4.0 = 4
        and ?u4.0 = True and ws = "[]" and token = sample_token and password = "[1, 3]"]
    by (simp add: atomic_consume_def open_row wrong) (simp add: sample_protected_def sample_row_def replace_row_def)
qed

section \<open>Prepare\<close>

lemma filter_first_row_cong:
  "(\<And>x. x \<in> set rows \<Longrightarrow> P x = Q x) \<Longrightarrow> first_row (filter P rows) = first_row (filter Q rows)"
  by (metis filter_cong)

text \<open>The two statements that look a link up agree: at any moment \<^verbatim>\<open>Prepare\<close> promises an attempt exactly when
  the consume would find an active row, with its expiry and whether it has a password; a row whose lease
  has gone stale is found by the consume only.\<close>

theorem prepare_agrees:
  assumes "table_ok rows"
  shows "Prepare now hash rows =
    (case FindConsumeCandidate now lease hash rows of
       None \<Rightarrow> None
     | Some r \<Rightarrow> if dr_status r = Active then Some (password_hash r \<noteq> None, expires_at r) else None)"
proof (cases "\<exists>r \<in> set rows. token_hash r = hash")
  case True
  then obtain r where r: "r \<in> set rows" "token_hash r = hash" by blast
  then have only: "\<And>x. x \<in> set rows \<Longrightarrow> token_hash x = hash \<Longrightarrow> x = r"
    using table_hash_unique [OF assms] by metis
  have f: "filter (\<lambda>x. token_hash x = hash \<and> Q x) rows = (if Q r then [r] else [])" for Q
  proof (cases "Q r")
    case True
    have "filter (\<lambda>x. token_hash x = hash \<and> Q x) rows = [r]"
      by (rule filter_unique [OF assms r(1)]) (use True r(2) only in blast)+
    then show ?thesis using True by simp
  next
    case False
    have "\<not> (token_hash x = hash \<and> Q x)" if "x \<in> set rows" for x using only [OF that] False by blast
    then show ?thesis using False by (simp add: filter_empty_conv)
  qed
  show ?thesis by (auto simp: Prepare_def FindConsumeCandidate_def f first_row_def consumable_def)
next
  case False
  then have "filter (\<lambda>x. token_hash x = hash \<and> Q x) rows = []" for Q by (auto simp: filter_empty_conv)
  then show ?thesis by (simp add: Prepare_def FindConsumeCandidate_def first_row_def)
qed

theorem prepare_agrees_witness:
  "Prepare 5 (token_hash sample_row) [sample_row] = Some (False, 86400000000)"
  using prepare_agrees [OF sample_row_ok, of 5 "token_hash sample_row" 30] Find_row [OF sample_row_ok, of sample_row 5 30]
  by (simp add: consumable_def sample_row_def)

section \<open>The life time of a link\<close>

lemma seconds_duration_exact:
  assumes "0 < sint seconds" and "sint seconds * 1000000000 < 2 ^ 63"
  shows "seconds_duration seconds = sint seconds * 1000000000"
proof -
  have "seconds * 1000000000 = word_of_int (sint seconds * 1000000000)" by simp
  then have "sint (seconds * 1000000000) = signed_take_bit 63 (sint seconds * 1000000000)"
    by (simp add: sint_sbintrunc' del: of_int_mult)
  also have "\<dots> = sint seconds * 1000000000" by (rule signed_take_bit_int_eq_self) (use assms in simp_all)
  finally show ?thesis by (simp add: seconds_duration_def)
qed

lemma Create_success:
  assumes "Create env w actorID req rows = (rows', Inr resp, events)"
  shows "cs_expires_at resp = no_time w + ttl env (cr_expires_in_seconds req) \<and>
    (\<exists>payload. validateCreate env req payload = None)"
proof (cases "create_params env w actorID req")
  case (Inr pt)
  obtain p token where pt: "pt = (p, token)" by (cases pt)
  have "cs_expires_at resp = no_time w + ttl env (cr_expires_in_seconds req)"
    using assms Inr pt by (auto simp: Create_def split: prod.splits option.splits bool.splits)
  moreover have "\<exists>payload. validateCreate env req payload = None"
    using Inr by (auto simp: create_params_def split: if_splits option.splits prod.splits sum.splits)
  ultimately show ?thesis by blast
qed (use assms in \<open>auto simp: Create_def\<close>)

text \<open>A link never lives longer than the configured maximum, whatever life time is requested, even when
  its conversion to nanoseconds overflows; and a requested time that does not overflow is granted exactly.\<close>

theorem create_life_time:
  assumes "Create env w actorID req rows = (rows', Inr resp, events)"
    and "DefaultSecretTTL env \<le> MaxSecretTTL env"
  shows "cs_expires_at resp \<le> no_time w + MaxSecretTTL env \<and>
    (0 < sint (cr_expires_in_seconds req) \<and> sint (cr_expires_in_seconds req) * 1000000000 < 2 ^ 63 \<longrightarrow>
       cs_expires_at resp = no_time w + sint (cr_expires_in_seconds req) * 1000000000)"
proof -
  from Create_success [OF assms(1)] obtain payload where
    exp: "cs_expires_at resp = no_time w + ttl env (cr_expires_in_seconds req)"
    and valid: "validateCreate env req payload = None" by blast
  from valid have "\<not> (0 < sint (cr_expires_in_seconds req) \<and>
      MaxSecretTTL env < seconds_duration (cr_expires_in_seconds req))"
    by (auto simp: validateCreate_def split: if_splits)
  with assms(2) have "ttl env (cr_expires_in_seconds req) \<le> MaxSecretTTL env" by (auto simp: ttl_def)
  with exp seconds_duration_exact [of "cr_expires_in_seconds req"] show ?thesis by (auto simp: ttl_def)
qed

theorem create_life_time_witness:
  "cs_expires_at sample_response \<le> 604800000000000"
  using create_life_time [OF sample_created] by (simp add: sample_env_def sample_create_def)

text \<open>A request for the smallest number of seconds whose nanoseconds do not fit.\<close>

definition overflow_request :: create_request where
  "overflow_request = sample_request\<lparr>cr_expires_in_seconds := 9223372037\<rparr>"

lemma overflow_accepted: "validateCreate sample_env overflow_request (go_stringify sample_content) = None"
  by (simp add: validateCreate_def seconds_duration_def sample_env_def overflow_request_def sample_request_def
      sample_content_def join_def text_literals js_append)

text \<open>C28: The conversion to nanoseconds wraps around: a life time of 9223372037 seconds, 292 years, passes the
  check against the maximum, and the link is created with an expiry in the past, so that nobody can open
  it, although the response reports success.\<close>

theorem create_overflow:
  "\<exists>resp events. Create sample_env sample_create [1] overflow_request [] =
      ([sample_row\<lparr>expires_at := - 9223372036709552\<rparr>], Inr resp, events) \<and>
    cs_expires_at resp = no_time sample_create - 9223372036709551616"
proof -
  have h: "token_hmac sample_env sample_token = Some (sample_token @ replicate 28 0)"
    by (simp add: token_hmac_def TokenHMAC_def sample_env_def sample_token_def ascii_def)
  have payload: "canonicalPayload overflow_request = Some (sample_content,
      \<lparr>ps_type = js ''text'', ps_field_count = 0, ps_contains_sensitive = False\<rparr>)"
    using sample_payload_eq by (simp add: canonicalPayload_def overflow_request_def sample_request_def)
  have "create_params sample_env sample_create [1] overflow_request = Inr (\<lparr>ip_id = 7,
      ip_token_hash = sample_token @ replicate 28 0, ip_encrypted_payload = [9], ip_title = [],
      ip_description = [], ip_recipient_reference = [], ip_expires_at = - 9223372036709552, ip_password_hash = None,
      ip_max_failed_attempts = 5, ip_created_by = [1], ip_payload_type = ascii ''text'',
      ip_payload_field_count = 0, ip_contains_sensitive = False\<rparr>, sample_token)"
    by (simp add: create_params_def payload overflow_accepted sample_create_def sample_token_eq h)
      (simp add: overflow_request_def sample_request_def TrimSpace_def link_password_hash_def ttl_def
        seconds_duration_def sample_env_def sample_type)
  then show ?thesis
    by (simp add: Create_def sample_create_def db_call_def insert_row_def Insert_def sample_token_def
        payload_types_def new_row_def emptyToNil_def sample_row_def)
      (simp add: overflow_request_def ttl_def seconds_duration_def)
qed

end
