(* ===== verification/EndToEnd.thy ===== *)
theory EndToEnd
  imports Exchange DeliveryRuns
begin

text \<open>
  A secret on its way: the form of the create page, the creation, the table, the consume call, and the
  page of the recipient, composed. The browser's strings are sequences of UTF-16 code units, the server's
  tokens and passwords bytes.
\<close>

section \<open>The token in the link\<close>

definition text_of_bytes :: "bytes \<Rightarrow> jstr" where
  "text_of_bytes b = map ucast b"

lemma byte_unit [simp]:
  fixes x :: byte
  shows "unat (ucast x :: jchar) = unat x"
proof -
  have "unat x < 2 ^ 8" using unsigned_less [where 'a = nat, of x] by simp
  then show ?thesis by (simp add: unsigned_ucast_eq take_bit_nat_eq_self)
qed

lemma utf8_ascii: "list_all (\<lambda>x. unat x < 0x80) b \<Longrightarrow> utf8_bytes (text_of_bytes b) = b"
proof (induction "text_of_bytes b" arbitrary: b rule: utf8_bytes.induct)
  case (2 u)
  then obtain x where b: "b = [x]" "u = ucast x" "unat x < 128"
    by (cases b) (auto simp: text_of_bytes_def)
  then have "unat u = unat x" by simp
  with b show ?case
    by (simp add: text_of_bytes_def utf8_unit_def is_high_def is_low_def word_le_nat_alt)
next
  case (3 u v s)
  then obtain x y c where b: "b = x # y # c" "u = ucast x" "unat x < 128"
      "v # s = text_of_bytes (y # c)" "list_all (\<lambda>x. unat x < 0x80) (y # c)"
    by (cases b; cases "tl b") (auto simp: text_of_bytes_def)
  then have u: "unat u = unat x" by simp
  then have high: "\<not> is_high u" "\<not> is_low u" using b(3) by (auto simp: is_high_def is_low_def word_le_nat_alt)
  then have "utf8_bytes (v # s) = y # c" using 3(2) [of "y # c"] b by auto
  moreover have "text_of_bytes b = u # v # s" using b by (simp add: text_of_bytes_def)
  ultimately show ?case using high b(1,3) u by (simp add: utf8_unit_def)
qed (auto simp: text_of_bytes_def)

lemma token_ascii: "set tok \<subseteq> set URLAlphabet \<Longrightarrow> list_all (\<lambda>x. unat x < 0x80) tok"
proof -
  have "list_all (\<lambda>x. unat x < 0x80) URLAlphabet" by (simp add: URLAlphabet_def ascii_def)
  then show "set tok \<subseteq> set URLAlphabet \<Longrightarrow> list_all (\<lambda>x. unat x < 0x80) tok"
    by (auto simp: list_all_iff)
qed

lemma text_of_bytes_valid: "list_all (\<lambda>x. unat x < 0x80) b \<Longrightarrow> go_text (text_of_bytes b) = text_of_bytes b"
proof (rule go_text_ascii)
  assume "list_all (\<lambda>x. unat x < 0x80) b"
  then show "list_all (\<lambda>c. c < 0x80) (text_of_bytes b)"
    by (auto simp: text_of_bytes_def list_all_iff word_less_nat_alt byte_unit)
qed

section \<open>The whole way\<close>

text \<open>What a successful creation is made of.\<close>

lemma Create_parts:
  assumes "Create env w actorID req rows = (rows', Inr resp, events)"
  obtains p tok where "create_params env w actorID req = Inr (p, tok)"
    "Insert (no_now w) p rows = Some rows'" "cs_id resp = ip_id p"
    "cs_url resp = AppBaseURL env @ ascii ''/s#'' @ tok"
    "cs_expires_at resp = no_time w + ttl env (cr_expires_in_seconds req)"
proof (cases "create_params env w actorID req")
  case (Inr pt)
  obtain p tok where pt: "pt = (p, tok)" by (cases pt)
  obtain answer where call: "db_call (no_reply w) (insert_row (no_now w) p rows) rows = (rows', answer)"
    and ok: "answer = Some True"
    using assms Inr pt by (auto simp: Create_def split: prod.splits option.splits bool.splits)
  then have "no_reply w = Answered" by (auto simp: db_call_def split: db_reply.splits)
  with call ok have "Insert (no_now w) p rows = Some rows'"
    by (auto simp: insert_row_def split: option.splits)
  with assms Inr pt show thesis
    by (intro that) (auto simp: Create_def split: prod.splits option.splits bool.splits)
qed (use assms in \<open>auto simp: Create_def\<close>)

lemma create_params_parts:
  assumes "create_params env w actorID req = Inr (p, tok)"
  shows "GenerateToken (no_token w) = Some tok" "token_hmac env tok = Some (ip_token_hash p)"
    "link_password_hash env (no_salt w) (cr_password req) = Inr (ip_password_hash p)"
    "ip_expires_at p = (no_time w + ttl env (cr_expires_in_seconds req)) div 1000"
  using assms by (auto simp: create_params_def split: if_splits option.splits sum.splits prod.splits)

lemma generated_token_ascii: "GenerateToken random = Some tok \<Longrightarrow> list_all (\<lambda>x. unat x < 0x80) tok"
  using b64_encode_set [OF good_alphabets(2)]
  by (intro token_ascii) (auto simp: GenerateToken_def split: option.splits if_splits)

lemma inserted_opens:
  assumes "table_ok rows" and "Insert now p rows = Some rows'" and "token_hmac env tok = Some (ip_token_hash p)"
  shows "opens env rows' (new_row now p) tok"
  using Insert_ok [OF assms(1,2)] Insert_rows [OF assms(2)] assms(3)
  by (simp add: opens_def new_row_def)

text \<open>The password that the recipient types is the one that the link was given, if it was given one.\<close>

definition right_password :: "jstr option \<Rightarrow> jstr \<Rightarrow> bool" where
  "right_password given typed \<longleftrightarrow>
     (case given of None \<Rightarrow> True | Some s \<Rightarrow> TrimSpace s = [] \<or> typed = s)"

lemma right_password_accepted:
  assumes "link_password_hash env salt given = Inr stored" and "right_password given typed"
    and "\<And>q s key. IDKey env q s 3 65536 1 32 = Some key \<Longrightarrow> length key = 32"
  shows "password_hash r = stored \<Longrightarrow> accepts env r (utf8_bytes typed)"
proof (cases given)
  case None
  with assms(1) show "password_hash r = stored \<Longrightarrow> accepts env r (utf8_bytes typed)"
    by (simp add: link_password_hash_def accepts_def)
next
  case (Some s)
  show "password_hash r = stored \<Longrightarrow> accepts env r (utf8_bytes typed)"
  proof (cases "TrimSpace s = []")
    case True
    with assms(1) Some show "password_hash r = stored \<Longrightarrow> accepts env r (utf8_bytes typed)"
      by (simp add: link_password_hash_def accepts_def)
  next
    case False
    then have typed: "typed = s" using assms(2) Some by (simp add: right_password_def)
    obtain hash where h: "HashPassword (IDKey env) salt (utf8_bytes s) = Some hash" and st: "stored = Some hash"
      using assms(1) Some False by (auto simp: link_password_hash_def split: option.splits)
    obtain sl where sl: "salt = Some sl" using h by (cases salt) (auto simp: HashPassword_def split: if_splits)
    have "VerifyPassword (IDKey env) (utf8_bytes s) hash = Some True"
      by (rule password_accepted(1) [OF h [unfolded sl]]) (rule assms(3))
    then show "password_hash r = stored \<Longrightarrow> accepts env r (utf8_bytes typed)"
      by (simp add: accepts_def st typed)
  qed
qed

lemma create_submit_sends:
  assumes "build_payload syntax_message (mode cp) (kvRows (editor cp)) (form_data cp) = Inr m"
    and "create_submit syntax_message cp = (cp', Some q)"
  shows "\<exists>email. rq_body q = Some (create_body (form_data cp) email m)"
  using assms by (auto simp: create_submit_def Let_def setStatus_def mode_def)

text \<open>C1: 
  What the creator typed is what the recipient sees. A form that the create page accepts; the request that
  the page sends, decoded by the server, created and stored; the link opened by a page that holds its
  token and the right password, with the services answering and before the expiry: the request of that
  page starts a call, the call releases the content, and the answer makes the page display it. Vault is
  assumed to open what it has sealed, the key derivation to return the number of bytes it is asked for.
\<close>

theorem secret_reaches_recipient:
  assumes typed: "build_payload syntax_message (mode cp) (kvRows (editor cp)) (form_data cp) = Inr m"
    and rows: "length (kvRows (editor cp)) \<le> MAX_FIELDS" "plain_keys (kvRows (editor cp))"
    and sent: "create_submit syntax_message cp = (cp', Some q)" "Option.bind (rq_body q) decode_create = Some req"
    and created: "Create env w actorID req table = (table', Inr resp, events)" "table_ok table"
    and vault: "\<And>ct canonical summary. no_ciphertext w = Some ct \<Longrightarrow>
      canonicalPayload req = Some (canonical, summary) \<Longrightarrow> vault_open env ct = Some (JsonText canonical)"
    and kdf: "\<And>p s key. IDKey env p s 3 65536 1 32 = Some key \<Longrightarrow> length key = 32"
    and link: "cs_url resp = AppBaseURL env @ ascii ''/s#'' @ tok" "token p = text_of_bytes tok"
    and password: "right_password (cr_password req) (password_value p)" "go_valid (password_value p)"
    and body: "rq_body (consume_request (token p) (password_value p)) = Some body"
      "utf8_length (stringify body) \<le> 4096"
    and alive: "t1 < cs_expires_at resp div 1000" "t2 < cs_expires_at resp div 1000"
  shows "\<exists>call table'' r. handleConsume True body = Inr call \<and>
    consume_run env [answered t1 l u1, answered t2 l u2, answered t3 l True, answered t4 l u4] call table' =
      (table'', Released (cs_id resp) r, [audit (cs_id resp) [] ''secret.consumed'' ''success'']) \<and>
    displays (reveal_answer (consume_reply (Released (cs_id resp) r)) p) (kept_payload m)"
proof -
  obtain ip tok' where params: "create_params env w actorID req = Inr (ip, tok')"
    and insert: "Insert (no_now w) ip table = Some table'" and cs_id: "cs_id resp = ip_id ip"
    and cs_url: "cs_url resp = AppBaseURL env @ ascii ''/s#'' @ tok'"
    and exp: "cs_expires_at resp = no_time w + ttl env (cr_expires_in_seconds req)"
    by (rule Create_parts [OF created(1)])
  have tok: "tok' = tok" using cs_url link(1) by simp
  note parts = create_params_parts [OF params [unfolded tok]]
  define row where "row = new_row (no_now w) ip"
  have row: "dr_id row = cs_id resp" "expires_at row = cs_expires_at resp div 1000"
    "encrypted_payload row = ip_encrypted_payload ip" "password_hash row = ip_password_hash ip"
    by (simp_all add: row_def new_row_def cs_id exp parts(4))
  have opens: "opens env table' row tok"
    unfolding row_def by (rule inserted_opens [OF created(2) insert parts(2)])
  have accepts: "accepts env row (utf8_bytes (password_value p))"
    by (rule right_password_accepted [OF parts(3) password(1) kdf row(4)])
  have payload: "cr_payload req = decode_payload True (payload_json m)"
    using create_submit_sends [OF typed sent(1)] sent(2) decode_create_body(1) by fastforce
  obtain summary legacy where
    canonical: "canonicalPayload req = Some (marshal_payload_json (kept_payload m), summary)"
    and consumed: "normalizeConsumedPayload (marshal_payload_json (kept_payload m)) =
       Some (marshal_payload_json (kept_payload m), legacy)"
    and shown: "\<And>i q. displays (reveal_answer (consume_reply (Released i
       \<lparr>rs_secret = legacy, rs_payload = marshal_payload_json (kept_payload m)\<rparr>)) q) (kept_payload m)"
    using canonical_shown [OF build_payload_accepted [OF typed rows] payload] by blast
  have opened: "vault_open env (encrypted_payload row) = Some (JsonText (marshal_payload_json (kept_payload m)))"
    using vault [OF create_params_ciphertext [OF params] canonical] by (simp add: row)
  have token: "go_text (token p) = token p" "utf8_bytes (token p) = tok"
    using generated_token_ascii [OF parts(1)] by (simp_all add: link(2) text_of_bytes_valid utf8_ascii)
  have b: "body = obj [(''token'', JStr (token p)), (''password'', JStr (password_value p))]"
    using body(1) by (simp add: consume_request_def link_request_def)
  have call: "handleConsume True body = Inr (arrived tok (utf8_bytes (password_value p)))"
    using page_reaches_service [of "token p" "password_value p"] body(2)
    by (simp add: b token go_text_valid [OF password(2)] arrived_def)
  have "t1 < expires_at row" "t2 < expires_at row" using alive by (simp_all add: row)
  from run_releases [OF opens accepts this opened consumed] call shown show ?thesis by (simp add: row)
qed

definition typed_form :: form where
  "typed_form k = (if k = ''secret_plain'' then Some (js ''ok'') else None)"

definition typed_page :: create_page where
  "typed_page = SecretSubmit.sample_create\<lparr>mode_buttons := [(js ''plain'', True)], form_data := typed_form\<rparr>"

definition typed_request :: create_request where
  "typed_request =
     \<lparr>cr_title = [], cr_description = [], cr_recipient_reference = [], cr_secret = None,
      cr_payload = Some (zero_payload\<lparr>sp_type := js ''text'', sp_text := js ''ok''\<rparr>),
      cr_expires_in_seconds = 86400, cr_password = None, cr_max_failed_attempts = 5\<rparr>"

lemma typed_payload: "canonicalPayload typed_request =
    Some (sample_content, \<lparr>ps_type = js ''text'', ps_field_count = 0, ps_contains_sensitive = False\<rparr>)"
  by (simp add: canonicalPayload_def typed_request_def marshalPayload_def normalizePayload_simps
      marshal_payload_json_def sample_content_def) (simp add: zero_payload_def)

lemma typed_validate: "validateCreate sample_env typed_request (go_stringify sample_content) = None"
  by (simp add: validateCreate_def seconds_duration_def sample_env_def typed_request_def sample_content_def join_def
      text_literals js_append)

lemma typed_created: "Create sample_env DeliverySystem.sample_create [1] typed_request [] =
    ([DeliverySystem.sample_row], Inr sample_response, [audit 7 [1] ''secret.created'' ''success''])"
proof -
  have ttl: "ttl sample_env (cr_expires_in_seconds typed_request) = ttl sample_env (cr_expires_in_seconds sample_request)"
    by (simp add: typed_request_def sample_request_def ttl_def sample_env_def seconds_duration_def)
  have same: "cr_password typed_request = cr_password sample_request" "cr_title typed_request = cr_title sample_request"
    "cr_description typed_request = cr_description sample_request"
    "cr_recipient_reference typed_request = cr_recipient_reference sample_request"
    by (simp_all add: typed_request_def sample_request_def)
  have attempts: "(if cr_max_failed_attempts typed_request \<le> 0 then 5 else nat (cr_max_failed_attempts typed_request)) =
      (if cr_max_failed_attempts sample_request \<le> 0 then 5 else nat (cr_max_failed_attempts sample_request))"
    by (simp add: typed_request_def sample_request_def)
  have "create_params sample_env DeliverySystem.sample_create [1] typed_request =
      create_params sample_env DeliverySystem.sample_create [1] sample_request"
    unfolding create_params_def typed_payload sample_payload_eq option.case prod.case sample_validate typed_validate same
      ttl attempts
    by (rule refl)
  then have "Create sample_env DeliverySystem.sample_create [1] typed_request [] =
      Create sample_env DeliverySystem.sample_create [1] sample_request []"
    by (simp only: Create_def ttl)
  then show ?thesis by (simp only: DeliverySystem.sample_created)
qed

definition recipient_with_link :: recipient_page where
  "recipient_with_link = sample_submitting\<lparr>token := text_of_bytes sample_token\<rparr>"

theorem secret_reaches_recipient_witness:
  "\<exists>call table r. handleConsume True (obj [(''token'', JStr (text_of_bytes sample_token)), (''password'', JStr [])]) = Inr call \<and>
     consume_run sample_env [answered 1 3 True, answered 2 3 True, answered 3 3 True, answered 4 3 True] call
       [DeliverySystem.sample_row] = (table, Released 7 r, [audit 7 [] ''secret.consumed'' ''success'']) \<and>
     displays (reveal_answer (consume_reply (Released 7 r)) recipient_with_link) (kept_payload (TextPayload (js ''ok'')))"
proof -
  let ?body = "obj [(''token'', JStr (text_of_bytes sample_token)), (''password'', JStr [])]"
  have typed: "build_payload (\<lambda>s. s) (mode typed_page) (kvRows (editor typed_page)) (form_data typed_page) =
      Inr (TextPayload (js ''ok''))"
    by (simp add: build_payload_def typed_page_def SecretSubmit.sample_create_def mode_def active_mode_def
        typed_form_def plainPayload_def form_string_def string_or_empty_def or_default_def Let_def
        validateSize_def MAX_SECRET_BYTES_def obj_def join_def text_literals js_append)
  have rows: "length (kvRows (editor typed_page)) \<le> MAX_FIELDS" "plain_keys (kvRows (editor typed_page))"
    by (simp_all add: typed_page_def SecretSubmit.sample_create_def MAX_FIELDS_def plain_keys_def row_key_def
        SecretForm.sample_row_def text_literals)
  obtain cp' q where sent: "create_submit (\<lambda>s. s) typed_page = (cp', Some q)"
    and body: "rq_body q = Some (create_body (form_data typed_page) False (TextPayload (js ''ok'')))"
    using typed
    by (auto simp: create_submit_def Let_def setStatus_def mode_def typed_page_def SecretSubmit.sample_create_def
        deliveryMode_def active_mode_def)
  have "Option.bind (rq_body q) decode_create = Some typed_request"
    unfolding body bind.bind_lunit
    by (simp add: decode_create_def create_body_def obj_def Let_def create_members set_create_member_def
        typed_page_def typed_form_def form_string_def string_or_empty_def decode_string_def decode_int64_def
        form_number_or_def decode_payload_def set_payload_member_def member_own text_literals zero_create_def
        zero_payload_def typed_request_def SecretSubmit.sample_create_def)
  note sent = sent this
  have link_token: "token recipient_with_link = text_of_bytes sample_token"
    by (simp add: recipient_with_link_def)
  have pw: "password_value recipient_with_link = []"
    by (simp add: recipient_with_link_def sample_submitting_def reveal_def sample_ready_facts page_defs)
  have page: "rq_body (consume_request (token recipient_with_link) (password_value recipient_with_link)) = Some ?body"
    "token recipient_with_link = text_of_bytes sample_token" "go_valid (password_value recipient_with_link)"
    "right_password (cr_password typed_request) (password_value recipient_with_link)"
    by (simp_all add: consume_request_def link_request_def link_token pw right_password_def typed_request_def)
  have size: "utf8_length (stringify ?body) \<le> 4096"
  proof -
    have "text_of_bytes sample_token = js ''AAAA''" by (simp add: text_of_bytes_def sample_token_def ascii_def js_def)
    then show ?thesis by (simp add: obj_def join_def text_literals js_append json_quote_js [of "[]", simplified])
  qed
  have table: "table_ok []" by (simp add: table_ok_def)
  have vault: "vault_open sample_env ct = Some (JsonText canonical)"
    if "no_ciphertext DeliverySystem.sample_create = Some ct" "canonicalPayload typed_request = Some (canonical, summary)"
    for ct canonical summary
    using that by (simp add: typed_payload DeliverySystem.sample_create_def sample_env_def)
  have kdf: "length key = 32" if "IDKey sample_env p s 3 65536 1 32 = Some key" for p s key
    using that by (auto simp: sample_env_def sample_idkey_def)
  have link: "cs_url sample_response = AppBaseURL sample_env @ ascii ''/s#'' @ sample_token"
    "cs_expires_at sample_response = 86400000000000" "cs_id sample_response = 7"
    by (simp_all add: sample_response_def sample_env_def)
  show ?thesis
    using secret_reaches_recipient [OF typed rows sent typed_created table vault kdf link(1) page(2) page(4,3) page(1) size,
        where ?t1.0 = 1 and ?t2.0 = 2 and ?t3.0 = 3 and ?t4.0 = 4 and l = 3 and ?u1.0 = True and ?u2.0 = True
        and ?u4.0 = True] link(2,3)
    by simp
qed

end
