(* ===== verification/GoText.thy ===== *)
theory GoText
  imports GoBytes
begin

text \<open>
  More of the Go library on byte strings, as the handlers of \<^verbatim>\<open>internal/http/server.go\<close> use it: \<^verbatim>\<open>EqualFold\<close>,
  \<^verbatim>\<open>TrimSpace\<close>, \<^verbatim>\<open>Contains\<close>, padded base64 and \<^verbatim>\<open>BasicAuth\<close>; and the text form of a UUID, from
  \<^verbatim>\<open>vendor/github.com/google/uuid/uuid.go\<close>.
\<close>

lemma find_someD: "find P xs = Some x \<Longrightarrow> x \<in> set xs \<and> P x"
  by (auto simp: find_Some_iff)

section \<open>Texts of headers\<close>

text \<open>\<^verbatim>\<open>base64.StdEncoding.DecodeString\<close>, for a text without line breaks.\<close>

definition std_decode :: "bytes \<Rightarrow> bytes option" where
  "std_decode s =
     (if length s mod 4 \<noteq> 0 then None
      else
        (let pad = byte_of CHR ''='';
             body = (if 2 \<le> length s \<and> drop (length s - 2) s = [pad, pad] then take (length s - 2) s
                     else if s \<noteq> [] \<and> last s = pad then butlast s else s)
         in b64_decode StdAlphabet body))"

text \<open>\<^verbatim>\<open>BasicAuth\<close>: the scheme in any case, and the first colon separates.\<close>

definition lower_byte :: "byte \<Rightarrow> byte" where
  "lower_byte c = (if 0x41 \<le> unat c \<and> unat c \<le> 0x5A then c + 32 else c)"

definition BasicAuth :: "bytes \<Rightarrow> (bytes \<times> bytes) option" where
  "BasicAuth header =
     (if length header < 6 \<or> map lower_byte (take 6 header) \<noteq> ascii ''basic '' then None
      else
        (case std_decode (drop 6 header) of
           None \<Rightarrow> None
         | Some plain \<Rightarrow>
             (case split2 (byte_of CHR '':'') plain of [user, password] \<Rightarrow> Some (user, password) | _ \<Rightarrow> None)))"

text \<open>
  \<^verbatim>\<open>strings.TrimSpace\<close> on bytes: the UTF-8 encodings of the characters that \<^verbatim>\<open>unicode.IsSpace\<close> accepts are
  stripped at both ends.
\<close>

definition space_codes :: "bytes list" where
  "space_codes = [[0x09], [0x0A], [0x0B], [0x0C], [0x0D], [0x20], [0xC2, 0x85], [0xC2, 0xA0], [0xE1, 0x9A, 0x80],
     [0xE2, 0x80, 0x80], [0xE2, 0x80, 0x81], [0xE2, 0x80, 0x82], [0xE2, 0x80, 0x83], [0xE2, 0x80, 0x84],
     [0xE2, 0x80, 0x85], [0xE2, 0x80, 0x86], [0xE2, 0x80, 0x87], [0xE2, 0x80, 0x88], [0xE2, 0x80, 0x89],
     [0xE2, 0x80, 0x8A], [0xE2, 0x80, 0xA8], [0xE2, 0x80, 0xA9], [0xE2, 0x80, 0xAF], [0xE2, 0x81, 0x9F],
     [0xE3, 0x80, 0x80]]"

function strip_codes :: "bytes list \<Rightarrow> bytes \<Rightarrow> bytes" where
  "strip_codes codes s =
     (case find (\<lambda>c. c \<noteq> [] \<and> length c \<le> length s \<and> take (length c) s = c) codes of
        None \<Rightarrow> s
      | Some c \<Rightarrow> strip_codes codes (drop (length c) s))"
  by pat_completeness auto

termination
  by (relation "measure (\<lambda>(codes, s). length s)")
    (auto dest!: find_someD simp flip: length_greater_0_conv)

declare strip_codes.simps [simp del]

definition trim_bytes :: "bytes \<Rightarrow> bytes" where
  "trim_bytes s = rev (strip_codes (map rev space_codes) (rev (strip_codes space_codes s)))"

text \<open>
  \<^verbatim>\<open>strings.EqualFold\<close> with a lower case text of ASCII letters: each letter in either case, and the long s U+017F for an
  s. The letter k, the other one with such a variant, is in neither of the two texts it is used with.
\<close>

fun equal_fold :: "bytes \<Rightarrow> bytes \<Rightarrow> bool" where
  "equal_fold [] t = (t = [])"
| "equal_fold s [] = False"
| "equal_fold (c # s) (d # t) =
     (if lower_byte c = d then equal_fold s t
      else d = 0x73 \<and> c = 0xC5 \<and> (case s of [] \<Rightarrow> False | e # s' \<Rightarrow> e = 0xBF \<and> equal_fold s' t))"

text \<open>\<^verbatim>\<open>strings.Contains\<close>.\<close>

definition contains :: "bytes \<Rightarrow> bytes \<Rightarrow> bool" where
  "contains s t \<longleftrightarrow> list_ex (\<lambda>i. take (length t) (drop i s) = t) [0..<length s + 1]"

section \<open>UUIDs\<close>

text \<open>The digits of \<^verbatim>\<open>hex.Encode\<close>, from the most significant one.\<close>

definition nibble_digit :: "nat \<Rightarrow> byte" where
  "nibble_digit d = word_of_nat (if d < 10 then 48 + d else 87 + d)"

fun nibble_digits :: "nat \<Rightarrow> nat \<Rightarrow> bytes" where
  "nibble_digits 0 n = []"
| "nibble_digits (Suc k) n = nibble_digit (n div 16 ^ k mod 16) # nibble_digits k n"

text \<open>\<^verbatim>\<open>encodeHex\<close>.\<close>

definition dashed :: "bytes \<Rightarrow> bytes" where
  "dashed s = take 8 s @ byte_of CHR ''-'' # take 4 (drop 8 s) @ byte_of CHR ''-'' # take 4 (drop 12 s) @
     byte_of CHR ''-'' # take 4 (drop 16 s) @ byte_of CHR ''-'' # take 12 (drop 20 s)"

definition uuid_text :: "uuid \<Rightarrow> bytes" where
  "uuid_text u = dashed (nibble_digits 32 (unat u))"

text \<open>The table \<^verbatim>\<open>xvalues\<close>.\<close>

definition xvalue :: "byte \<Rightarrow> nat option" where
  "xvalue c =
     (if 48 \<le> unat c \<and> unat c \<le> 57 then Some (unat c - 48)
      else if 65 \<le> unat c \<and> unat c \<le> 70 then Some (unat c - 55)
      else if 97 \<le> unat c \<and> unat c \<le> 102 then Some (unat c - 87) else None)"

definition nibbles :: "bytes \<Rightarrow> uuid option" where
  "nibbles s = map_option (\<lambda>ds. word_of_nat (foldl (\<lambda>n d. 16 * n + d) 0 ds)) (all_some (map xvalue s))"

definition dashed_value :: "bytes \<Rightarrow> uuid option" where
  "dashed_value s =
     (if s ! 8 \<noteq> byte_of CHR ''-'' \<or> s ! 13 \<noteq> byte_of CHR ''-'' \<or> s ! 18 \<noteq> byte_of CHR ''-'' \<or>
         s ! 23 \<noteq> byte_of CHR ''-'' then None
      else nibbles (take 8 s @ take 4 (drop 9 s) @ take 4 (drop 14 s) @ take 4 (drop 19 s) @ take 12 (drop 24 s)))"

definition uuid_parse :: "bytes \<Rightarrow> uuid option" where
  "uuid_parse s =
     (if length s = 36 then dashed_value s
      else if length s = 45 then
        (if equal_fold (take 9 s) (ascii ''urn:uuid:'') then dashed_value (drop 9 s) else None)
      else if length s = 38 then dashed_value (drop 1 s)
      else if length s = 32 then nibbles s
      else None)"

lemma nibble_value: "d < 16 \<Longrightarrow> xvalue (nibble_digit d) = Some d"
proof -
  assume d: "d < 16"
  then have "unat (nibble_digit d) = (if d < 10 then 48 + d else 87 + d)"
    unfolding nibble_digit_def by (subst unat_of_nat) simp
  with d show ?thesis by (simp add: xvalue_def)
qed

lemma length_nibble_digits [simp]: "length (nibble_digits k n) = k"
  by (induction k) simp_all

lemma nibble_digits_values:
  "\<exists>ds. all_some (map xvalue (nibble_digits k n)) = Some ds \<and>
     (\<forall>a. foldl (\<lambda>n d. 16 * n + d) a ds = a * 16 ^ k + n mod 16 ^ k)"
proof (induction k)
  case (Suc k)
  then obtain ds where ds: "all_some (map xvalue (nibble_digits k n)) = Some ds"
    "\<forall>a. foldl (\<lambda>n d. 16 * n + d) a ds = a * 16 ^ k + n mod 16 ^ k" by blast
  have "n mod 16 ^ Suc k = n div 16 ^ k mod 16 * 16 ^ k + n mod 16 ^ k"
    by (metis add.commute mod_mult2_eq mult.commute power_Suc)
  with ds show ?case by (simp add: nibble_value algebra_simps)
qed simp

lemma nibbles_value: "nibbles (nibble_digits 32 (unat u)) = Some u"
proof -
  obtain ds where ds: "all_some (map xvalue (nibble_digits 32 (unat u))) = Some ds"
    "\<forall>a. foldl (\<lambda>n d. 16 * n + d) a ds = a * 16 ^ 32 + unat u mod 16 ^ 32"
    using nibble_digits_values by blast
  have "unat u < 16 ^ 32" using unsigned_less [where 'a = nat, of u] by simp
  with ds show ?thesis by (simp add: nibbles_def)
qed

lemma dashed_value_dashed: "length s = 32 \<Longrightarrow> dashed_value (dashed s) = nibbles s"
proof -
  assume len: "length s = 32"
  have parts: "take 8 s @ take 4 (drop 8 s) @ take 4 (drop 12 s) @ take 4 (drop 16 s) @ drop 20 s = s"
    using len append_take_drop_id [of 8 s] append_take_drop_id [of 4 "drop 8 s"]
      append_take_drop_id [of 4 "drop 12 s"] append_take_drop_id [of 4 "drop 16 s"] by simp
  show ?thesis
    using len by (simp add: dashed_value_def dashed_def nth_append parts)
qed

lemma uuid_parse_text: "uuid_parse (uuid_text u) = Some u"
proof -
  have "length (dashed s) = 36" if "length s = 32" for s
    using that by (simp add: dashed_def)
  then show ?thesis
    by (simp add: uuid_parse_def uuid_text_def dashed_value_dashed nibbles_value)
qed

lemma uuid_text_chars: "c \<in> set (uuid_text u) \<Longrightarrow> c = byte_of CHR ''-'' \<or> (\<exists>d < 16. c = nibble_digit d)"
proof -
  have "c \<in> set (nibble_digits k n) \<Longrightarrow> \<exists>d < 16. c = nibble_digit d" for k n
  proof (induction k)
    case (Suc k)
    have "n div 16 ^ k mod 16 < 16" by simp
    then have "\<exists>d < 16. nibble_digit (n div 16 ^ k mod 16) = nibble_digit d" by blast
    with Suc show ?case by (auto simp del: mod_div_trivial)
  qed simp
  then show "c \<in> set (uuid_text u) \<Longrightarrow> c = byte_of CHR ''-'' \<or> (\<exists>d < 16. c = nibble_digit d)"
    by (auto simp: uuid_text_def dashed_def dest!: in_set_takeD in_set_dropD)
qed

lemma uuid_text_no_slash: "byte_of CHR ''/'' \<notin> set (uuid_text u)"
proof
  assume "byte_of CHR ''/'' \<in> set (uuid_text u)"
  from uuid_text_chars [OF this] obtain d where d: "d < 16" "byte_of CHR ''/'' = nibble_digit d"
    by (auto simp: byte_of_def)
  from nibble_value [OF d(1)] have "xvalue (byte_of CHR ''/'') = Some d" by (simp add: d(2))
  then show False by (simp add: xvalue_def byte_of_def)
qed

end
