(* ===== verification/ServerSession.thy ===== *)
theory ServerSession
  imports DeliveryService GoText
begin

text \<open>
  The sessions of the administration: \<^verbatim>\<open>internal/auth/session.go\<close> over the tables \<^verbatim>\<open>users\<close> and \<^verbatim>\<open>user_sessions\<close>
  of \<^verbatim>\<open>migrations/000003_create_users_and_sessions.sql\<close>, with the statements of \<^verbatim>\<open>internal/auth/users.go\<close> that
  sessions depend on. \<^verbatim>\<open>cmd/secureshare/main.go\<close> gives the manager the database as its store; its map in memory is not
  used and is left out. The cookie is its value; HMAC-SHA-256 is an argument, random bytes are inputs. Times are
  microseconds.
\<close>

section \<open>Roles\<close>

definition PermissionsForRole :: "string \<Rightarrow> string list" where
  "PermissionsForRole role =
     (if role = ''admin'' then
        [''dashboard:read'', ''system:read'', ''secret:create'', ''secret:read-metadata'', ''secret:revoke'',
         ''secret:manage-protection'', ''user:manage'', ''api-client:manage'', ''email-settings:manage'',
         ''public-experience:manage'', ''email:send'', ''system:cleanup'', ''api-docs:read'', ''account:manage'']
      else if role = ''developer'' then
        [''dashboard:read'', ''secret:create'', ''secret:read-metadata'', ''secret:revoke'',
         ''secret:manage-protection'', ''email:send'', ''api-docs:read'', ''account:manage'']
      else if role = ''viewer'' then
        [''dashboard:read'', ''system:read'', ''secret:read-metadata'', ''api-docs:read'', ''account:manage'']
      else [])"

text \<open>A \<^verbatim>\<open>map[string]bool\<close>, false where nothing is stored.\<close>

definition permissionsMap :: "string list \<Rightarrow> string \<Rightarrow> bool" where
  "permissionsMap values p = List.member values p"

section \<open>The tables\<close>

record user_row =
  us_id :: uuid
  us_username :: bytes
  us_email :: bytes
  us_password_hash :: bytes
  us_role :: string
  us_status :: string
  us_force_password_change :: bool
  us_theme_preference :: string
  us_last_login_at :: "int option"
  us_password_changed_at :: "int option"
  us_created_at :: int
  us_updated_at :: int

record session_row =
  sn_id :: uuid
  sn_user_id :: uuid
  sn_token_hash :: bytes
  sn_expires_at :: int
  sn_last_seen_at :: int
  sn_created_at :: int
  sn_revoked_at :: "int option"

record user_db =
  ub_users :: "user_row list"
  ub_sessions :: "session_row list"

section \<open>Statements\<close>

text \<open>\<open>None\<close> when a constraint refuses the row.\<close>

definition insert_session :: "int \<Rightarrow> uuid \<Rightarrow> uuid \<Rightarrow> bytes \<Rightarrow> int \<Rightarrow> int \<Rightarrow> user_db \<Rightarrow> user_db \<times> bool" where
  "insert_session db_now link userID tokenHash expiresAt now db =
     (if link \<in> sn_id ` set (ub_sessions db) \<or> userID \<notin> us_id ` set (ub_users db) \<or>
         tokenHash \<in> sn_token_hash ` set (ub_sessions db) \<or> length tokenHash \<noteq> 32
      then (db, False)
      else (db\<lparr>ub_sessions := ub_sessions db @
              [\<lparr>sn_id = link, sn_user_id = userID, sn_token_hash = tokenHash, sn_expires_at = expiresAt,
                sn_last_seen_at = now, sn_created_at = db_now, sn_revoked_at = None\<rparr>]\<rparr>, True))"

text \<open>The new id is random, \<open>None\<close> when it cannot be read; the result is the id of the row.\<close>

definition CreateSession ::
  "db_reply \<Rightarrow> int \<Rightarrow> uuid option \<Rightarrow> uuid \<Rightarrow> bytes \<Rightarrow> int \<Rightarrow> int \<Rightarrow> user_db \<Rightarrow> user_db \<times> uuid option" where
  "CreateSession reply db_now new_id userID tokenHash expiresAt now db =
     (case new_id of
        None \<Rightarrow> (db, None)
      | Some link \<Rightarrow>
          (case db_call reply (insert_session db_now link userID tokenHash expiresAt now db) db of
             (db', Some True) \<Rightarrow> (db', Some link)
           | (db', _) \<Rightarrow> (db', None)))"

definition idle_seconds :: "int \<Rightarrow> int" where
  "idle_seconds idleTimeout =
     (if idleTimeout div 1000000 \<le> 0 then 24 * 3600 * 365 else idleTimeout div 1000000)"

text \<open>The row of the join with \<^verbatim>\<open>users\<close>.\<close>

definition active_user :: "user_db \<Rightarrow> session_row \<Rightarrow> user_row option" where
  "active_user db n = find (\<lambda>u. us_id u = sn_user_id n \<and> us_status u = ''active'') (ub_users db)"

definition session_live :: "int \<Rightarrow> int \<Rightarrow> bytes \<Rightarrow> user_db \<Rightarrow> session_row \<Rightarrow> bool" where
  "session_live now idleTimeout tokenHash db n \<longleftrightarrow>
     active_user db n \<noteq> None \<and> sn_token_hash n = tokenHash \<and> sn_revoked_at n = None \<and> now < sn_expires_at n \<and>
     now - 1000000 * idle_seconds idleTimeout < sn_last_seen_at n"

definition SessionByHash ::
  "bytes \<Rightarrow> int \<Rightarrow> int \<Rightarrow> user_db \<Rightarrow> user_db \<times> (user_row \<times> session_row) option" where
  "SessionByHash tokenHash now idleTimeout db =
     (let live = session_live now idleTimeout tokenHash db;
          seen = (\<lambda>n. n\<lparr>sn_last_seen_at := now\<rparr>)
      in (db\<lparr>ub_sessions := map (\<lambda>n. if live n then seen n else n) (ub_sessions db)\<rparr>,
          case find live (ub_sessions db) of
            None \<Rightarrow> None
          | Some n \<Rightarrow> map_option (\<lambda>u. (u, seen n)) (active_user db n)))"

definition revoke_where :: "int \<Rightarrow> (session_row \<Rightarrow> bool) \<Rightarrow> user_db \<Rightarrow> user_db" where
  "revoke_where now P db = db\<lparr>ub_sessions :=
     map (\<lambda>n. if P n \<and> sn_revoked_at n = None then n\<lparr>sn_revoked_at := Some now\<rparr> else n) (ub_sessions db)\<rparr>"

definition RevokeSession :: "int \<Rightarrow> bytes \<Rightarrow> user_db \<Rightarrow> user_db" where
  "RevokeSession now tokenHash = revoke_where now (\<lambda>n. sn_token_hash n = tokenHash)"

definition store_RevokeOtherSessions :: "int \<Rightarrow> uuid \<Rightarrow> bytes \<Rightarrow> user_db \<Rightarrow> user_db" where
  "store_RevokeOtherSessions now userID currentHash =
     revoke_where now (\<lambda>n. sn_user_id n = userID \<and> sn_token_hash n \<noteq> currentHash)"

text \<open>\<^verbatim>\<open>UPDATE users ... WHERE id = $1\<close>; the trigger sets \<open>updated_at\<close>.\<close>

definition update_user :: "int \<Rightarrow> uuid \<Rightarrow> (user_row \<Rightarrow> user_row) \<Rightarrow> user_db \<Rightarrow> user_db" where
  "update_user now link f db = db\<lparr>ub_users :=
     map (\<lambda>u. if us_id u = link then (f u)\<lparr>us_updated_at := now\<rparr> else u) (ub_users db)\<rparr>"

definition SetPassword ::
  "idkey \<Rightarrow> db_reply \<Rightarrow> int \<Rightarrow> bytes option \<Rightarrow> uuid \<Rightarrow> bytes \<Rightarrow> bool \<Rightarrow> user_db \<Rightarrow> user_db \<times> bool" where
  "SetPassword kdf reply now salt link password forceChange db =
     (case HashPassword kdf salt password of
        None \<Rightarrow> (db, False)
      | Some hash \<Rightarrow>
          (let (db', done) = db_call reply (update_user now link (\<lambda>u. u\<lparr>us_password_hash := hash,
                 us_password_changed_at := Some now, us_force_password_change := forceChange\<rparr>) db, ()) db
           in (db', done \<noteq> None)))"

text \<open>
  The statements of \<^verbatim>\<open>UpdateUser\<close>, \<^verbatim>\<open>SetThemePreference\<close> and \<^verbatim>\<open>TouchLastLogin\<close> on a row: any columns but its id.
\<close>

definition keeps_id :: "(user_row \<Rightarrow> user_row) \<Rightarrow> bool" where
  "keeps_id f \<longleftrightarrow> (\<forall>u. us_id (f u) = us_id u)"

section \<open>The session manager\<close>

record session =
  ss_ID :: bytes
  ss_SessionID :: uuid
  ss_UserID :: uuid
  ss_ActorID :: bytes
  ss_Username :: bytes
  ss_Email :: bytes
  ss_Role :: string
  ss_ThemePreference :: string
  ss_Permissions :: "string \<Rightarrow> bool"
  ss_ExpiresAt :: int
  ss_LastSeenAt :: int

record session_manager =
  sm_secret :: bytes
  sm_csrfSecret :: bytes
  sm_ttl :: int
  sm_idleTimeout :: int
  sm_hmac :: "bytes \<Rightarrow> bytes \<Rightarrow> bytes"

definition sign :: "session_manager \<Rightarrow> bytes \<Rightarrow> bytes" where
  "sign m link = link @ byte_of CHR ''.'' # b64_encode URLAlphabet (sm_hmac m (sm_secret m) link)"

text \<open>The id of a cookie whose signature is right.\<close>

definition unsign :: "session_manager \<Rightarrow> bytes \<Rightarrow> bytes option" where
  "unsign m cookie =
     (case split2 (byte_of CHR ''.'') cookie of
        [link, sig] \<Rightarrow> if link = [] \<or> sig = [] then None else if cookie = sign m link then Some link else None
      | _ \<Rightarrow> None)"

definition tokenHash :: "session_manager \<Rightarrow> bytes \<Rightarrow> bytes" where
  "tokenHash m link = sm_hmac m (sm_secret m) (ascii ''session-token:'' @ link)"

definition CSRFToken :: "session_manager \<Rightarrow> bytes \<Rightarrow> bytes" where
  "CSRFToken m sessionID = b64_encode URLAlphabet (sm_hmac m (sm_csrfSecret m) sessionID)"

definition ValidCSRF :: "session_manager \<Rightarrow> session \<Rightarrow> bytes \<Rightarrow> bool" where
  "ValidCSRF m session token = (if token = [] then False else token = CSRFToken m (ss_ID session))"

definition session_of :: "bytes \<Rightarrow> user_row \<Rightarrow> uuid \<Rightarrow> int \<Rightarrow> int \<Rightarrow> session" where
  "session_of link user sessionID expiresAt lastSeenAt =
     \<lparr>ss_ID = link, ss_SessionID = sessionID, ss_UserID = us_id user, ss_ActorID = us_username user,
      ss_Username = us_username user, ss_Email = us_email user, ss_Role = us_role user,
      ss_ThemePreference = us_theme_preference user,
      ss_Permissions = permissionsMap (PermissionsForRole (us_role user)), ss_ExpiresAt = expiresAt,
      ss_LastSeenAt = lastSeenAt\<rparr>"

text \<open>What the surroundings decide when a session begins.\<close>

record session_oracle =
  so_random :: "bytes option"
  so_id :: "uuid option"
  so_reply :: db_reply
  so_now :: int
  so_db_now :: int

text \<open>The cookie is set when there is a session, \<open>sign\<close> gives its value.\<close>

definition CreateForUser ::
  "session_manager \<Rightarrow> session_oracle \<Rightarrow> user_row \<Rightarrow> user_db \<Rightarrow> user_db \<times> session option" where
  "CreateForUser m w user db =
     (case so_random w of
        None \<Rightarrow> (db, None)
      | Some raw \<Rightarrow>
          (let link = b64_encode URLAlphabet raw; expiresAt = so_now w + sm_ttl m
           in case CreateSession (so_reply w) (so_db_now w) (so_id w) (us_id user) (tokenHash m link) expiresAt
                     (so_now w) db of
                (db', None) \<Rightarrow> (db', None)
              | (db', Some sessionID) \<Rightarrow> (db', Some (session_of link user sessionID expiresAt (so_now w)))))"

definition FromRequest ::
  "session_manager \<Rightarrow> db_reply \<Rightarrow> int \<Rightarrow> bytes option \<Rightarrow> user_db \<Rightarrow> user_db \<times> session option" where
  "FromRequest m reply now cookie db =
     (case cookie of
        None \<Rightarrow> (db, None)
      | Some c \<Rightarrow>
          (case unsign m c of
             None \<Rightarrow> (db, None)
           | Some link \<Rightarrow>
               (case db_call reply (SessionByHash (tokenHash m link) now (sm_idleTimeout m) db) db of
                  (db', Some (Some (user, n))) \<Rightarrow>
                    (db', Some (session_of link user (sn_id n) (sn_expires_at n) (sn_last_seen_at n)))
                | (db', _) \<Rightarrow> (db', None))))"

text \<open>The error of the store is dropped; the cookie is deleted in any case.\<close>

definition Destroy :: "session_manager \<Rightarrow> db_reply \<Rightarrow> int \<Rightarrow> bytes option \<Rightarrow> user_db \<Rightarrow> user_db" where
  "Destroy m reply now cookie db =
     (case cookie of
        None \<Rightarrow> db
      | Some c \<Rightarrow>
          (case unsign m c of
             None \<Rightarrow> db
           | Some link \<Rightarrow> fst (db_call reply (RevokeSession now (tokenHash m link) db, ()) db)))"

text \<open>The result is whether the store reported no error.\<close>

definition RevokeOtherSessions ::
  "session_manager \<Rightarrow> db_reply \<Rightarrow> int \<Rightarrow> bytes \<Rightarrow> uuid \<Rightarrow> user_db \<Rightarrow> user_db \<times> bool" where
  "RevokeOtherSessions m reply now sessionID userID db =
     (let (db', done) = db_call reply (store_RevokeOtherSessions now userID (tokenHash m sessionID) db, ()) db
      in (db', done \<noteq> None))"


section \<open>Facts\<close>

lemma dot_not_url: "byte_of CHR ''.'' \<notin> set URLAlphabet"
  by code_simp

lemma b64_no_dot: "byte_of CHR ''.'' \<notin> set (b64_encode URLAlphabet s)"
  using b64_encode_set [OF good_alphabets(2), of s] dot_not_url by blast

lemma b64_encode_Nil [simp]: "b64_encode al s = [] \<longleftrightarrow> s = []"
  by (cases "(al, s)" rule: b64_encode.cases) (auto simp: Let_def)

lemma unsign_sign:
  assumes "link \<noteq> []" and "byte_of CHR ''.'' \<notin> set link" and "sm_hmac m (sm_secret m) link \<noteq> []"
  shows "unsign m (sign m link) = Some link"
  using assms split2_append [OF assms(2)] by (simp add: unsign_def sign_def)

lemma unsign_signed: "unsign m cookie = Some link \<Longrightarrow> cookie = sign m link \<and> link \<noteq> []"
  by (auto simp: unsign_def split: list.splits if_splits)

lemma db_call_snd: "snd (db_call reply r s) = Some x \<Longrightarrow> x = snd r \<and> fst (db_call reply r s) = fst r"
  by (auto simp: db_call_def split: db_reply.splits)

lemma db_call_pair: "db_call reply r s = (s', Some x) \<Longrightarrow> s' = fst r \<and> x = snd r"
  by (auto simp: db_call_def split: db_reply.splits)

lemma db_call_fst: "P (fst r) \<Longrightarrow> P s \<Longrightarrow> P (fst (db_call reply r s))"
  by (auto simp: db_call_def split: db_reply.splits)

section \<open>A session ends for good\<close>

text \<open>Everything that the server does with the two tables.\<close>

inductive session_step :: "session_manager \<Rightarrow> user_db \<Rightarrow> user_db \<Rightarrow> bool" for m :: session_manager where
  ss_create: "session_step m db (fst (CreateForUser m w user db))"
| ss_request: "session_step m db (fst (FromRequest m reply now cookie db))"
| ss_destroy: "session_step m db (Destroy m reply now cookie db)"
| ss_others: "session_step m db (fst (RevokeOtherSessions m reply now sessionID userID db))"
| ss_user: "keeps_id f \<Longrightarrow> session_step m db (update_user now link f db)"
| ss_new_user: "us_id u \<notin> us_id ` set (ub_users db) \<Longrightarrow> session_step m db (db\<lparr>ub_users := ub_users db @ [u]\<rparr>)"

text \<open>There was a session of that hash, and it is revoked.\<close>

definition session_over :: "bytes \<Rightarrow> user_db \<Rightarrow> bool" where
  "session_over h db \<longleftrightarrow> h \<in> sn_token_hash ` set (ub_sessions db) \<and>
     (\<forall>n \<in> set (ub_sessions db). sn_token_hash n = h \<longrightarrow> sn_revoked_at n \<noteq> None)"

lemma over_insert:
  "session_over h db \<Longrightarrow> session_over h (fst (insert_session db_now link userID th expiresAt now db))"
  by (auto simp: session_over_def insert_session_def)

lemma over_map:
  assumes "\<And>n. sn_token_hash (f n) = sn_token_hash n"
    and "\<And>n. sn_revoked_at n \<noteq> None \<Longrightarrow> sn_revoked_at (f n) \<noteq> None" and "session_over h db"
  shows "session_over h (db\<lparr>ub_sessions := map f (ub_sessions db)\<rparr>)"
proof -
  have "sn_token_hash ` f ` set (ub_sessions db) = sn_token_hash ` set (ub_sessions db)"
    by (simp add: image_image assms(1))
  moreover have "sn_revoked_at (f n) \<noteq> None" if "n \<in> set (ub_sessions db)" "sn_token_hash (f n) = h" for n
    using assms that by (simp add: session_over_def)
  ultimately show ?thesis using assms(3) by (simp add: session_over_def)
qed

lemma over_seen: "session_over h db \<Longrightarrow> session_over h (fst (SessionByHash th now idle db))"
  unfolding SessionByHash_def Let_def fst_conv by (rule over_map) simp_all

lemma over_revoke: "session_over h db \<Longrightarrow> session_over h (revoke_where now P db)"
  unfolding revoke_where_def by (rule over_map) simp_all

lemma over_users [simp]: "session_over h (db\<lparr>ub_users := us\<rparr>) = session_over h db"
  by (simp add: session_over_def)

text \<open>What an operation does to the tables, if anything.\<close>

lemma db_call_either: "fst (db_call reply r s) = s \<or> fst (db_call reply r s) = fst r"
  by (auto simp: db_call_def split: db_reply.split)

lemma CreateSession_cases:
  "fst (CreateSession reply dn new_id userID th e now db) = db \<or>
   (\<exists>link. fst (CreateSession reply dn new_id userID th e now db) =
      fst (insert_session dn link userID th e now db))"
proof (cases new_id)
  case (Some link)
  then have "fst (CreateSession reply dn new_id userID th e now db) =
      fst (db_call reply (insert_session dn link userID th e now db) db)"
    by (simp add: CreateSession_def split: prod.split option.split bool.split)
  then show ?thesis using db_call_either [of reply "insert_session dn link userID th e now db" db] by metis
qed (simp add: CreateSession_def)

lemma CreateForUser_cases:
  "fst (CreateForUser m w user db) = db \<or>
   (\<exists>raw link. so_random w = Some raw \<and> fst (CreateForUser m w user db) = fst (insert_session (so_db_now w) link
      (us_id user) (tokenHash m (b64_encode URLAlphabet raw)) (so_now w + sm_ttl m) (so_now w) db))"
proof (cases "so_random w")
  case (Some raw)
  then have "fst (CreateForUser m w user db) = fst (CreateSession (so_reply w) (so_db_now w) (so_id w)
      (us_id user) (tokenHash m (b64_encode URLAlphabet raw)) (so_now w + sm_ttl m) (so_now w) db)"
    by (simp add: CreateForUser_def Let_def split: prod.split option.split)
  with Some CreateSession_cases show ?thesis by metis
qed (simp add: CreateForUser_def)

lemma FromRequest_cases:
  "fst (FromRequest m reply now cookie db) = db \<or>
   (\<exists>link. fst (FromRequest m reply now cookie db) =
      fst (SessionByHash (tokenHash m link) now (sm_idleTimeout m) db))"
proof (cases "Option.bind cookie (unsign m)")
  case (Some link)
  then obtain c where "cookie = Some c" "unsign m c = Some link" by (auto simp: bind_eq_Some_conv)
  then have "fst (FromRequest m reply now cookie db) =
      fst (db_call reply (SessionByHash (tokenHash m link) now (sm_idleTimeout m) db) db)"
    by (simp add: FromRequest_def split: prod.split option.split)
  then show ?thesis using db_call_either [of reply "SessionByHash (tokenHash m link) now (sm_idleTimeout m) db" db] by metis
qed (auto simp: FromRequest_def bind_eq_None_conv split: option.split)

lemma Destroy_cases:
  "Destroy m reply now cookie db = db \<or> (\<exists>P. Destroy m reply now cookie db = revoke_where now P db)"
  using db_call_either by (fastforce simp: Destroy_def RevokeSession_def split: option.split)

lemma RevokeOther_cases:
  "fst (RevokeOtherSessions m reply now sessionID userID db) = db \<or>
   (\<exists>P. fst (RevokeOtherSessions m reply now sessionID userID db) = revoke_where now P db)"
  using db_call_either [of reply "(store_RevokeOtherSessions now userID (tokenHash m sessionID) db, ())" db]
  by (auto simp: RevokeOtherSessions_def store_RevokeOtherSessions_def case_prod_beta Let_def)

lemma over_step: "session_step m db db' \<Longrightarrow> session_over h db \<Longrightarrow> session_over h db'"
proof (induction rule: session_step.induct)
  case (ss_create db w user)
  then show ?case using CreateForUser_cases [of m w user db] by (auto intro: over_insert)
next
  case (ss_request db reply now cookie)
  then show ?case using FromRequest_cases [of m reply now cookie db] by (auto intro: over_seen)
next
  case (ss_destroy db reply now cookie)
  then show ?case using Destroy_cases [of m reply now cookie db] by (auto intro: over_revoke)
next
  case (ss_others db reply now sessionID userID)
  then show ?case using RevokeOther_cases [of m reply now sessionID userID db] by (auto intro: over_revoke)
qed (simp_all add: update_user_def)

lemma over_steps: "(session_step m)\<^sup>*\<^sup>* db db' \<Longrightarrow> session_over h db \<Longrightarrow> session_over h db'"
  by (induction rule: rtranclp_induct) (auto intro: over_step)

lemma over_refused:
  assumes "session_over (tokenHash m link) db" and "unsign m c = Some link"
  shows "snd (FromRequest m reply now (Some c) db) = None"
proof -
  have "find (session_live now (sm_idleTimeout m) (tokenHash m link) db) (ub_sessions db) = None"
    using assms(1) by (auto simp: find_None_iff session_over_def session_live_def)
  then have "snd (SessionByHash (tokenHash m link) now (sm_idleTimeout m) db) = None"
    by (simp add: SessionByHash_def Let_def)
  with assms(2) show ?thesis
    by (auto simp: FromRequest_def split: prod.split option.split dest!: db_call_pair)
qed

lemma accepted_row:
  assumes "snd (FromRequest m reply now cookie db) = Some s"
  obtains link n u where "cookie = Some (sign m link)" "unsign m (sign m link) = Some link"
    "n \<in> set (ub_sessions db)" "session_live now (sm_idleTimeout m) (tokenHash m link) db n"
    "active_user db n = Some u" "s = session_of link u (sn_id n) (sn_expires_at n) now"
proof -
  from assms obtain c link db' u n' where c: "cookie = Some c" "unsign m c = Some link"
    and call: "db_call reply (SessionByHash (tokenHash m link) now (sm_idleTimeout m) db) db = (db', Some (Some (u, n')))"
    and s: "s = session_of link u (sn_id n') (sn_expires_at n') (sn_last_seen_at n')"
    by (auto simp: FromRequest_def split: option.splits prod.splits)
  from db_call_pair [OF call] have "snd (SessionByHash (tokenHash m link) now (sm_idleTimeout m) db) = Some (u, n')"
    by simp
  then obtain n where n: "find (session_live now (sm_idleTimeout m) (tokenHash m link) db) (ub_sessions db) = Some n"
    "active_user db n = Some u" "n' = n\<lparr>sn_last_seen_at := now\<rparr>"
    by (auto simp: SessionByHash_def Let_def split: option.splits)
  from find_someD [OF n(1)] n(2,3) c s that [of link n u] unsign_signed [OF c(2)] show ?thesis by auto
qed


text \<open>The tables are keyed as their constraints say.\<close>

definition user_db_ok :: "user_db \<Rightarrow> bool" where
  "user_db_ok db \<longleftrightarrow> distinct (map sn_token_hash (ub_sessions db)) \<and> distinct (map us_id (ub_users db))"

lemma ok_map:
  "(\<And>n. sn_token_hash (f n) = sn_token_hash n) \<Longrightarrow>
   user_db_ok (db\<lparr>ub_sessions := map f (ub_sessions db)\<rparr>) = user_db_ok db"
  by (simp add: user_db_ok_def comp_def)

lemma ok_insert: "user_db_ok db \<Longrightarrow> user_db_ok (fst (insert_session dn link userID th e now db))"
  by (auto simp: user_db_ok_def insert_session_def)

lemma ok_seen: "user_db_ok (fst (SessionByHash th now idle db)) = user_db_ok db"
  unfolding SessionByHash_def Let_def fst_conv by (rule ok_map) simp

lemma ok_revoke: "user_db_ok (revoke_where now P db) = user_db_ok db"
  unfolding revoke_where_def by (rule ok_map) simp

lemma ok_update: "keeps_id f \<Longrightarrow> user_db_ok (update_user now link f db) = user_db_ok db"
proof -
  assume "keeps_id f"
  then have "map us_id (ub_users (update_user now link f db)) = map us_id (ub_users db)"
    by (simp add: update_user_def keeps_id_def)
  moreover have "ub_sessions (update_user now link f db) = ub_sessions db" by (simp add: update_user_def)
  ultimately show ?thesis unfolding user_db_ok_def by metis
qed

lemma ok_step: "session_step m db db' \<Longrightarrow> user_db_ok db \<Longrightarrow> user_db_ok db'"
proof (induction rule: session_step.induct)
  case (ss_create db w user)
  then show ?case using CreateForUser_cases [of m w user db] by (auto intro: ok_insert)
next
  case (ss_request db reply now cookie)
  then show ?case using FromRequest_cases [of m reply now cookie db] by (auto simp: ok_seen)
next
  case (ss_destroy db reply now cookie)
  then show ?case using Destroy_cases [of m reply now cookie db] by (auto simp: ok_revoke)
next
  case (ss_others db reply now sessionID userID)
  then show ?case using RevokeOther_cases [of m reply now sessionID userID db] by (auto simp: ok_revoke)
next
  case (ss_user f db now link)
  then show ?case by (simp add: ok_update)
qed (simp add: user_db_ok_def)

text \<open>The session of a hash: whose it is and when it ends at the latest, whatever happens.\<close>

definition session_is :: "bytes \<Rightarrow> uuid \<Rightarrow> int \<Rightarrow> user_db \<Rightarrow> bool" where
  "session_is h userID expiresAt db \<longleftrightarrow> h \<in> sn_token_hash ` set (ub_sessions db) \<and>
     (\<forall>n \<in> set (ub_sessions db). sn_token_hash n = h \<longrightarrow> sn_user_id n = userID \<and> sn_expires_at n = expiresAt)"

lemma is_map:
  assumes "\<And>n. sn_token_hash (f n) = sn_token_hash n \<and> sn_user_id (f n) = sn_user_id n \<and>
    sn_expires_at (f n) = sn_expires_at n" and "session_is h u e db"
  shows "session_is h u e (db\<lparr>ub_sessions := map f (ub_sessions db)\<rparr>)"
proof -
  have "sn_token_hash ` f ` set (ub_sessions db) = sn_token_hash ` set (ub_sessions db)"
    by (simp add: image_image assms(1))
  with assms show ?thesis by (simp add: session_is_def)
qed

lemma is_insert: "session_is h u e db \<Longrightarrow> session_is h u e (fst (insert_session dn link userID th x now db))"
  by (auto simp: session_is_def insert_session_def)

lemma is_seen: "session_is h u e db \<Longrightarrow> session_is h u e (fst (SessionByHash th now idle db))"
  unfolding SessionByHash_def Let_def fst_conv by (rule is_map) simp_all

lemma is_revoke: "session_is h u e db \<Longrightarrow> session_is h u e (revoke_where now P db)"
  unfolding revoke_where_def by (rule is_map) simp_all

lemma is_step: "session_step m db db' \<Longrightarrow> session_is h u e db \<Longrightarrow> session_is h u e db'"
proof (induction rule: session_step.induct)
  case (ss_create db w user)
  then show ?case using CreateForUser_cases [of m w user db] by (auto intro: is_insert)
next
  case (ss_request db reply now cookie)
  then show ?case using FromRequest_cases [of m reply now cookie db] by (auto intro: is_seen)
next
  case (ss_destroy db reply now cookie)
  then show ?case using Destroy_cases [of m reply now cookie db] by (auto intro: is_revoke)
next
  case (ss_others db reply now sessionID userID)
  then show ?case using RevokeOther_cases [of m reply now sessionID userID db] by (auto intro: is_revoke)
qed (simp_all add: session_is_def update_user_def)

lemma is_steps: "(session_step m)\<^sup>*\<^sup>* db db' \<Longrightarrow> session_is h u e db \<Longrightarrow> session_is h u e db'"
  by (induction rule: rtranclp_induct) (auto intro: is_step)

lemma accepted_is:
  assumes "user_db_ok db" and "snd (FromRequest m reply now (Some c) db) = Some s"
  shows "c = sign m (ss_ID s)" "unsign m c = Some (ss_ID s)" "now < ss_ExpiresAt s"
    "session_is (tokenHash m (ss_ID s)) (ss_UserID s) (ss_ExpiresAt s) db"
proof -
  from accepted_row [OF assms(2)] obtain link n u where row: "c = sign m link" "unsign m (sign m link) = Some link"
    "n \<in> set (ub_sessions db)" "session_live now (sm_idleTimeout m) (tokenHash m link) db n"
    "active_user db n = Some u" "s = session_of link u (sn_id n) (sn_expires_at n) now" by auto
  from row(5) have u: "us_id u = sn_user_id n" unfolding active_user_def by (drule_tac find_someD) simp
  have hash: "sn_token_hash n = tokenHash m link" "now < sn_expires_at n" using row(4) by (simp_all add: session_live_def)
  have "inj_on sn_token_hash (set (ub_sessions db))"
    using assms(1) by (auto simp: user_db_ok_def distinct_map)
  then have only: "k = n" if "k \<in> set (ub_sessions db)" "sn_token_hash k = tokenHash m link" for k
    using that row(3) hash(1) by (metis inj_onD)
  show "c = sign m (ss_ID s)" "unsign m c = Some (ss_ID s)" "now < ss_ExpiresAt s"
    using row hash by (simp_all add: session_of_def)
  show "session_is (tokenHash m (ss_ID s)) (ss_UserID s) (ss_ExpiresAt s) db"
  proof -
    have s: "ss_ID s = link" "ss_UserID s = sn_user_id n" "ss_ExpiresAt s = sn_expires_at n"
      using row(6) u by (simp_all add: session_of_def)
    have "tokenHash m link \<in> sn_token_hash ` set (ub_sessions db)" using row(3) hash(1) by (metis imageI)
    with only show ?thesis unfolding session_is_def s by blast
  qed
qed

lemma over_where:
  assumes "session_is h u e db" and "\<And>n. sn_token_hash n = h \<Longrightarrow> sn_user_id n = u \<Longrightarrow> P n"
  shows "session_over h (revoke_where now P db)"
proof -
  define f where "f n = (if P n \<and> sn_revoked_at n = None then n\<lparr>sn_revoked_at := Some now\<rparr> else n)" for n
  have f: "sn_token_hash (f n) = sn_token_hash n" for n by (simp add: f_def)
  have "sn_token_hash ` f ` set (ub_sessions db) = sn_token_hash ` set (ub_sessions db)"
    by (simp add: image_image f)
  moreover have "sn_revoked_at (f n) \<noteq> None" if "n \<in> set (ub_sessions db)" "sn_token_hash n = h" for n
    using assms that by (simp add: session_is_def f_def)
  moreover have "ub_sessions (revoke_where now P db) = map f (ub_sessions db)"
    by (simp add: revoke_where_def f_def)
  ultimately show ?thesis
    using assms(1) by (simp add: session_is_def session_over_def f)
qed

lemma over_Revoke: "session_is h u e db \<Longrightarrow> session_over h (RevokeSession now h db)"
  unfolding RevokeSession_def by (erule over_where)

lemma over_Others:
  "session_is h u e db \<Longrightarrow> h \<noteq> current \<Longrightarrow> session_over h (store_RevokeOtherSessions now u current db)"
  unfolding store_RevokeOtherSessions_def by (erule over_where) simp


lemma find_only:
  assumes "x \<in> set xs" and "P x" and "\<And>y. y \<in> set xs \<Longrightarrow> P y \<Longrightarrow> y = x"
  shows "find P xs = Some x"
proof (cases "find P xs")
  case None
  with assms(1,2) show ?thesis by (simp add: find_None_iff)
next
  case (Some y)
  with find_someD [OF this] assms(3) [of y] show ?thesis by simp
qed

lemma CreateForUser_some:
  assumes "CreateForUser m w user db = (db', Some s)"
  obtains raw sessionID where "so_random w = Some raw"
    "insert_session (so_db_now w) sessionID (us_id user) (tokenHash m (b64_encode URLAlphabet raw))
       (so_now w + sm_ttl m) (so_now w) db = (db', True)"
    "s = session_of (b64_encode URLAlphabet raw) user sessionID (so_now w + sm_ttl m) (so_now w)"
proof -
  from assms obtain raw sessionID where raw: "so_random w = Some raw"
    and create: "CreateSession (so_reply w) (so_db_now w) (so_id w) (us_id user)
      (tokenHash m (b64_encode URLAlphabet raw)) (so_now w + sm_ttl m) (so_now w) db = (db', Some sessionID)"
    and s: "s = session_of (b64_encode URLAlphabet raw) user sessionID (so_now w + sm_ttl m) (so_now w)"
    by (auto simp: CreateForUser_def Let_def split: option.splits prod.splits)
  from create have "db_call (so_reply w) (insert_session (so_db_now w) sessionID (us_id user)
      (tokenHash m (b64_encode URLAlphabet raw)) (so_now w + sm_ttl m) (so_now w) db) db = (db', Some True)"
    by (auto simp: CreateSession_def split: option.splits prod.splits bool.splits)
  from db_call_pair [OF this] that [OF raw _ s] show ?thesis by (metis prod.collapse)
qed

lemma created_found:
  assumes "insert_session dn link (us_id user) th e seen db = (db', True)"
    and "user \<in> set (ub_users db)" and "us_status user = ''active''" and "user_db_ok db"
    and "now < e" and "now - 1000000 * idle_seconds idle < seen"
  shows "\<exists>n. snd (SessionByHash th now idle db') = Some (user, n) \<and> sn_id n = link \<and> sn_expires_at n = e \<and>
    sn_last_seen_at n = now"
proof -
  define row where "row = \<lparr>sn_id = link, sn_user_id = us_id user, sn_token_hash = th, sn_expires_at = e,
    sn_last_seen_at = seen, sn_created_at = dn, sn_revoked_at = None\<rparr>"
  have new: "th \<notin> sn_token_hash ` set (ub_sessions db)" and db': "db' = db\<lparr>ub_sessions := ub_sessions db @ [row]\<rparr>"
    using assms(1) by (auto simp: insert_session_def row_def split: if_splits)
  have user: "active_user db' row = Some user"
    unfolding active_user_def using assms(2-4) inj_onD [of us_id "set (ub_users db)"]
    by (intro find_only) (auto simp: db' row_def user_db_ok_def distinct_map)
  have live: "session_live now idle th db' row"
    using assms(5,6) by (simp add: session_live_def user) (simp add: row_def)
  have "find (session_live now idle th db') (ub_sessions db') = Some row"
    using new live by (intro find_only) (auto simp: db' session_live_def image_iff)
  with user have "snd (SessionByHash th now idle db') = Some (user, row\<lparr>sn_last_seen_at := now\<rparr>)"
    by (simp add: SessionByHash_def Let_def)
  then show ?thesis by (simp add: row_def)
qed

text \<open>A session that has begun is found again: with the cookie that was set, every later request within the
  life time and the idle timeout has the session of the user who logged in, with the permissions of the role.\<close>

theorem session_round_trip:
  assumes "CreateForUser m w user db = (db', Some s)"
    and "user \<in> set (ub_users db)" and "us_status user = ''active''" and "user_db_ok db"
    and "so_random w \<noteq> Some []" and "sm_hmac m (sm_secret m) (ss_ID s) \<noteq> []"
    and "now < so_now w + sm_ttl m" and "now - 1000000 * idle_seconds (sm_idleTimeout m) < so_now w"
  shows "snd (FromRequest m Answered now (Some (sign m (ss_ID s))) db') = Some (s\<lparr>ss_LastSeenAt := now\<rparr>) \<and>
    ss_UserID s = us_id user \<and> ss_Permissions s = permissionsMap (PermissionsForRole (us_role user))"
proof -
  from CreateForUser_some [OF assms(1)] obtain raw link where raw: "so_random w = Some raw"
    and row: "insert_session (so_db_now w) link (us_id user) (tokenHash m (b64_encode URLAlphabet raw))
       (so_now w + sm_ttl m) (so_now w) db = (db', True)"
    and s: "s = session_of (b64_encode URLAlphabet raw) user link (so_now w + sm_ttl m) (so_now w)" .
  have "unsign m (sign m (ss_ID s)) = Some (b64_encode URLAlphabet raw)"
    using unsign_sign [of "ss_ID s" m] assms(5,6) raw b64_no_dot [of raw] by (simp add: s session_of_def)
  with created_found [OF row assms(2-4,7,8)] show ?thesis
    by (auto simp: FromRequest_def db_call_def s session_of_def)
qed

text \<open>A stand-in for HMAC-SHA-256: the first 32 bytes of key and text.\<close>

definition sample_mac :: "bytes \<Rightarrow> bytes \<Rightarrow> bytes" where
  "sample_mac k x = take 32 (k @ x @ replicate 32 0)"

lemma length_sample_mac [simp]: "length (sample_mac k x) = 32"
  by (simp add: sample_mac_def)

lemma sample_mac_Nil [simp]: "sample_mac k x \<noteq> []"
  using length_sample_mac [of k x] by fastforce

definition sample_manager :: session_manager where
  "sample_manager = \<lparr>sm_secret = [1], sm_csrfSecret = [2], sm_ttl = 1000, sm_idleTimeout = 0, sm_hmac = sample_mac\<rparr>"

definition sample_user :: user_row where
  "sample_user = \<lparr>us_id = 7, us_username = [65], us_email = [66], us_password_hash = [], us_role = ''developer'',
     us_status = ''active'', us_force_password_change = False, us_theme_preference = ''system'',
     us_last_login_at = None, us_password_changed_at = None, us_created_at = 0, us_updated_at = 0\<rparr>"

definition sample_users :: user_db where
  "sample_users = \<lparr>ub_users = [sample_user], ub_sessions = []\<rparr>"

definition sample_login :: session_oracle where
  "sample_login = \<lparr>so_random = Some (replicate 32 5), so_id = Some 9, so_reply = Answered, so_now = 100, so_db_now = 100\<rparr>"

definition sample_id :: bytes where
  "sample_id = b64_encode URLAlphabet (replicate 32 5)"

definition sample_session :: session where
  "sample_session = session_of sample_id sample_user 9 1100 100"

definition sample_logged_in :: user_db where
  "sample_logged_in = \<lparr>ub_users = [sample_user], ub_sessions =
     [\<lparr>sn_id = 9, sn_user_id = 7, sn_token_hash = tokenHash sample_manager sample_id, sn_expires_at = 1100,
       sn_last_seen_at = 100, sn_created_at = 100, sn_revoked_at = None\<rparr>]\<rparr>"

lemma sample_manager_sels [simp]:
  "sm_ttl sample_manager = 1000" "sm_idleTimeout sample_manager = 0" "sm_hmac sample_manager = sample_mac"
  "us_id sample_user = 7" "us_status sample_user = ''active''" "us_role sample_user = ''developer''"
  "us_username sample_user = [65]" "ss_ID sample_session = sample_id" "ss_UserID sample_session = 7"
  "ub_users sample_logged_in = [sample_user]" "ub_users sample_users = [sample_user]"
  by (simp_all add: sample_manager_def sample_user_def sample_session_def session_of_def sample_logged_in_def
      sample_users_def)

lemma sample_insert:
  "insert_session 100 9 7 (tokenHash sample_manager sample_id) 1100 100 sample_users = (sample_logged_in, True)"
  by (simp add: insert_session_def sample_users_def sample_logged_in_def) (simp add: tokenHash_def)

lemma sample_login_result: "CreateForUser sample_manager sample_login sample_user sample_users = (sample_logged_in, Some sample_session)"
  by (simp add: CreateForUser_def sample_login_def CreateSession_def db_call_def sample_insert
      sample_session_def Let_def flip: sample_id_def)

lemma sample_users_ok: "user_db_ok sample_users"
  by (simp add: user_db_ok_def sample_users_def)

theorem session_round_trip_witness:
  "snd (FromRequest sample_manager Answered 1099 (Some (sign sample_manager sample_id)) sample_logged_in) =
     Some (sample_session\<lparr>ss_LastSeenAt := 1099\<rparr>)"
  using session_round_trip [OF sample_login_result _ _ sample_users_ok, of 1099]
  by (simp add: idle_seconds_def) (simp add: sample_login_def)

text \<open>
  Whoever is taken for logged in presents a cookie signed for a session that is stored, not revoked, not expired and
  not idle for too long, of a user whose account is active now, with the permissions of the role that the user has now.
\<close>

lemma session_current:
  assumes "snd (FromRequest m reply now cookie db) = Some s"
  shows "cookie = Some (sign m (ss_ID s)) \<and>
    (\<exists>n \<in> set (ub_sessions db). sn_token_hash n = tokenHash m (ss_ID s) \<and> sn_revoked_at n = None \<and>
       now < sn_expires_at n \<and> now - 1000000 * idle_seconds (sm_idleTimeout m) < sn_last_seen_at n \<and>
       sn_user_id n = ss_UserID s) \<and>
    (\<exists>u \<in> set (ub_users db). us_id u = ss_UserID s \<and> us_username u = ss_Username s \<and> us_status u = ''active'' \<and>
       (\<forall>p. ss_Permissions s p \<longleftrightarrow> p \<in> set (PermissionsForRole (us_role u))))"
proof -
  from accepted_row [OF assms] obtain link n u where row: "cookie = Some (sign m link)"
    "unsign m (sign m link) = Some link" "n \<in> set (ub_sessions db)" "session_live now (sm_idleTimeout m) (tokenHash m link) db n"
    "active_user db n = Some u" "s = session_of link u (sn_id n) (sn_expires_at n) now" .
  have u: "u \<in> set (ub_users db)" "us_id u = sn_user_id n" "us_status u = ''active''"
    using find_someD [OF row(5) [unfolded active_user_def]] by simp_all
  have s: "ss_ID s = link" "ss_UserID s = us_id u" "ss_Username s = us_username u"
    "\<forall>p. ss_Permissions s p \<longleftrightarrow> p \<in> set (PermissionsForRole (us_role u))"
    by (simp_all add: row(6) session_of_def permissionsMap_def)
  show ?thesis unfolding s(1-3) using row(1,3,4) u s(4) by (auto simp: session_live_def)
qed

lemma sample_accepted:
  "snd (FromRequest sample_manager Answered 1099 (Some (sign sample_manager sample_id)) sample_logged_in) =
     Some (sample_session\<lparr>ss_LastSeenAt := 1099\<rparr>)"
proof -
  from created_found [OF _ _ _ sample_users_ok, of 100 9 sample_user _ 1100 100 _ 1099 0] sample_insert
  have "\<exists>n. snd (SessionByHash (tokenHash sample_manager sample_id) 1099 0 sample_logged_in) = Some (sample_user, n) \<and>
      sn_id n = 9 \<and> sn_expires_at n = 1100 \<and> sn_last_seen_at n = 1099"
    by (simp add: idle_seconds_def)
  moreover have "unsign sample_manager (sign sample_manager sample_id) = Some sample_id"
    by (rule unsign_sign) (simp_all add: sample_id_def b64_no_dot)
  ultimately show ?thesis by (auto simp: FromRequest_def db_call_def sample_session_def session_of_def)
qed

text \<open>Logging out is final: once the store has revoked the session of a cookie, that cookie is refused in
  every later state, whoever logs in and whatever is changed.\<close>

theorem logout_final:
  assumes "user_db_ok db" and "snd (FromRequest m reply now (Some c) db) = Some s"
    and "(session_step m)\<^sup>*\<^sup>* db db1"
    and "(session_step m)\<^sup>*\<^sup>* (Destroy m Answered now1 (Some c) db1) db2"
  shows "snd (FromRequest m reply2 now2 (Some c) db2) = None"
proof -
  note c = accepted_is [OF assms(1,2)]
  have "Destroy m Answered now1 (Some c) db1 = RevokeSession now1 (tokenHash m (ss_ID s)) db1"
    using c(2) by (simp add: Destroy_def db_call_def)
  with over_Revoke [OF is_steps [OF assms(3) c(4)], of now1]
  have "session_over (tokenHash m (ss_ID s)) (Destroy m Answered now1 (Some c) db1)" by simp
  from over_refused [OF over_steps [OF assms(4) this] c(2)] show ?thesis .
qed

lemma sample_logged_in_ok: "user_db_ok sample_logged_in"
  by (simp add: user_db_ok_def) (simp add: sample_logged_in_def)

theorem logout_final_witness:
  "snd (FromRequest sample_manager Answered 1099 (Some (sign sample_manager sample_id))
     (Destroy sample_manager Answered 500 (Some (sign sample_manager sample_id)) sample_logged_in)) = None"
  by (rule logout_final [OF sample_logged_in_ok sample_accepted rtranclp.rtrancl_refl rtranclp.rtrancl_refl])

end
