(* ===== verification/Access.thy ===== *)
theory Access
  imports ServerSession Exchange
begin

text \<open>
  Who may do what: \<^verbatim>\<open>requireAPI\<close> and \<^verbatim>\<open>apiClientActor\<close> of \<^verbatim>\<open>internal/http/server.go\<close> with the API clients of
  \<^verbatim>\<open>internal/auth/clients.go\<close>. A request is granted to an API client by its credentials, to the holder of the
  legacy key, or to a session; a session that changes anything must also present its CSRF token. SHA-256,
  HMAC-SHA-256 and \<^verbatim>\<open>mime.ParseMediaType\<close> are arguments.
\<close>

section \<open>Requests\<close>

text \<open>
  What the handlers read of a request: the headers by name, empty where there is none, the value of the cookie, the
  form. The body is empty or a JSON value.
\<close>

record server_request =
  sr_method :: string
  sr_path :: bytes
  sr_header :: "string \<Rightarrow> bytes"
  sr_tls :: bool
  sr_cookie :: "bytes option"
  sr_form :: "string \<Rightarrow> bytes"
  sr_body :: "json option"

definition bearerToken :: "server_request \<Rightarrow> bytes" where
  "bearerToken r =
     (let authz = sr_header r ''Authorization''
      in if authz = [] then []
         else
           (case split2 (byte_of CHR '' '') authz of
              [kind, key] \<Rightarrow> if equal_fold kind (ascii ''bearer'') then trim_bytes key else []
            | _ \<Rightarrow> []))"

definition requestHTTPS :: "server_request \<Rightarrow> bool" where
  "requestHTTPS r \<longleftrightarrow> sr_tls r \<or> equal_fold (sr_header r ''X-Forwarded-Proto'') (ascii ''https'')"

definition isStateChanging :: "string \<Rightarrow> bool" where
  "isStateChanging verb \<longleftrightarrow> verb \<in> {''POST'', ''PUT'', ''PATCH'', ''DELETE''}"

definition csrfTokenFromRequest :: "server_request \<Rightarrow> bytes" where
  "csrfTokenFromRequest r =
     (if sr_header r ''X-CSRF-Token'' \<noteq> [] then sr_header r ''X-CSRF-Token''
      else if contains (sr_header r ''Content-Type'') (ascii ''application/x-www-form-urlencoded'') \<or>
              contains (sr_header r ''Content-Type'') (ascii ''multipart/form-data'')
      then sr_form r ''csrf_token'' else [])"

section \<open>API clients\<close>

text \<open>The credentials that \<^verbatim>\<open>apiClientActor\<close> goes on with.\<close>

definition client_credentials :: "bytes \<Rightarrow> (bytes \<times> bytes) option" where
  "client_credentials header =
     (case BasicAuth header of
        None \<Rightarrow> None
      | Some (clientID, secret) \<Rightarrow> if clientID = [] \<or> secret = [] then None else Some (clientID, secret))"

record api_client =
  ac_id :: uuid
  ac_name :: bytes
  ac_client_id :: bytes
  ac_secret_hash :: bytes
  ac_owner_user_id :: "uuid option"
  ac_status :: string
  ac_scopes :: "string list"
  ac_last_used_at :: "int option"
  ac_expires_at :: "int option"

definition ScopeAllowed :: "string list \<Rightarrow> string \<Rightarrow> bool" where
  "ScopeAllowed scopes permission \<longleftrightarrow>
     list_ex (\<lambda>scope. scope = permission \<or> permission = ''secret:read-metadata'' \<and> scope = ''secret:list'') scopes"

definition IsAPIClientUsable :: "int \<Rightarrow> api_client \<Rightarrow> bool" where
  "IsAPIClientUsable now c \<longleftrightarrow>
     ac_status c = ''active'' \<and> (case ac_expires_at c of None \<Rightarrow> True | Some t \<Rightarrow> now < t)"

definition HashAPIClientSecret :: "(bytes \<Rightarrow> bytes \<Rightarrow> bytes) \<Rightarrow> bytes \<Rightarrow> bytes \<Rightarrow> bytes \<Rightarrow> bytes" where
  "HashAPIClientSecret mac pepper clientID secret =
     b64_encode URLAlphabet (mac pepper (ascii ''api-client:'' @ clientID @ ascii '':'' @ secret))"

definition VerifyAPIClientSecret :: "(bytes \<Rightarrow> bytes \<Rightarrow> bytes) \<Rightarrow> bytes \<Rightarrow> bytes \<Rightarrow> bytes \<Rightarrow> bytes \<Rightarrow> bool" where
  "VerifyAPIClientSecret mac pepper clientID secret encoded \<longleftrightarrow>
     HashAPIClientSecret mac pepper clientID secret = encoded"

definition scopesMap :: "string list \<Rightarrow> string \<Rightarrow> bool" where
  "scopesMap values p \<longleftrightarrow>
     permissionsMap values p \<or> p = ''secret:read-metadata'' \<and> permissionsMap values ''secret:list''"

section \<open>The actor of a request\<close>

record actor =
  at_ActorID :: bytes
  at_Permissions :: "string \<Rightarrow> bool"
  at_Bearer :: bool
  at_APIClient :: bool
  at_ClientID :: bytes
  at_UserID :: uuid
  at_Username :: bytes
  at_Email :: bytes
  at_Role :: string
  at_Token :: bytes

definition zero_actor :: actor where
  "zero_actor = \<lparr>at_ActorID = [], at_Permissions = (\<lambda>_. False), at_Bearer = False, at_APIClient = False,
     at_ClientID = [], at_UserID = 0, at_Username = [], at_Email = [], at_Role = [], at_Token = []\<rparr>"

text \<open>The configuration, with the functions of other libraries; \<open>sv_clients\<close> is whether there is a store of clients.\<close>

record server =
  sv_env :: service_env
  sv_sessions :: session_manager
  sv_app_env :: string
  sv_clients :: bool
  sv_legacy_key_enabled :: bool
  sv_admin_key :: bytes
  sv_sha256 :: "bytes \<Rightarrow> bytes"
  sv_parse_media :: "bytes \<Rightarrow> string option"

record auth_state =
  as_db :: user_db
  as_clients :: "api_client list"

text \<open>The time, and what happens to the statements of one request.\<close>

record auth_oracle =
  ao_now :: int
  ao_client_reply :: db_reply
  ao_touch_reply :: db_reply
  ao_session_reply :: db_reply

definition validAdminKey :: "server \<Rightarrow> bytes \<Rightarrow> bool" where
  "validAdminKey sv key \<longleftrightarrow> sv_sha256 sv key = sv_sha256 sv (sv_admin_key sv)"

definition APIClientByClientID :: "bytes \<Rightarrow> auth_state \<Rightarrow> api_client option" where
  "APIClientByClientID clientID st = find (\<lambda>c. ac_client_id c = clientID) (as_clients st)"

definition TouchAPIClient :: "int \<Rightarrow> uuid \<Rightarrow> auth_state \<Rightarrow> auth_state" where
  "TouchAPIClient now link st = st\<lparr>as_clients :=
     map (\<lambda>c. if ac_id c = link then c\<lparr>ac_last_used_at := Some now\<rparr> else c) (as_clients st)\<rparr>"

definition client_passes :: "server \<Rightarrow> auth_oracle \<Rightarrow> bytes \<Rightarrow> api_client \<Rightarrow> bool" where
  "client_passes sv w secret client \<longleftrightarrow> IsAPIClientUsable (ao_now w) client \<and>
     VerifyAPIClientSecret (hmac_sha256 (sv_env sv)) (TokenHMACPepper (sv_env sv)) (ac_client_id client) secret
       (ac_secret_hash client)"

definition client_actor :: "api_client \<Rightarrow> actor" where
  "client_actor client = zero_actor\<lparr>at_ActorID := ascii ''api-client:'' @ ac_client_id client,
     at_Permissions := scopesMap (ac_scopes client), at_APIClient := True, at_ClientID := ac_client_id client\<rparr>"

text \<open>An error of the update of the last use is only logged.\<close>

definition apiClientActor ::
  "server \<Rightarrow> auth_oracle \<Rightarrow> string \<Rightarrow> server_request \<Rightarrow> auth_state \<Rightarrow> auth_state \<times> actor option" where
  "apiClientActor sv w permission r st =
     (case client_credentials (sr_header r ''Authorization'') of
        None \<Rightarrow> (st, None)
      | Some (clientID, secret) \<Rightarrow>
          (if \<not> sv_clients sv then (st, None)
           else if sv_app_env sv = ''production'' \<and> \<not> requestHTTPS r then (st, None)
           else
             (case snd (db_call (ao_client_reply w) (st, APIClientByClientID clientID st) st) of
                Some (Some client) \<Rightarrow>
                  (if \<not> client_passes sv w secret client then (st, None)
                   else if \<not> ScopeAllowed (ac_scopes client) permission then (st, None)
                   else
                     (fst (db_call (ao_touch_reply w) (TouchAPIClient (ao_now w) (ac_id client) st, ()) st),
                      Some (client_actor client)))
              | _ \<Rightarrow> (st, None))))"

definition session_actor :: "session \<Rightarrow> actor" where
  "session_actor session = zero_actor\<lparr>at_ActorID := ss_ActorID session, at_Permissions := ss_Permissions session,
     at_UserID := ss_UserID session, at_Username := ss_Username session, at_Email := ss_Email session,
     at_Role := ss_Role session, at_Token := ss_ID session\<rparr>"

definition key_accepted :: "server \<Rightarrow> server_request \<Rightarrow> bool" where
  "key_accepted sv r \<longleftrightarrow> bearerToken r \<noteq> [] \<and> sv_legacy_key_enabled sv \<and> validAdminKey sv (bearerToken r)"

definition requireAPI ::
  "server \<Rightarrow> auth_oracle \<Rightarrow> string \<Rightarrow> server_request \<Rightarrow> auth_state \<Rightarrow> auth_state \<times> (fetch_result + actor)" where
  "requireAPI sv w permission r st =
     (case apiClientActor sv w permission r st of
        (st', Some client) \<Rightarrow> (st', Inr client)
      | (st', None) \<Rightarrow>
          (if key_accepted sv r
           then (st', Inr (zero_actor\<lparr>at_ActorID := ascii ''admin'',
                  at_Permissions := permissionsMap (PermissionsForRole ''admin''), at_Bearer := True\<rparr>))
           else
             (let (db, found) = FromRequest (sv_sessions sv) (ao_session_reply w) (ao_now w) (sr_cookie r) (as_db st');
                  st'' = st'\<lparr>as_db := db\<rparr>
              in case found of
                   Some session \<Rightarrow>
                     (if ss_Permissions session permission
                      then
                        (if isStateChanging (sr_method r) \<and>
                            \<not> ValidCSRF (sv_sessions sv) session (csrfTokenFromRequest r)
                         then (st'', Inl (writeError ''FORBIDDEN'' ''Forbidden.'' 403))
                         else (st'', Inr (session_actor session)))
                      else (st'', Inl (writeError ''UNAUTHORIZED'' ''Unauthorized.'' 401)))
                 | None \<Rightarrow> (st'', Inl (writeError ''UNAUTHORIZED'' ''Unauthorized.'' 401)))))"


text \<open>\<^verbatim>\<open>decodeJSON\<close> with the test of the media type; an empty body is an error of the decoder.\<close>

definition decode_body :: "server \<Rightarrow> string list \<Rightarrow> nat \<Rightarrow> server_request \<Rightarrow> fetch_result + (string \<Rightarrow> jstr)" where
  "decode_body sv names limit r =
     (if sv_parse_media sv (sr_header r ''Content-Type'') \<noteq> Some ''application/json''
      then Inl (writeError ''INVALID_REQUEST'' ''Content-Type must be application/json.'' 415)
      else
        (case sr_body r of
           None \<Rightarrow> Inl (writeError ''INVALID_REQUEST'' ''Invalid request.'' 400)
         | Some body \<Rightarrow> decodeJSON names limit body))"

section \<open>What is granted\<close>

lemma apiClientActor_none: "apiClientActor sv w permission r st = (st', None) \<Longrightarrow> st' = st"
  by (auto simp: apiClientActor_def split: option.splits prod.splits if_splits)

lemma ScopeAllowed_iff:
  "ScopeAllowed scopes p \<longleftrightarrow> p \<in> set scopes \<or> p = ''secret:read-metadata'' \<and> ''secret:list'' \<in> set scopes"
  by (auto simp: ScopeAllowed_def list_ex_iff)

lemma TouchAPIClient_db [simp]: "as_db (TouchAPIClient now link st) = as_db st"
  by (simp add: TouchAPIClient_def)

lemma apiClientActor_some:
  assumes "apiClientActor sv w permission r st = (st', Some a)"
  obtains c secret where "client_credentials (sr_header r ''Authorization'') = Some (ac_client_id c, secret)"
    "c \<in> set (as_clients st)" "sv_app_env sv = ''production'' \<longrightarrow> requestHTTPS r" "client_passes sv w secret c"
    "ScopeAllowed (ac_scopes c) permission" "as_db st' = as_db st" "a = client_actor c"
proof -
  from assms obtain clientID secret where cred: "client_credentials (sr_header r ''Authorization'') = Some (clientID, secret)"
    by (cases "client_credentials (sr_header r ''Authorization'')") (auto simp: apiClientActor_def)
  let ?found = "snd (db_call (ao_client_reply w) (st, APIClientByClientID clientID st) st)"
  from assms cred obtain c where found: "?found = Some (Some c)"
    by (cases ?found; cases "the ?found") (auto simp: apiClientActor_def split: if_splits)
  with assms cred have ok: "sv_app_env sv = ''production'' \<longrightarrow> requestHTTPS r" "client_passes sv w secret c"
      "ScopeAllowed (ac_scopes c) permission" "a = client_actor c"
    and st': "st' = fst (db_call (ao_touch_reply w) (TouchAPIClient (ao_now w) (ac_id c) st, ()) st)"
    by (simp_all add: apiClientActor_def split: if_splits)
  from db_call_snd [OF found] have "APIClientByClientID clientID st = Some c" by simp
  then have c: "c \<in> set (as_clients st)" "ac_client_id c = clientID"
    unfolding APIClientByClientID_def by (auto dest: find_someD)
  have db: "as_db st' = as_db st"
    using db_call_either [of "ao_touch_reply w" "(TouchAPIClient (ao_now w) (ac_id c) st, ())" st]
    unfolding st' by (elim disjE) simp_all
  show ?thesis by (rule that [OF cred [folded c(2)] c(1) ok(1,2,3) db ok(4)])
qed

lemma client_actor_flags [simp]:
  "at_APIClient (client_actor c)" "\<not> at_Bearer (client_actor c)" "\<not> at_APIClient (session_actor s)"
  "\<not> at_Bearer (session_actor s)" "at_Token (session_actor s) = ss_ID s" "at_Username (session_actor s) = ss_Username s"
  "at_UserID (session_actor s) = ss_UserID s" "at_Role (session_actor s) = ss_Role s"
  "at_ActorID (session_actor s) = ss_ActorID s"
  by (simp_all add: client_actor_def session_actor_def zero_actor_def)

text \<open>The session of the cookie, as \<^verbatim>\<open>requireAPI\<close> asks for it.\<close>

definition session_lookup :: "server \<Rightarrow> auth_oracle \<Rightarrow> server_request \<Rightarrow> auth_state \<Rightarrow> user_db \<times> session option" where
  "session_lookup sv w r st =
     FromRequest (sv_sessions sv) (ao_session_reply w) (ao_now w) (sr_cookie r) (as_db st)"

lemma requireAPI_no_client:
  assumes "apiClientActor sv w permission r st = (st, None)" and "\<not> key_accepted sv r"
  shows "requireAPI sv w permission r st =
    (st\<lparr>as_db := fst (session_lookup sv w r st)\<rparr>,
     case snd (session_lookup sv w r st) of
       None \<Rightarrow> Inl (writeError ''UNAUTHORIZED'' ''Unauthorized.'' 401)
     | Some s \<Rightarrow>
         (if \<not> ss_Permissions s permission then Inl (writeError ''UNAUTHORIZED'' ''Unauthorized.'' 401)
          else if isStateChanging (sr_method r) \<and> \<not> ValidCSRF (sv_sessions sv) s (csrfTokenFromRequest r)
          then Inl (writeError ''FORBIDDEN'' ''Forbidden.'' 403)
          else Inr (session_actor s)))"
  using assms(2) by (simp add: requireAPI_def assms(1) session_lookup_def Let_def case_prod_beta split: option.split)

lemma requireAPI_actor:
  assumes "requireAPI sv w permission r st = (st', Inr a)"
  shows "(\<exists>st1. apiClientActor sv w permission r st = (st1, Some a) \<and> st' = st1) \<or>
    at_Bearer a \<and> \<not> at_APIClient a \<and> key_accepted sv r \<and> st' = st \<or>
    (\<exists>s. snd (session_lookup sv w r st) = Some s \<and> ss_Permissions s permission \<and> a = session_actor s \<and>
       (isStateChanging (sr_method r) \<longrightarrow> ValidCSRF (sv_sessions sv) s (csrfTokenFromRequest r)) \<and>
       st' = st\<lparr>as_db := fst (session_lookup sv w r st)\<rparr>)"
proof -
  obtain st1 x where client: "apiClientActor sv w permission r st = (st1, x)" by fastforce
  show ?thesis
  proof (cases x)
    case (Some b)
    with client assms show ?thesis by (simp add: requireAPI_def)
  next
    case None
    with client have none: "apiClientActor sv w permission r st = (st, None)" by (simp add: apiClientActor_none)
    show ?thesis
    proof (cases "key_accepted sv r")
      case True
      with assms none show ?thesis by (auto simp: requireAPI_def zero_actor_def)
    next
      case False
      from requireAPI_no_client [OF none this] assms show ?thesis
        by (auto split: option.splits if_splits)
    qed
  qed
qed

lemma requireAPI_refused:
  assumes "requireAPI sv w permission r st = (st', Inl (Answer status b))"
  shows "\<not> resp_ok status"
proof -
  obtain st1 x where client: "apiClientActor sv w permission r st = (st1, x)" by fastforce
  with assms have "x = None" by (cases x) (auto simp: requireAPI_def)
  with client apiClientActor_none have none: "apiClientActor sv w permission r st = (st, None)" by metis
  then have "\<not> key_accepted sv r" using assms by (auto simp: requireAPI_def)
  from requireAPI_no_client [OF none this] assms show ?thesis
    by (auto simp: writeError_def resp_ok_def split: option.splits if_splits)
qed

lemma decode_body_refused: "decode_body sv names limit r = Inl (Answer status b) \<Longrightarrow> \<not> resp_ok status"
  by (auto simp: decode_body_def decodeJSON_def writeError_def resp_ok_def split: if_splits option.splits json.splits)

text \<open>C6: Every request that an API handler acts on is entitled to it. An API client has presented its secret,
  is active, not expired and has the scope, over HTTPS in production; or the legacy key was presented; or a
  session that is valid now belongs to an active user whose role has the permission, and a request that changes anything
  also carries the CSRF token of that session.\<close>

theorem access_granted:
  assumes "requireAPI sv w permission r st = (st', Inr a)"
  shows "(at_APIClient a \<and>
      (\<exists>c \<in> set (as_clients st). \<exists>secret.
         client_credentials (sr_header r ''Authorization'') = Some (ac_client_id c, secret) \<and>
         HashAPIClientSecret (hmac_sha256 (sv_env sv)) (TokenHMACPepper (sv_env sv)) (ac_client_id c) secret =
           ac_secret_hash c \<and>
         ac_status c = ''active'' \<and> (\<forall>t. ac_expires_at c = Some t \<longrightarrow> ao_now w < t) \<and>
         (permission \<in> set (ac_scopes c) \<or>
            permission = ''secret:read-metadata'' \<and> ''secret:list'' \<in> set (ac_scopes c)) \<and>
         (sv_app_env sv = ''production'' \<longrightarrow> requestHTTPS r))) \<or>
    (at_Bearer a \<and> sv_legacy_key_enabled sv \<and> sv_sha256 sv (bearerToken r) = sv_sha256 sv (sv_admin_key sv)) \<or>
    (\<exists>n \<in> set (ub_sessions (as_db st)). \<exists>u \<in> set (ub_users (as_db st)).
       sr_cookie r = Some (sign (sv_sessions sv) (at_Token a)) \<and>
       sn_token_hash n = tokenHash (sv_sessions sv) (at_Token a) \<and> sn_revoked_at n = None \<and>
       ao_now w < sn_expires_at n \<and> sn_user_id n = us_id u \<and> us_status u = ''active'' \<and>
       at_Username a = us_username u \<and> permission \<in> set (PermissionsForRole (us_role u)) \<and>
       (isStateChanging (sr_method r) \<longrightarrow> csrfTokenFromRequest r = CSRFToken (sv_sessions sv) (at_Token a)))"
  using requireAPI_actor [OF assms]
proof (elim disjE exE conjE)
  fix st1 assume "apiClientActor sv w permission r st = (st1, Some a)"
  from apiClientActor_some [OF this] obtain c secret where
    c: "client_credentials (sr_header r ''Authorization'') = Some (ac_client_id c, secret)" "c \<in> set (as_clients st)"
      "sv_app_env sv = ''production'' \<longrightarrow> requestHTTPS r" "client_passes sv w secret c" "ScopeAllowed (ac_scopes c) permission"
      "a = client_actor c" .
  show ?thesis
    by (rule disjI1, intro conjI bexI [OF _ c(2)] exI [of _ secret])
      (use c in \<open>auto simp: client_passes_def IsAPIClientUsable_def VerifyAPIClientSecret_def ScopeAllowed_iff\<close>)
next
  assume "at_Bearer a" "key_accepted sv r"
  then show ?thesis by (simp add: key_accepted_def validAdminKey_def)
next
  fix s assume s: "snd (session_lookup sv w r st) = Some s" "ss_Permissions s permission" "a = session_actor s"
    "isStateChanging (sr_method r) \<longrightarrow> ValidCSRF (sv_sessions sv) s (csrfTokenFromRequest r)"
  note current = session_current [OF s(1) [unfolded session_lookup_def]]
  from current obtain n u where n: "n \<in> set (ub_sessions (as_db st))" and u: "u \<in> set (ub_users (as_db st))"
    and row: "sn_token_hash n = tokenHash (sv_sessions sv) (ss_ID s)" "sn_revoked_at n = None"
      "ao_now w < sn_expires_at n" "sn_user_id n = ss_UserID s" "us_id u = ss_UserID s"
      "us_username u = ss_Username s" "us_status u = ''active''"
      "permission \<in> set (PermissionsForRole (us_role u))"
    using s(2) by blast
  show ?thesis
    by (rule disjI2, rule disjI2, intro conjI bexI [OF _ n] bexI [OF _ u])
      (use current s(3,4) row in \<open>auto simp: ValidCSRF_def split: if_splits\<close>)
qed

definition sample_server :: server where
  "sample_server = \<lparr>sv_env = small_env, sv_sessions = sample_manager, sv_app_env = ''production'', sv_clients = True,
     sv_legacy_key_enabled = False, sv_admin_key = [], sv_sha256 = (\<lambda>x. x),
     sv_parse_media = (\<lambda>m. if m = ascii ''application/json'' then Some ''application/json'' else None)\<rparr>"

definition sample_auth :: auth_state where
  "sample_auth = \<lparr>as_db = sample_logged_in, as_clients = []\<rparr>"

definition sample_auth_oracle :: auth_oracle where
  "sample_auth_oracle = \<lparr>ao_now = 1099, ao_client_reply = Answered, ao_touch_reply = Answered,
     ao_session_reply = Answered\<rparr>"

text \<open>A request of the logged in page to a path.\<close>

definition sample_call :: "string \<Rightarrow> bytes \<Rightarrow> json option \<Rightarrow> server_request" where
  "sample_call verb path body = \<lparr>sr_method = verb, sr_path = path,
     sr_header = (\<lambda>h. if h = ''X-CSRF-Token'' then CSRFToken sample_manager sample_id
                      else if h = ''Content-Type'' then ascii ''application/json'' else []),
     sr_tls = True, sr_cookie = Some (sign sample_manager sample_id), sr_form = (\<lambda>_. []), sr_body = body\<rparr>"

lemma no_credentials [simp]: "client_credentials [] = None"
  by (simp add: client_credentials_def BasicAuth_def)

lemma no_authorization:
  assumes "sr_header r ''Authorization'' = []"
  shows "apiClientActor sv w permission r st = (st, None)" "\<not> key_accepted sv r"
  using assms by (simp_all add: apiClientActor_def key_accepted_def bearerToken_def Let_def)

lemma CSRFToken_valid: "CSRFToken m (ss_ID s) \<noteq> [] \<Longrightarrow> ValidCSRF m s (CSRFToken m (ss_ID s))"
  by (simp add: ValidCSRF_def)

text \<open>A page with the token of its session is let through.\<close>

lemma requireAPI_page:
  assumes "sr_header r ''Authorization'' = []" and "snd (session_lookup sv w r st) = Some s"
    and "ss_Permissions s permission"
    and "sr_header r ''X-CSRF-Token'' = CSRFToken (sv_sessions sv) (ss_ID s)"
    and "CSRFToken (sv_sessions sv) (ss_ID s) \<noteq> []"
  shows "requireAPI sv w permission r st = (st\<lparr>as_db := fst (session_lookup sv w r st)\<rparr>, Inr (session_actor s))"
  using assms no_authorization [OF assms(1)]
  by (simp add: requireAPI_no_client csrfTokenFromRequest_def ValidCSRF_def)

lemma sample_lookup:
  "snd (session_lookup sample_server sample_auth_oracle (sample_call verb path body) sample_auth) =
     Some (sample_session\<lparr>ss_LastSeenAt := 1099\<rparr>)"
  using sample_accepted
  by (simp add: session_lookup_def sample_server_def sample_auth_oracle_def sample_call_def sample_auth_def)

lemma sample_csrf: "CSRFToken sample_manager sample_id \<noteq> []"
  by (simp add: CSRFToken_def)

lemma sample_granted:
  assumes "permission \<in> set (PermissionsForRole ''developer'')"
  shows "requireAPI sample_server sample_auth_oracle permission (sample_call verb path body) sample_auth =
    (sample_auth\<lparr>as_db := fst (session_lookup sample_server sample_auth_oracle (sample_call verb path body) sample_auth)\<rparr>,
     Inr (session_actor (sample_session\<lparr>ss_LastSeenAt := 1099\<rparr>)))"
  by (rule requireAPI_page [OF _ sample_lookup])
    (use assms sample_csrf in \<open>simp_all add: sample_call_def sample_server_def sample_session_def session_of_def
       permissionsMap_def\<close>)

theorem access_granted_witness:
  "\<exists>n \<in> set (ub_sessions sample_logged_in). sn_token_hash n = tokenHash sample_manager sample_id \<and>
     sn_revoked_at n = None \<and> 1099 < sn_expires_at n"
proof -
  have "''secret:revoke'' \<in> set (PermissionsForRole ''developer'')" by (simp add: PermissionsForRole_def)
  from access_granted [OF sample_granted [OF this, of "''POST''" "[]" None]] show ?thesis
    by (auto simp: sample_server_def sample_auth_def sample_auth_oracle_def)
qed

end
