(* ===== verification/ExampleClient.thy ===== *)
theory ExampleClient
  imports EndToEnd Access
begin

text \<open>
  The two scripts beside the application: \<^verbatim>\<open>examples/javascript/create-secret.mjs\<close>, a client of the API that
  creates a link with the credentials of its environment, and \<^verbatim>\<open>web/static/swagger-ui/swagger-init.js\<close>, which
  starts the documentation page. With the first goes what the server does with its request: the credentials
  that \<^verbatim>\<open>apiClientActor\<close> takes from its header (Access), and the decoding of the body.
\<close>

section \<open>The example client\<close>

record client_environment =
  SECURESHARE_BASE_URL :: "jstr option"
  SECURESHARE_CLIENT_ID :: "jstr option"
  SECURESHARE_CLIENT_SECRET :: "jstr option"

text \<open>\<^verbatim>\<open>.replace(/\/$/, "")\<close>: one slash at the end.\<close>

definition strip_slash :: "jstr \<Rightarrow> jstr" where
  "strip_slash s = (if s \<noteq> [] \<and> last s = 0x2F then butlast s else s)"

definition base_url :: "client_environment \<Rightarrow> jstr" where
  "base_url env = strip_slash (or_default (SECURESHARE_BASE_URL env) (js ''http://localhost:8080''))"

text \<open>\<^verbatim>\<open>Buffer.from(text).toString("base64")\<close>, with padding.\<close>

definition base64_padded :: "bytes \<Rightarrow> bytes" where
  "base64_padded b =
     (let s = b64_encode StdAlphabet b
      in s @ replicate (case length b mod 3 of 0 \<Rightarrow> 0 | Suc 0 \<Rightarrow> 2 | _ \<Rightarrow> 1) (byte_of CHR ''=''))"

definition authorization :: "jstr \<Rightarrow> jstr \<Rightarrow> jstr" where
  "authorization clientID clientSecret =
     js ''Basic '' @ text_of_bytes (base64_padded (utf8_bytes (clientID @ [0x3A] @ clientSecret)))"

definition example_field :: "string \<Rightarrow> string \<Rightarrow> string \<Rightarrow> bool \<Rightarrow> json" where
  "example_field name label v sensitive = obj
     [(''name'', JStr (js name)), (''label'', JStr (js label)), (''value'', JStr (js v)),
      (''sensitive'', JBool sensitive), (''multiline'', JBool False)]"

definition example_payload :: json where
  "example_payload = obj
     [(''title'', JStr (js ''Example login'')),
      (''expires_in_seconds'', JNum 3600 0),
      (''payload'', obj
         [(''type'', JStr (js ''structured'')),
          (''fields'', JArr
             [example_field ''username'' ''Username'' ''example-user'' False,
              example_field ''password'' ''Password'' ''example-password'' True])])]"

text \<open>The end of the process: its exit code and the line it prints; an uncaught exception ends it with 1.\<close>

datatype process_end = Exit nat "jstr option" | UncaughtException

definition client_start :: "client_environment \<Rightarrow> process_end + http_request" where
  "client_start env =
     (let clientID = string_or_empty (SECURESHARE_CLIENT_ID env);
          clientSecret = string_or_empty (SECURESHARE_CLIENT_SECRET env)
      in if clientID = [] \<or> clientSecret = []
         then Inl (Exit 2 (Some (js ''SECURESHARE_CLIENT_ID and SECURESHARE_CLIENT_SECRET are required'')))
         else Inr \<lparr>rq_method = ''POST'', rq_url = base_url env @ js ''/api/v1/secret-links'',
                rq_headers = [(''Authorization'', authorization clientID clientSecret),
                  (''Content-Type'', js ''application/json'')],
                rq_body = Some example_payload\<rparr>)"

text \<open>
  From the answer on; an answer that has not come after fifteen seconds is aborted, which rejects the request. A body
  that cannot be parsed, and the body \<^verbatim>\<open>null\<close>, raise.
\<close>

definition client_finish :: "bool \<Rightarrow> fetch_result \<Rightarrow> process_end" where
  "client_finish aborted r =
     (case (if aborted then Rejected else r) of
        Rejected \<Rightarrow> UncaughtException
      | Answer status b \<Rightarrow>
          (if \<not> resp_ok status then Exit 1 (Some (js ''SecureShare returned HTTP '' @ nat_digits status))
           else
             (case b of
                None \<Rightarrow> UncaughtException
              | Some JNull \<Rightarrow> UncaughtException
              | Some body \<Rightarrow> Exit 0 (Some (to_string (get_prop (Some body) ''url''))))))"

section \<open>The documentation page\<close>

record swagger_config =
  sw_url :: jstr
  sw_dom_id :: string
  sw_deepLinking :: bool
  sw_displayRequestDuration :: bool
  sw_persistAuthorization :: bool
  sw_tryItOutEnabled :: bool
  sw_validatorUrl :: "jstr option"
  sw_layout :: string

text \<open>
  The load handler: the target is the data attribute of the element, if there is the element; the bundle may
  not have been loaded.
\<close>

definition swagger_load :: "jstr option option \<Rightarrow> bool \<Rightarrow> swagger_config option" where
  "swagger_load target bundle_loaded =
     (case target of
        None \<Rightarrow> None
      | Some openapiUrl \<Rightarrow>
          (if \<not> bundle_loaded then None
           else Some \<lparr>sw_url = or_default openapiUrl (js ''/openapi.yaml''), sw_dom_id = ''#swagger-ui'',
             sw_deepLinking = True, sw_displayRequestDuration = True, sw_persistAuthorization = False,
             sw_tryItOutEnabled = False, sw_validatorUrl = None, sw_layout = ''StandaloneLayout''\<rparr>))"

section \<open>The credentials arrive\<close>

lemma utf8_bytes_Cons: "\<not> is_low u \<Longrightarrow> utf8_bytes (s @ u # t) = utf8_bytes s @ utf8_bytes (u # t)"
proof (induction s rule: utf8_bytes.induct)
  case (2 c)
  then show ?case by simp
next
  case (3 c d s)
  show ?case
  proof (cases "is_high c \<and> is_low d")
    case True
    with 3 show ?thesis by simp
  next
    case False
    with 3(2) [OF False 3(3)] show ?thesis by auto
  qed
qed simp

lemma utf8_bytes_colon: "utf8_bytes (0x3A # t) = 58 # utf8_bytes t"
  by (cases t) (simp_all add: utf8_unit_def is_high_def is_low_def word_le_nat_alt)

lemma utf8_unit_high: "0x80 \<le> n \<Longrightarrow> n < 0x110000 \<Longrightarrow> \<forall>x \<in> set (utf8_unit n). 0x80 \<le> unat x"
proof -
  assume n: "0x80 \<le> n" "n < 0x110000"
  have w: "unat (word_of_nat k :: byte) = k" if "k < 256" for k
    using that by (simp add: unat_of_nat)
  have b: "128 \<le> unat (word_of_nat (128 + k mod 64) :: byte)" for k
  proof -
    have "k mod 64 < 64" by simp
    then have "128 + k mod 64 < 256" by linarith
    from w [OF this] show ?thesis by linarith
  qed
  have c: "128 \<le> unat (word_of_nat (m + k) :: byte)" if "m + k < 256" "128 \<le> m" for m k
    using w [OF that(1)] that(2) by linarith
  consider "n < 0x800" | "0x800 \<le> n" "n < 0x10000" | "0x10000 \<le> n" by linarith
  then show ?thesis
  proof cases
    case 1
    then have "192 + n div 64 < 256" by (simp add: less_mult_imp_div_less)
    with 1 n b [of n] c [of 192 "n div 64"] show ?thesis by (simp add: utf8_unit_def del: of_nat_add)
  next
    case 2
    then have "224 + n div 4096 < 256" by (simp add: less_mult_imp_div_less)
    with 2 n b [of n] b [of "n div 64"] c [of 224 "n div 4096"] show ?thesis
      by (simp add: utf8_unit_def del: of_nat_add)
  next
    case 3
    have "n div 262144 < 8" using n by (simp add: less_mult_imp_div_less)
    then have "240 + n div 262144 < 256" by linarith
    with 3 n b [of n] b [of "n div 64"] b [of "n div 4096"] c [of 240 "n div 262144"] show ?thesis
      by (simp add: utf8_unit_def del: of_nat_add)
  qed
qed

lemma unit_no_colon: "n < 0x110000 \<Longrightarrow> n \<noteq> 58 \<Longrightarrow> (58 :: byte) \<notin> set (utf8_unit n)"
proof (cases "n < 0x80")
  case True
  moreover assume "n \<noteq> 58"
  moreover have "unat (word_of_nat n :: byte) = n" using True by (simp add: unat_of_nat)
  moreover have "unat (58 :: byte) = 58" by simp
  ultimately have "word_of_nat n \<noteq> (58 :: byte)" by metis
  with True show ?thesis by (auto simp: utf8_unit_def)
next
  case False
  assume "n < 0x110000"
  with utf8_unit_high [of n] False show ?thesis by force
qed

lemma code_unit_bound: "unat (u :: jchar) < 0x10000"
  using unsigned_less [where 'a = nat, of u] by simp

lemma scalar_bound:
  assumes "is_high u" and "is_low v"
  shows "0x10000 + (unat u - 0xD800) * 1024 + (unat v - 0xDC00) < 0x110000"
  using assms by (auto simp: is_high_def is_low_def word_le_nat_alt)

lemma unit_colon: "unat (u :: jchar) = 58 \<longleftrightarrow> u = 0x3A"
  by (simp add: word_unat_eq_iff)

lemma utf8_no_colon: "0x3A \<notin> set s \<Longrightarrow> 58 \<notin> set (utf8_bytes s)"
proof (induction s rule: utf8_bytes.induct)
  case (2 u)
  have "unat u \<noteq> 58" using 2 by (auto simp: unit_colon)
  with code_unit_bound [of u] show ?case by (simp add: unit_no_colon)
next
  case (3 u v s)
  have "unat u \<noteq> 58" using 3(3) by (auto simp: unit_colon)
  with code_unit_bound [of u] have u: "58 \<notin> set (utf8_unit (if is_high u \<or> is_low u then 0xFFFD else unat u))"
    by (simp add: unit_no_colon)
  show ?case
  proof (cases "is_high u \<and> is_low v")
    case True
    with 3 unit_no_colon [OF scalar_bound [of u v]] show ?thesis by simp
  next
    case False
    with 3(2) [OF False] 3(3) u show ?thesis by auto
  qed
qed simp

lemma std_decode_padded: "std_decode (base64_padded b) = Some b"
proof -
  let ?s = "b64_encode StdAlphabet b"
  let ?pad = "byte_of CHR ''=''"
  have pad: "?pad \<notin> set StdAlphabet" by (simp add: byte_of_def StdAlphabet_def ascii_def)
  then have no_pad: "?pad \<notin> set ?s" using b64_encode_set [OF good_alphabets(1), of b] by blast
  have last: "last ?s \<noteq> ?pad" if "?s \<noteq> []" using no_pad last_in_set [OF that] by metis
  have len: "length ?s = (4 * length b + 2) div 3" by (rule length_b64_encode)
  have dec: "b64_decode StdAlphabet ?s = Some b" by (rule b64_decode_encode [OF good_alphabets(1)])
  have two: "drop (length t - 2) t \<noteq> [?pad, ?pad]" if "t = ?s \<or> t = ?s @ [?pad]" for t
  proof
    assume d: "drop (length t - 2) t = [?pad, ?pad]"
    then have "t = take (length t - 2) t @ [?pad, ?pad]" by (metis append_take_drop_id)
    with that no_pad show False
      by (metis append_Cons append_Nil append_assoc butlast_snoc in_set_conv_decomp last_snoc)
  qed
  obtain k where k: "length b = 3 * k \<or> length b = 3 * k + 1 \<or> length b = 3 * k + 2"
    by (metis mod_mult_div_eq mod_less_divisor add.commute add_0 less_Suc_eq less_one numeral_3_eq_3 zero_less_Suc
        One_nat_def numeral_2_eq_2)
  then show ?thesis
  proof (elim disjE)
    assume b: "length b = 3 * k"
    moreover have "(4 * (3 * k) + 2) div 3 = 4 * k" by presburger
    ultimately have "base64_padded b = ?s" "length ?s mod 4 = 0" by (simp_all only: base64_padded_def len) simp_all
    then show ?thesis using two [of ?s] last dec by (auto simp: std_decode_def Let_def)
  next
    assume b: "length b = 3 * k + 1"
    then have e: "base64_padded b = ?s @ [?pad, ?pad]" by (simp add: base64_padded_def numeral_2_eq_2)
    have "length ?s = 4 * k + 2" by (simp add: len b)
    then show ?thesis using dec by (simp add: e std_decode_def)
  next
    assume b: "length b = 3 * k + 2"
    have "(3 * k + 2) mod 3 = Suc (Suc 0)" by presburger
    then have "length b mod 3 = Suc (Suc 0)" by (simp only: b)
    then have e: "base64_padded b = ?s @ [?pad]" by (simp add: base64_padded_def)
    have l: "length ?s = 4 * k + 3" by (simp add: len b)
    show ?thesis using dec two [of "?s @ [?pad]"] by (simp add: e std_decode_def l Let_def)
  qed
qed

text \<open>C30: 
  The credentials that the example client takes from its environment are those that the server reads from the
  request, byte for byte, whatever characters they have; only a colon in the client ID would move
  the boundary between the two.
\<close>

theorem example_authenticates:
  assumes "clientID \<noteq> []" and "clientSecret \<noteq> []" and "0x3A \<notin> set clientID"
  shows "\<exists>q. client_start \<lparr>SECURESHARE_BASE_URL = base, SECURESHARE_CLIENT_ID = Some clientID,
      SECURESHARE_CLIENT_SECRET = Some clientSecret\<rparr> = Inr q \<and>
    client_credentials (utf8_bytes (the (map_of (rq_headers q) ''Authorization''))) =
      Some (utf8_bytes clientID, utf8_bytes clientSecret)"
proof -
  let ?plain = "utf8_bytes (clientID @ [0x3A] @ clientSecret)"
  have plain: "?plain = utf8_bytes clientID @ 58 # utf8_bytes clientSecret"
    using utf8_bytes_Cons [of "0x3A" clientID clientSecret] by (simp add: utf8_bytes_colon is_low_def word_le_nat_alt)
  have nonempty: "utf8_bytes s \<noteq> []" if "s \<noteq> []" for s
    using that by (cases s rule: utf8_bytes.cases) (auto simp: utf8_unit_def)
  let ?b64 = "base64_padded ?plain"
  have "set ?b64 \<subseteq> set StdAlphabet \<union> {byte_of CHR ''=''}"
    using b64_encode_set [OF good_alphabets(1), of ?plain] by (auto simp: base64_padded_def Let_def)
  moreover have "list_all (\<lambda>x. unat x < 0x80) (byte_of CHR ''='' # StdAlphabet)"
    by (simp add: byte_of_def StdAlphabet_def ascii_def)
  ultimately have a: "list_all (\<lambda>x. unat x < 0x80) ?b64" by (auto simp: list_all_iff)
  have basic: "js ''Basic '' = text_of_bytes (ascii ''Basic '')" "list_all (\<lambda>x. unat x < 0x80) (ascii ''Basic '')"
    "map lower_byte (ascii ''Basic '') = ascii ''basic ''"
    by (simp_all add: text_of_bytes_def ascii_def js_def lower_byte_def)
  have "authorization clientID clientSecret = text_of_bytes (ascii ''Basic '' @ ?b64)"
    by (simp add: authorization_def basic(1) text_of_bytes_def)
  then have "utf8_bytes (authorization clientID clientSecret) = ascii ''Basic '' @ ?b64"
    using utf8_ascii [of "ascii ''Basic '' @ ?b64"] a basic(2) by simp
  moreover have "split2 58 ?plain = [utf8_bytes clientID, utf8_bytes clientSecret]"
    unfolding plain by (rule split2_append [OF utf8_no_colon [OF assms(3)]])
  moreover have "byte_of CHR '':'' = 58" by (simp add: byte_of_def)
  ultimately have "client_credentials (utf8_bytes (authorization clientID clientSecret)) =
      Some (utf8_bytes clientID, utf8_bytes clientSecret)"
    using nonempty assms(1,2) basic(3) by (simp add: client_credentials_def BasicAuth_def std_decode_padded)
  with assms(1,2) show ?thesis by (simp add: client_start_def string_or_empty_def Let_def)
qed

theorem example_authenticates_witness:
  "client_credentials (utf8_bytes (authorization [0x69, 0xE9] (js ''s:1''))) = Some (utf8_bytes [0x69, 0xE9], utf8_bytes (js ''s:1''))"
proof -
  have "[0x69, 0xE9] \<noteq> ([] :: jstr)" "js ''s:1'' \<noteq> []" "0x3A \<notin> set ([0x69, 0xE9] :: jstr)" by simp_all
  from example_authenticates [OF this, of None] show ?thesis
    by (auto simp: client_start_def string_or_empty_def Let_def)
qed

section \<open>The request is accepted\<close>

definition example_request :: create_request where
  "example_request = zero_create\<lparr>cr_title := js ''Example login'', cr_expires_in_seconds := 3600, cr_payload :=
     Some (zero_payload\<lparr>sp_type := js ''structured'', sp_fields :=
       [\<lparr>sf_name = js ''username'', sf_label = js ''Username'', sf_value = js ''example-user'', sf_sensitive = False, sf_multiline = False\<rparr>,
        \<lparr>sf_name = js ''password'', sf_label = js ''Password'', sf_value = js ''example-password'', sf_sensitive = True, sf_multiline = False\<rparr>]\<rparr>)\<rparr>"

lemma decode_example_field:
  "list_all (\<lambda>c. (of_char c :: nat) < 128) (n @ l @ v) \<Longrightarrow>
   decode_field True (example_field n l v b) =
     Some \<lparr>sf_name = js n, sf_label = js l, sf_value = js v, sf_sensitive = b, sf_multiline = False\<rparr>"
  by (simp add: example_field_def obj_def decode_field_def member_own set_field_member_def decode_string_def
      decode_bool_def zero_field_def text_literals)

lemma example_decoded: "decode_create example_payload = Some example_request"
  by (simp add: decode_create_def example_payload_def obj_def create_members set_create_member_def decode_string_def
      decode_int64_def decode_payload_def decode_fields_def decode_example_field member_own text_literals
      zero_create_def set_payload_member_def example_request_def zero_payload_def)

lemma example_canonical: "canonicalPayload example_request = Some (marshal_payload_json (the (cr_payload example_request)),
    \<lparr>ps_type = js ''structured'', ps_field_count = 2, ps_contains_sensitive = True\<rparr>)"
  by (simp add: canonicalPayload_def example_request_def zero_create_def marshalPayload_def normalizePayload_def
      type_names normal_field_def Let_def field_rejected_def text_literals zero_payload_def)

lemma example_size:
  "utf8_length (go_stringify (marshal_payload_json (the (cr_payload example_request)))) \<le> 300"
  by (simp add: example_request_def marshal_payload_json_def marshal_field_def zero_create_def zero_payload_def
      join_def text_literals js_append)

text \<open>
  The example's request is one that the server accepts, within any configuration that allows 300 bytes and an
  hour: it is decoded, its two fields pass the normalisation unchanged, and the link lives for an hour.
\<close>

theorem example_accepted:
  assumes "300 \<le> MaxSecretBytes env" and "3600000000000 \<le> MaxSecretTTL env"
  shows "\<exists>req summary. decode_create example_payload = Some req \<and>
    canonicalPayload req = Some (marshal_payload_json (the (cr_payload req)), summary) \<and>
    validateCreate env req (go_stringify (marshal_payload_json (the (cr_payload req)))) = None \<and>
    ps_field_count summary = 2 \<and> ps_contains_sensitive summary \<and>
    ttl env (cr_expires_in_seconds req) = 3600 * 1000000000"
proof -
  obtain t where t: "t = go_stringify (marshal_payload_json (the (cr_payload example_request)))" by simp
  have t_form: "t \<noteq> []" "t \<noteq> js ''null''" by (simp_all add: t marshal_payload_json_def js_def)
  have small: "utf8_length (cr_title example_request) \<le> 255" "utf8_length (cr_description example_request) \<le> 2000"
    "utf8_length (cr_recipient_reference example_request) \<le> 255" "cr_max_failed_attempts example_request = 0"
    by (simp_all add: example_request_def zero_create_def text_literals)
  have seconds: "seconds_duration (cr_expires_in_seconds example_request) = 3600000000000"
    "\<not> sint (cr_expires_in_seconds example_request) \<le> 0"
    by (simp_all add: example_request_def zero_create_def seconds_duration_def)
  have "int (utf8_length t) \<le> 300" using example_size by (simp add: t)
  with assms t_form small seconds have "validateCreate env example_request t = None"
    by (simp add: validateCreate_def)
  with seconds show ?thesis
    by (intro exI [of _ example_request] exI) (auto simp: example_decoded example_canonical ttl_def t [symmetric])
qed

theorem example_accepted_witness:
  "\<exists>req. decode_create example_payload = Some req \<and>
    ttl sample_env (cr_expires_in_seconds req) = 3600000000000"
  using example_accepted [of sample_env] by (auto simp: sample_env_def)

text \<open>
  The client succeeds, with exit code 0, exactly when a 2xx answer with a readable body other than \<^verbatim>\<open>null\<close> arrives in
  time, and without credentials it sends nothing.
\<close>

lemma client_exit_codes:
  "client_finish aborted r = Exit 0 line \<longleftrightarrow>
     \<not> aborted \<and> (\<exists>status body. r = Answer status (Some body) \<and> resp_ok status \<and> body \<noteq> JNull \<and>
       line = Some (to_string (get_prop (Some body) ''url'')))"
  by (auto simp: client_finish_def split: fetch_result.split option.split json.split)

section \<open>The documentation page starts\<close>

lemma swagger_starts:
  "swagger_load target bundle \<noteq> None \<longleftrightarrow> target \<noteq> None \<and> bundle"
  by (auto simp: swagger_load_def split: option.split)

end
