(* ===== verification/JsonRoundTrip.thy ===== *)
theory JsonRoundTrip
  imports JsonParse ServerPayload
begin

text \<open>
  JSON text and value. Both sides write JSON: the browser with \<^verbatim>\<open>JSON.stringify\<close>, the server with
  \<^verbatim>\<open>json.Marshal\<close>, which quotes differently; the browser reads it with \<^verbatim>\<open>JSON.parse\<close>. The contract of a quoting
  function is a locale, in which reading what was written is proved once; both functions satisfy it. The
  fuel of the parser is shown to be enough for every text that was written.
\<close>

section \<open>Numbers\<close>

lemma unat_digit: "n < 10 \<Longrightarrow> unat (word_of_nat (48 + n) :: jchar) = 48 + n"
  by (subst unat_of_nat) simp

lemma digit_char: "n < 10 \<Longrightarrow> is_digit (word_of_nat (48 + n)) \<and> digit_value (word_of_nat (48 + n)) = n"
  using unat_digit [of n] by (simp add: is_digit_def digit_value_def word_le_nat_alt)

lemma digits_value_snoc: "digits_value (s @ [c]) = 10 * digits_value s + digit_value c"
  by (simp add: digits_value_def)

lemma nat_digits_props: "list_all is_digit (nat_digits n) \<and> digits_value (nat_digits n) = n"
proof (induction n rule: nat_digits.induct)
  case (1 n)
  show ?case
  proof (cases "n < 10")
    case True
    then have "nat_digits n = [word_of_nat (48 + n)]" by (simp add: nat_digits.simps [of n])
    with digit_char [OF True] show ?thesis by (simp add: digits_value_def)
  next
    case False
    then have d: "nat_digits n = nat_digits (n div 10) @ [word_of_nat (48 + n mod 10)]"
      by (simp add: nat_digits.simps [of n])
    have "n mod 10 < 10" by simp
    from 1 [OF False] digit_char [OF this] show ?thesis by (simp add: d digits_value_snoc)
  qed
qed

lemma nat_digits_head: "0 < n \<Longrightarrow> hd (nat_digits n) \<noteq> 0x30"
proof (induction n rule: nat_digits.induct)
  case (1 n)
  show ?case
  proof (cases "n < 10")
    case True
    have "unat (word_of_nat (48 + n) :: jchar) \<noteq> unat (0x30 :: jchar)"
      using unat_digit [OF True] 1(2) by simp
    then have "(word_of_nat (48 + n) :: jchar) \<noteq> 0x30" by metis
    with True show ?thesis by (simp add: nat_digits.simps [of n] del: of_nat_add)
  next
    case False
    then show ?thesis using 1(1) by (simp add: nat_digits.simps [of n])
  qed
qed

lemma digits_value_zeros: "digits_value (replicate k 48 @ s) = digits_value s"
proof (induction k)
  case (Suc k)
  then show ?case by (simp add: digits_value_def digit_value_def)
qed simp

text \<open>The text that may follow a value.\<close>

definition stops :: "jstr \<Rightarrow> bool" where
  "stops rest \<longleftrightarrow> rest = [] \<or> hd rest \<in> {0x2C, 0x5D, 0x7D}"

lemma stops_digit: "stops rest \<Longrightarrow> takeWhile is_digit rest = [] \<and> dropWhile is_digit rest = rest"
  by (cases rest) (auto simp: stops_def is_digit_def word_le_nat_alt)

lemma digits_then:
  assumes "list_all is_digit s" and "stops rest \<or> (\<exists>t. rest = 0x2E # t)"
  shows "takeWhile is_digit (s @ rest) = s \<and> dropWhile is_digit (s @ rest) = rest"
proof -
  have "takeWhile is_digit rest = [] \<and> dropWhile is_digit rest = rest"
    using assms(2) stops_digit [of rest] by (auto simp: is_digit_def word_le_nat_alt)
  moreover have "\<forall>x \<in> set s. is_digit x" using assms(1) by (simp add: list_all_iff)
  ultimately show ?thesis by (simp add: takeWhile_append dropWhile_append)
qed

lemma parse_exponent_none: "stops rest \<Longrightarrow> parse_exponent rest = Some (0, rest)"
  by (cases rest) (auto simp: stops_def parse_exponent_def)

lemma parse_fraction_none: "stops rest \<Longrightarrow> parse_fraction rest = Some ([], rest)"
  by (cases rest) (auto simp: stops_def parse_fraction_def)

lemma parse_fraction_some:
  assumes "list_all is_digit f" and "f \<noteq> []" and "stops rest"
  shows "parse_fraction (0x2E # f @ rest) = Some (f, rest)"
  using digits_then [OF assms(1)] assms(2,3) by (simp add: parse_fraction_def)

text \<open>The text of the absolute value, split at the point.\<close>

definition num_whole :: "nat \<Rightarrow> nat \<Rightarrow> jstr" where
  "num_whole a e = (let padded = replicate (Suc e - length (nat_digits a)) 48 @ nat_digits a
     in take (length padded - e) padded)"

definition num_fraction :: "nat \<Rightarrow> nat \<Rightarrow> jstr" where
  "num_fraction a e = (let padded = replicate (Suc e - length (nat_digits a)) 48 @ nat_digits a
     in drop (length padded - e) padded)"

lemma plain_text_split:
  "plain_text e (nat_digits a) = num_whole a e @ (if e = 0 then [] else js ''.'' @ num_fraction a e)"
proof (cases "e = 0")
  case True
  have "Suc 0 - length (nat_digits a) = 0" using nat_digits_nonempty [of a] by (cases "nat_digits a") auto
  with True show ?thesis by (simp add: plain_text_def num_whole_def Let_def)
qed (simp add: plain_text_def num_whole_def num_fraction_def Let_def)

lemma num_parts:
  "list_all is_digit (num_whole a e)" "list_all is_digit (num_fraction a e)" "num_whole a e \<noteq> []"
  "length (num_fraction a e) = e" "digits_value (num_whole a e @ num_fraction a e) = a"
  "0 < a \<or> e = 0 \<Longrightarrow> \<not> (1 < length (num_whole a e) \<and> hd (num_whole a e) = 0x30)"
proof -
  let ?k = "Suc e - length (nat_digits a)"
  let ?p = "replicate ?k 48 @ nat_digits a"
  have zero: "is_digit 48" by (simp add: is_digit_def)
  have all: "list_all is_digit ?p" using nat_digits_props [of a] zero by (auto simp: list_all_iff)
  then show "list_all is_digit (num_whole a e)" "list_all is_digit (num_fraction a e)"
    unfolding num_whole_def num_fraction_def Let_def list_all_iff by (blast dest: in_set_takeD in_set_dropD)+
  obtain p where p: "p = ?p" by simp
  have len: "Suc e \<le> length p" by (simp add: p)
  have parts: "num_whole a e = take (length p - e) p" "num_fraction a e = drop (length p - e) p"
    by (simp_all only: num_whole_def num_fraction_def Let_def p)
  show "num_whole a e \<noteq> []" using len by (auto simp: parts)
  show "length (num_fraction a e) = e" using len by (simp add: parts)
  have "num_whole a e @ num_fraction a e = ?p" by (simp only: parts append_take_drop_id p)
  then show "digits_value (num_whole a e @ num_fraction a e) = a"
    using nat_digits_props [of a] digits_value_zeros [of ?k "nat_digits a"] by simp
  show "\<not> (1 < length (num_whole a e) \<and> hd (num_whole a e) = 0x30)" if "0 < a \<or> e = 0"
  proof (cases "?k = 0")
    case True
    then have w: "num_whole a e = take (length (nat_digits a) - e) (nat_digits a)"
      by (simp add: num_whole_def Let_def)
    show ?thesis
    proof (cases "a = 0")
      case True
      then have "length (nat_digits a) = 1" by (simp add: nat_digits.simps [of 0])
      then have "length (num_whole a e) \<le> 1" by (simp add: w)
      then show ?thesis by linarith
    next
      case False
      with nat_digits_head [of a] show ?thesis by (auto simp: w hd_take)
    qed
  next
    case False
    then have "length p = Suc e" by (simp add: p)
    then have "length (num_whole a e) = 1" by (simp add: parts)
    then show ?thesis by simp
  qed
qed

text \<open>The parser after the sign.\<close>

definition number_body :: "bool \<Rightarrow> jstr \<Rightarrow> (json \<times> jstr) option" where
  "number_body negative t =
     (let whole = takeWhile is_digit t
      in if whole = [] \<or> (1 < length whole \<and> hd whole = 0x30) then None
         else (case parse_fraction (dropWhile is_digit t) of None \<Rightarrow> None
               | Some (fraction, u) \<Rightarrow> (case parse_exponent u of None \<Rightarrow> None
                  | Some (exponent, v) \<Rightarrow> Some (number_value negative (digits_value (whole @ fraction))
                      (exponent - int (length fraction)), v))))"

lemma parse_number_sign:
  "parse_number (0x2D # t) = number_body True t"
  "t \<noteq> [] \<Longrightarrow> hd t \<noteq> 0x2D \<Longrightarrow> parse_number t = number_body False t"
proof -
  have "parse_number s = (let negative = (case s of [] \<Rightarrow> False | c # _ \<Rightarrow> c = 0x2D)
      in number_body negative (if negative then tl s else s))" for s
    unfolding parse_number_def number_body_def Let_def by (rule refl)
  then have eq: "parse_number s = number_body (s \<noteq> [] \<and> hd s = 0x2D) (if s \<noteq> [] \<and> hd s = 0x2D then tl s else s)" for s
    by (cases s) (simp_all add: Let_def)
  show "parse_number (0x2D # t) = number_body True t" by (subst eq) simp
  show "parse_number t = number_body False t" if "t \<noteq> []" "hd t \<noteq> 0x2D" using that by (subst eq) simp
qed

text \<open>Digits, an optional fraction and an optional exponent are read as the number they denote.\<close>

lemma number_body_text:
  assumes "list_all is_digit w" and "w \<noteq> []" and "\<not> (1 < length w \<and> hd w = 0x30)" and "list_all is_digit f"
    and "parse_exponent rest = Some (x, rest')" and "stops rest \<or> (\<exists>t. rest = 0x65 # t)"
  shows "number_body negative (w @ (if f = [] then [] else js ''.'' @ f) @ rest) =
    Some (number_value negative (digits_value (w @ f)) (x - int (length f)), rest')"
proof -
  let ?tail = "(if f = [] then [] else js ''.'' @ f) @ rest"
  have point: "js ''.'' = [0x2E]" by (simp add: js_def)
  have no_digit: "takeWhile is_digit rest = [] \<and> dropWhile is_digit rest = rest"
    using assms(6) stops_digit [of rest] by (auto simp: is_digit_def word_le_nat_alt)
  have "takeWhile is_digit ?tail = [] \<and> dropWhile is_digit ?tail = ?tail"
    using no_digit by (simp add: point is_digit_def word_le_nat_alt)
  moreover have "\<forall>c \<in> set w. is_digit c" "\<forall>c \<in> set f. is_digit c" using assms(1,4) by (simp_all add: list_all_iff)
  ultimately have w: "takeWhile is_digit (w @ ?tail) = w" "dropWhile is_digit (w @ ?tail) = ?tail"
    by (simp_all add: takeWhile_append dropWhile_append)
  have "parse_fraction ?tail = Some (f, rest)"
  proof (cases "f = []")
    case True
    have "rest = [] \<or> hd rest \<noteq> 0x2E" using assms(6) by (auto simp: stops_def)
    with True show ?thesis by (cases rest) (simp_all add: parse_fraction_def)
  next
    case False
    with no_digit \<open>\<forall>c \<in> set f. is_digit c\<close> show ?thesis
      by (simp add: parse_fraction_def point takeWhile_append dropWhile_append)
  qed
  with w assms(2,3,5) show ?thesis unfolding number_body_def Let_def by (simp only:) simp
qed

lemma digits_value_append: "list_all is_digit t \<Longrightarrow> digits_value (s @ t) = digits_value s * 10 ^ length t + digits_value t"
proof (induction t rule: rev_induct)
  case (snoc c t)
  then show ?case by (simp add: digits_value_snoc append_assoc [symmetric] algebra_simps del: append_assoc)
qed (simp add: digits_value_def)

text \<open>The digits without the zeros at their end.\<close>

lemma strip_zeros_props:
  assumes "0 < a"
  obtains j where "nat_digits a = strip_zeros (nat_digits a) @ replicate j 48" "strip_zeros (nat_digits a) \<noteq> []"
    "list_all is_digit (strip_zeros (nat_digits a))" "a = digits_value (strip_zeros (nat_digits a)) * 10 ^ j"
proof -
  let ?d = "nat_digits a" and ?z = "\<lambda>c :: jchar. c = 48"
  let ?t = "takeWhile ?z (rev ?d)"
  have "rev ?d = ?t @ dropWhile ?z (rev ?d)" by simp
  then have "?d = rev (dropWhile ?z (rev ?d)) @ rev ?t" by (metis rev_append rev_rev_ident)
  moreover have "?t = replicate (length ?t) 48"
    by (rule replicate_eqI) (auto dest: set_takeWhileD)
  then have "rev ?t = replicate (length ?t) 48" by (metis rev_replicate)
  ultimately have d: "?d = strip_zeros ?d @ replicate (length ?t) 48" unfolding strip_zeros_def by metis
  have digit: "list_all is_digit (strip_zeros ?d @ replicate (length ?t) 48)"
    using nat_digits_props [of a] d by simp
  have zeros: "digits_value (replicate k 48) = 0" for k using digits_value_zeros [of k "[]"] by (simp add: digits_value_def)
  have "a = digits_value (strip_zeros ?d @ replicate (length ?t) 48)" using nat_digits_props [of a] d by simp
  then have a: "a = digits_value (strip_zeros ?d) * 10 ^ length ?t"
    using digits_value_append [of "replicate (length ?t) 48"] digit by (simp add: zeros)
  moreover have "strip_zeros ?d \<noteq> []" using a assms by (auto simp: digits_value_def)
  ultimately show ?thesis using that [OF d] digit by simp
qed

lemma exponent_written:
  assumes "stops rest"
  shows "parse_exponent (js ''e'' @ (if x < 0 then js ''-'' else js ''+'') @ nat_digits (nat \<bar>x\<bar>) @ rest) = Some (x, rest)"
proof -
  have "takeWhile is_digit (nat_digits n @ rest) = nat_digits n" "dropWhile is_digit (nat_digits n @ rest) = rest" for n
    using digits_then [of "nat_digits n" rest] nat_digits_props [of n] assms by simp_all
  moreover have "js ''e'' = [0x65]" "js ''-'' = [0x2D]" "js ''+'' = [0x2B]" by (simp_all add: js_def)
  moreover have "digits_value (nat_digits n) = n" for n using nat_digits_props by blast
  ultimately show ?thesis by (simp add: parse_exponent_def Let_def)
qed

lemma number_body_written:
  assumes "num_ok m e" and "stops rest"
  obtains t where "num_text m e @ rest = (if m < 0 then [0x2D] else []) @ t" "number_body (m < 0) t = Some (JNum m e, rest)"
    "t \<noteq> []" "is_digit (hd t)"
proof -
  let ?a = "nat \<bar>m\<bar>"
  let ?d = "nat_digits ?a"
  let ?n = "int (length ?d) - int e"
  have minus: "js ''-'' = [0x2D]" by (simp add: js_def)
  show ?thesis
  proof (cases "m \<noteq> 0 \<and> (21 < ?n \<or> ?n \<le> -6)")
    case True
    obtain j where j: "?d = strip_zeros ?d @ replicate j 48" "strip_zeros ?d \<noteq> []"
      "list_all is_digit (strip_zeros ?d)" "?a = digits_value (strip_zeros ?d) * 10 ^ j"
      using strip_zeros_props [of ?a] True by auto
    obtain c f where s: "strip_zeros ?d = c # f" using j(2) by (cases "strip_zeros ?d") auto
    let ?e = "js ''e'' @ (if ?n - 1 < 0 then js ''-'' else js ''+'') @ nat_digits (nat \<bar>?n - 1\<bar>) @ rest"
    have written: "num_text m e @ rest = (if m < 0 then [0x2D] else []) @ [c] @ (if f = [] then [] else js ''.'' @ f) @ ?e"
      using True by (simp add: num_text_def exponent_text_def Let_def s minus)
    have e: "stops ?e \<or> (\<exists>t. ?e = 0x65 # t)" by (simp add: js_def)
    have "list_all is_digit [c]" "list_all is_digit f" using j(3) by (simp_all add: s)
    from number_body_text [OF this(1) _ _ this(2) exponent_written [OF assms(2)] e, of "m < 0"]
    have body: "number_body (m < 0) ([c] @ (if f = [] then [] else js ''.'' @ f) @ ?e) =
        Some (number_value (m < 0) (digits_value (strip_zeros ?d)) (?n - 1 - int (length f)), rest)"
      by (simp add: s)
    have "length ?d = Suc (length f) + j" using arg_cong [OF j(1), of length] by (simp add: s)
    then have "?n - 1 - int (length f) = int j - int e" by simp
    with body number_value_ok [OF assms(1) j(4)]
    have "number_body (m < 0) ([c] @ (if f = [] then [] else js ''.'' @ f) @ ?e) = Some (JNum m e, rest)" by simp
    with that [OF written this] \<open>list_all is_digit [c]\<close> show ?thesis by simp
  next
    case False
    let ?w = "num_whole ?a e" and ?f = "if e = 0 then [] else num_fraction ?a e"
    have normal: "0 < ?a \<or> e = 0" using assms(1) number_normal [of "m < 0" ?a "- int e" m e] by (auto simp: num_ok_def)
    have f: "(if e = 0 then [] else js ''.'' @ num_fraction ?a e) = (if ?f = [] then [] else js ''.'' @ ?f)"
      using num_parts(4) [of ?a e] by (cases "e = 0") auto
    have written: "num_text m e @ rest = (if m < 0 then [0x2D] else []) @ ?w @ (if ?f = [] then [] else js ''.'' @ ?f) @ rest"
      unfolding f [symmetric] num_text_def Let_def if_not_P [OF False] plain_text_split minus append_assoc by (rule refl)
    have all: "list_all is_digit ?f" using num_parts(2) [of ?a e] by simp
    have "digits_value (?w @ ?f) = ?a" "length ?f = e" using num_parts(4,5) [of ?a e] by (cases "e = 0"; simp)+
    with number_body_text [OF num_parts(1,3,6) [of ?a e] all parse_exponent_none [OF assms(2)], of "m < 0"] normal assms
    have "number_body (m < 0) (?w @ (if ?f = [] then [] else js ''.'' @ ?f) @ rest) = Some (JNum m e, rest)"
      by (simp add: num_ok_def)
    from that [OF written this] num_parts(1,3) [of ?a e] show ?thesis by (cases ?w) auto
  qed
qed

lemma parse_number_text:
  assumes "num_ok m e" and "stops rest"
  shows "parse_number (num_text m e @ rest) = Some (JNum m e, rest)"
proof -
  obtain t where t: "num_text m e @ rest = (if m < 0 then [0x2D] else []) @ t" "number_body (m < 0) t = Some (JNum m e, rest)"
    "t \<noteq> []" "is_digit (hd t)" by (rule number_body_written [OF assms])
  have "hd t \<noteq> 0x2D" using t(4) by (auto simp: is_digit_def word_le_nat_alt)
  with t parse_number_sign show ?thesis by (cases "m < 0") auto
qed

section \<open>Strings\<close>

text \<open>The quoting of one code unit is read back as that unit.\<close>

definition reads_back :: "jstr \<Rightarrow> jchar \<Rightarrow> bool" where
  "reads_back text u \<longleftrightarrow> (\<forall>rest. parse_chars (text @ rest) = map_option (apfst (Cons u)) (parse_chars rest))"

lemma hex_value_digit: "n < 16 \<Longrightarrow> hex_value (hex_digit n) = Some n"
proof -
  assume n: "n < 16"
  have u: "unat (hex_digit n) = (if n < 10 then 48 + n else 87 + n)"
    unfolding hex_digit_def using n by (subst unat_of_nat) simp
  show ?thesis using n by (auto simp: hex_value_def is_digit_def word_le_nat_alt u)
qed

lemma hex_split:
  fixes n :: nat
  assumes "n < 65536"
  shows "n div 4096 * 4096 + n div 256 mod 16 * 256 + n div 16 mod 16 * 16 + n mod 16 = n"
proof -
  have "n div 16 * 16 + n mod 16 = n" by simp
  moreover have "n div 256 * 16 + n div 16 mod 16 = n div 16"
    using div_mult_mod_eq [of "n div 16" 16] by (simp add: div_mult2_eq [symmetric])
  moreover have "n div 4096 * 16 + n div 256 mod 16 = n div 256"
    using div_mult_mod_eq [of "n div 256" 16] by (simp add: div_mult2_eq [symmetric])
  ultimately show ?thesis by linarith
qed

lemma reads_back_escape: "reads_back (unicode_escape u) u"
proof -
  have n: "unat u < 65536" using unsigned_less [where 'a = nat, of u] by simp
  then have "unat u div 4096 < 16" by (simp add: less_mult_imp_div_less)
  then have "hex4 (hex_digit (unat u div 4096)) (hex_digit (unat u div 256 mod 16))
      (hex_digit (unat u div 16 mod 16)) (hex_digit (unat u mod 16)) = Some u"
    using hex_split [OF n] by (simp add: hex4_def hex_value_digit)
  then show ?thesis by (simp add: reads_back_def unicode_escape_def Let_def)
qed

lemma reads_back_plain: "\<not> u < 0x20 \<Longrightarrow> u \<noteq> 0x22 \<Longrightarrow> u \<noteq> 0x5C \<Longrightarrow> reads_back [u] u"
  by (simp add: reads_back_def)

lemma reads_back_short:
  "simple_escape d = Some u \<Longrightarrow> d \<noteq> 0x75 \<Longrightarrow> reads_back [0x5C, d] u"
  by (simp add: reads_back_def)

lemma reads_back_quote_unit: "reads_back (quote_unit u) u"
  unfolding quote_unit_def
  by (auto simp: reads_back_escape simple_escape_def intro!: reads_back_short reads_back_plain)

lemma reads_back_go_quote_unit: "reads_back (go_quote_unit u) u"
  by (simp add: go_quote_unit_def reads_back_escape reads_back_quote_unit)

lemma high_plain: "is_high u \<Longrightarrow> reads_back [u] u" "is_low u \<Longrightarrow> reads_back [u] u"
  by (rule reads_back_plain; auto simp: is_high_def is_low_def word_le_nat_alt word_less_nat_alt)+

lemma reads_back_append: "reads_back text u \<Longrightarrow>
    parse_chars ((text @ s) @ rest) = map_option (apfst (Cons u)) (parse_chars (s @ rest))"
  by (simp add: reads_back_def)

lemma reads_back_pair:
  "is_high u \<Longrightarrow> is_low v \<Longrightarrow>
     parse_chars (u # v # s) = map_option (apfst (Cons u)) (map_option (apfst (Cons v)) (parse_chars s))"
  using high_plain(1) [of u] high_plain(2) [of v] unfolding reads_back_def
  by (metis append_Cons append_Nil)

lemma parse_quote_units: "parse_chars (quote_units s @ 0x22 # rest) = Some (s, rest)"
proof (induction s rule: quote_units.induct)
  case (2 u)
  then show ?case using reads_back_quote_unit [of u] by (simp add: reads_back_def)
next
  case (3 u v s)
  show ?case
  proof (cases "is_high u \<and> is_low v")
    case True
    with 3(1) show ?thesis by (simp add: reads_back_pair del: parse_chars.simps)
  next
    case False
    with 3(2) reads_back_append [OF reads_back_quote_unit, of u] show ?thesis by auto
  qed
qed simp

lemma parse_go_quote_units: "parse_chars (go_quote_units s @ 0x22 # rest) = Some (s, rest)"
proof (induction s rule: go_quote_units.induct)
  case (2 u)
  then show ?case using reads_back_go_quote_unit [of u] by (simp add: reads_back_def)
next
  case (3 u v s)
  show ?case
  proof (cases "is_high u \<and> is_low v")
    case True
    with 3(1) show ?thesis by (simp add: reads_back_pair del: parse_chars.simps)
  next
    case False
    with 3(2) reads_back_append [OF reads_back_go_quote_unit, of u] show ?thesis by auto
  qed
qed simp

section \<open>Values\<close>

text \<open>Both writers, over their quoting function.\<close>

fun write_json :: "(jstr \<Rightarrow> jstr) \<Rightarrow> json \<Rightarrow> jstr" where
  "write_json q JNull = js ''null''"
| "write_json q (JBool b) = (if b then js ''true'' else js ''false'')"
| "write_json q (JNum m e) = num_text m e"
| "write_json q (JStr s) = q s"
| "write_json q (JArr xs) = js ''['' @ join (js '','') (map (write_json q) xs) @ js '']''"
| "write_json q (JObj kvs) =
     js ''{'' @ join (js '','') (map (\<lambda>(k, v). q k @ js '':'' @ write_json q v) kvs) @ js ''}''"

lemma stringify_write: "stringify v = write_json json_quote v"
proof (induction v rule: stringify.induct)
  case (6 kvs)
  then have "map (\<lambda>(k, v). json_quote k @ js '':'' @ stringify v) kvs =
      map (\<lambda>(k, v). json_quote k @ js '':'' @ write_json json_quote v) kvs"
    by (intro map_cong) auto
  then show ?case by (simp only: stringify.simps write_json.simps)
qed (simp_all cong: map_cong)

lemma go_stringify_write: "go_stringify v = write_json go_quote v"
proof (induction v rule: go_stringify.induct)
  case (6 kvs)
  then have "map (\<lambda>(k, v). go_quote k @ js '':'' @ go_stringify v) kvs =
      map (\<lambda>(k, v). go_quote k @ js '':'' @ write_json go_quote v) kvs"
    by (intro map_cong) auto
  then show ?case by (simp only: go_stringify.simps write_json.simps)
qed (simp_all cong: map_cong)

text \<open>
  The values that \<^verbatim>\<open>JSON.parse\<close> returns: numbers that are shortest decimals of doubles, distinct names in the order
  of enumeration.
\<close>

fun json_ok :: "json \<Rightarrow> bool" where
  "json_ok (JNum m e) = num_ok m e"
| "json_ok (JArr xs) = (\<forall>x \<in> set xs. json_ok x)"
| "json_ok (JObj kvs) = (distinct (map fst kvs) \<and> enumeration_order kvs = kvs \<and> (\<forall>kv \<in> set kvs. json_ok (snd kv)))"
| "json_ok _ = True"

text \<open>The fuel that reading a value takes.\<close>

fun need :: "json \<Rightarrow> nat" where
  "need (JArr xs) = Suc (foldr (\<lambda>x n. Suc (max (need x) n)) xs 0)"
| "need (JObj kvs) = Suc (foldr (\<lambda>kv n. Suc (max (need (snd kv)) n)) kvs 0)"
| "need _ = 1"

definition starts :: "jstr \<Rightarrow> bool" where
  "starts s \<longleftrightarrow> s \<noteq> [] \<and> \<not> json_white (hd s) \<and> hd s \<noteq> 0x5D \<and> hd s \<noteq> 0x7D"

lemma starts_skip: "starts s \<Longrightarrow> skip_white (s @ rest) = s @ rest"
  by (cases s) (auto simp: starts_def skip_white_def)

lemma starts_append: "starts s \<Longrightarrow> starts (s @ rest)"
  by (cases s) (auto simp: starts_def)

lemma skip_white_mark: "c \<in> {0x22, 0x2C, 0x3A, 0x5D, 0x7D} \<Longrightarrow> skip_white (c # s) = c # s"
  by (auto simp: skip_white_def json_white_def)

lemma num_text_head: "num_text m e \<noteq> [] \<and> (hd (num_text m e) = 0x2D \<or> is_digit (hd (num_text m e)))"
proof -
  obtain a where a: "a = nat \<bar>m\<bar>" by simp
  let ?a = a
  have plain: "plain_text e (nat_digits ?a) \<noteq> [] \<and> is_digit (hd (plain_text e (nat_digits ?a)))"
    using num_parts(1,3) [of ?a e] unfolding plain_text_split by (cases "num_whole ?a e") simp_all
  have "exponent_text (nat_digits ?a) n \<noteq> [] \<and> is_digit (hd (exponent_text (nat_digits ?a) n))" if "m \<noteq> 0" for n
  proof -
    have "0 < ?a" using that by (simp add: a)
    then obtain j where "strip_zeros (nat_digits ?a) \<noteq> []" "list_all is_digit (strip_zeros (nat_digits ?a))"
      by (rule strip_zeros_props)
    then show ?thesis by (cases "strip_zeros (nat_digits ?a)") (simp_all add: exponent_text_def Let_def)
  qed
  with plain show ?thesis unfolding num_text_def Let_def a [symmetric] by (simp add: js_def)
qed

lemma join_Cons: "join sep (x # xs) = x @ (if xs = [] then [] else sep @ join sep xs)"
  by (cases xs) (simp_all add: join_def)

lemma join_Nil [simp]: "join sep [] = []"
  by (simp add: join_def)

lemma put_new: "k \<notin> fst ` set kvs \<Longrightarrow> put k v kvs = kvs @ [(k, v)]"
  by (induction k v kvs rule: put.induct) auto

lemma literal_own: "literal t v (js t @ rest) = Some (v, rest)"
  by (simp add: literal_def)

locale json_quoting =
  fixes quote :: "jstr \<Rightarrow> jstr" and quoted :: "jstr \<Rightarrow> jstr"
  assumes quote_form: "quote s = 0x22 # quoted s @ [0x22]"
    and quoted_read: "parse_chars (quoted s @ 0x22 # rest) = Some (s, rest)"
begin

lemma write_starts: "starts (write_json quote v)"
proof (cases v)
  case (JNum m e)
  then show ?thesis
    using num_text_head [of m e]
    by (auto simp: starts_def json_white_def is_digit_def word_le_nat_alt)
qed (auto simp: starts_def js_def json_white_def quote_form)

lemma parse_string: "parse_value (Suc n) (quote s @ rest) = Some (JStr s, rest)"
  by (simp add: quote_form skip_white_mark quoted_read)

lemma parse_number_value:
  assumes "num_ok m e" and "stops rest"
  shows "parse_value (Suc n) (num_text m e @ rest) = Some (JNum m e, rest)"
proof -
  have s: "starts (num_text m e)" using write_starts [of "JNum m e"] by simp
  obtain c t where c: "num_text m e = c # t" using s by (cases "num_text m e") (auto simp: starts_def)
  have "c = 0x2D \<or> is_digit c" using num_text_head [of m e] by (simp add: c)
  then have "c \<notin> {0x22, 0x5B, 0x7B, 0x6E, 0x74, 0x66}" by (auto simp: is_digit_def word_le_nat_alt)
  with starts_skip [OF s, of rest] parse_number_text [OF assms] show ?thesis by (simp add: c)
qed

lemma parse_literals:
  "parse_value (Suc n) (js ''null'' @ rest) = Some (JNull, rest)"
  "parse_value (Suc n) (js ''true'' @ rest) = Some (JBool True, rest)"
  "parse_value (Suc n) (js ''false'' @ rest) = Some (JBool False, rest)"
proof -
  have "skip_white (js ''null'' @ rest) = js ''null'' @ rest" "skip_white (js ''true'' @ rest) = js ''true'' @ rest"
    "skip_white (js ''false'' @ rest) = js ''false'' @ rest"
    by (simp_all add: js_def skip_white_def json_white_def)
  moreover have "js ''null'' @ rest = 0x6E # (js ''ull'' @ rest)" "js ''true'' @ rest = 0x74 # (js ''rue'' @ rest)"
    "js ''false'' @ rest = 0x66 # (js ''alse'' @ rest)"
    by (simp_all add: js_def)
  ultimately show "parse_value (Suc n) (js ''null'' @ rest) = Some (JNull, rest)"
    "parse_value (Suc n) (js ''true'' @ rest) = Some (JBool True, rest)"
    "parse_value (Suc n) (js ''false'' @ rest) = Some (JBool False, rest)"
    using literal_own [of "''null''" JNull rest] literal_own [of "''true''" "JBool True" rest]
      literal_own [of "''false''" "JBool False" rest]
    by simp_all
qed

text \<open>The elements of an array and the members of an object, in a context where their values are read.\<close>

definition reads :: "json \<Rightarrow> bool" where
  "reads v \<longleftrightarrow> (\<forall>n rest. need v \<le> n \<and> stops rest \<longrightarrow> parse_value n (write_json quote v @ rest) = Some (v, rest))"

lemma parse_elements_written:
  assumes "xs \<noteq> []" and "\<forall>x \<in> set xs. reads x" and "foldr (\<lambda>x n. Suc (max (need x) n)) xs 0 \<le> n"
  shows "parse_elements n done (join (js '','') (map (write_json quote) xs) @ 0x5D # rest) =
    Some (JArr (done @ xs), rest)"
  using assms
proof (induction xs arbitrary: n "done")
  case (Cons x xs)
  obtain m where n: "n = Suc m" and m: "need x \<le> m" "foldr (\<lambda>x n. Suc (max (need x) n)) xs 0 \<le> m"
    using Cons.prems(3) by (cases n) auto
  have comma: "js '','' = [0x2C]" by (simp add: js_def)
  have "reads x" using Cons.prems(2) by simp
  then have x: "stops r \<Longrightarrow> parse_value m (write_json quote x @ r) = Some (x, r)" for r
    using m(1) by (simp add: reads_def)
  show ?case
  proof (cases "xs = []")
    case True
    then show ?thesis using x [of "0x5D # rest"] by (simp add: n join_Cons stops_def skip_white_mark)
  next
    case False
    have s: "join (js '','') (map (write_json quote) (x # xs)) @ 0x5D # rest =
        write_json quote x @ 0x2C # join (js '','') (map (write_json quote) xs) @ 0x5D # rest"
      using False by (simp add: join_Cons comma)
    from Cons.IH [OF False _ m(2), of "done @ [x]"] Cons.prems(2) False show ?thesis
      unfolding s by (simp add: n x stops_def skip_white_mark)
  qed
qed simp

definition member_text :: "jstr \<times> json \<Rightarrow> jstr" where
  "member_text kv = quote (fst kv) @ js '':'' @ write_json quote (snd kv)"

lemma write_object: "write_json quote (JObj kvs) = js ''{'' @ join (js '','') (map member_text kvs) @ js ''}''"
proof -
  have "map (\<lambda>(k, v). quote k @ js '':'' @ write_json quote v) kvs = map member_text kvs"
    by (auto simp: member_text_def)
  then show ?thesis by (simp only: write_json.simps)
qed

lemma parse_members_written:
  assumes "kvs \<noteq> []" and "\<forall>kv \<in> set kvs. reads (snd kv)" and "distinct (map fst (done @ kvs))"
    and "foldr (\<lambda>kv n. Suc (max (need (snd kv)) n)) kvs 0 \<le> n"
  shows "parse_members n done (join (js '','') (map member_text kvs) @ 0x7D # rest) =
    Some (JObj (enumeration_order (done @ kvs)), rest)"
  using assms
proof (induction kvs arbitrary: n "done")
  case (Cons kv kvs)
  obtain k v where kv: "kv = (k, v)" by (cases kv)
  obtain m where n: "n = Suc m" and m: "need v \<le> m" "foldr (\<lambda>kv n. Suc (max (need (snd kv)) n)) kvs 0 \<le> m"
    using Cons.prems(4) kv by (cases n) auto
  have comma: "js '','' = [0x2C]" and colon: "js '':'' = [0x3A]" by (simp_all add: js_def)
  have "reads v" using Cons.prems(2) kv by simp
  then have v: "stops r \<Longrightarrow> parse_value m (write_json quote v @ r) = Some (v, r)" for r
    using m(1) by (simp add: reads_def)
  have put: "put k v done = done @ [(k, v)]" using Cons.prems(3) by (intro put_new) (auto simp: kv)
  have head: "parse_members n done (member_text kv @ r) =
      (case skip_white r of [] \<Rightarrow> None
       | c # u \<Rightarrow> if c = 0x2C then parse_members m (done @ [(k, v)]) u
                  else if c = 0x7D then Some (JObj (enumeration_order (done @ [(k, v)])), u) else None)"
    if "stops r" for r
    unfolding put [symmetric] n kv using v [OF that]
    by (simp add: member_text_def quote_form colon skip_white_mark quoted_read)
  show ?case
  proof (cases "kvs = []")
    case True
    then show ?thesis using head [of "0x7D # rest"] by (simp add: kv join_Cons stops_def skip_white_mark)
  next
    case False
    have s: "join (js '','') (map member_text (kv # kvs)) @ 0x7D # rest =
        member_text kv @ 0x2C # join (js '','') (map member_text kvs) @ 0x7D # rest"
      using False by (simp add: join_Cons comma)
    have "distinct (map fst ((done @ [(k, v)]) @ kvs))" using Cons.prems(3) by (simp add: kv)
    from Cons.IH [OF False _ this m(2)] Cons.prems(2) show ?thesis
      unfolding s by (simp add: head [unfolded kv] stops_def skip_white_mark kv)
  qed
qed simp

lemma reads_array:
  assumes "\<forall>x \<in> set xs. reads x"
  shows "reads (JArr xs)"
  unfolding reads_def
proof (intro allI impI, elim conjE)
  fix n rest assume n: "need (JArr xs) \<le> n" and "stops rest"
  obtain m where m: "n = Suc m" "foldr (\<lambda>x n. Suc (max (need x) n)) xs 0 \<le> m" using n by (cases n) auto
  let ?t = "join (js '','') (map (write_json quote) xs) @ 0x5D # rest"
  have t: "write_json quote (JArr xs) @ rest = 0x5B # ?t" by (simp add: js_def)
  have white: "skip_white (0x5B # s) = 0x5B # s" for s by (simp add: skip_white_def json_white_def)
  show "parse_value n (write_json quote (JArr xs) @ rest) = Some (JArr xs, rest)"
  proof (cases xs)
    case Nil
    then show ?thesis unfolding t by (simp add: m(1) white skip_white_mark)
  next
    case (Cons x ys)
    then have "starts ?t" using starts_append [OF write_starts [of x]] by (simp add: join_Cons)
    from starts_skip [OF this, of "[]"] this obtain d u where d: "skip_white ?t = d # u" "d \<noteq> 0x5D"
      by (cases ?t) (auto simp: starts_def)
    show ?thesis
      using parse_elements_written [OF _ assms m(2), of "[]" rest] d Cons unfolding t by (simp add: m(1) white)
  qed
qed

lemma reads_object:
  assumes "\<forall>kv \<in> set kvs. reads (snd kv)" and "distinct (map fst kvs)" and "enumeration_order kvs = kvs"
  shows "reads (JObj kvs)"
  unfolding reads_def
proof (intro allI impI, elim conjE)
  fix n rest assume n: "need (JObj kvs) \<le> n" and "stops rest"
  obtain m where m: "n = Suc m" "foldr (\<lambda>kv n. Suc (max (need (snd kv)) n)) kvs 0 \<le> m" using n by (cases n) auto
  let ?t = "join (js '','') (map member_text kvs) @ 0x7D # rest"
  have t: "write_json quote (JObj kvs) @ rest = 0x7B # ?t" by (simp only: write_object) (simp add: js_def)
  have white: "skip_white (0x7B # s) = 0x7B # s" for s by (simp add: skip_white_def json_white_def)
  show "parse_value n (write_json quote (JObj kvs) @ rest) = Some (JObj kvs, rest)"
  proof (cases kvs)
    case Nil
    then show ?thesis unfolding t by (simp add: m(1) white skip_white_mark)
  next
    case (Cons kv ys)
    then have "\<exists>u. ?t = 0x22 # u" by (simp add: join_Cons member_text_def quote_form)
    then obtain u where "skip_white ?t = 0x22 # u" by (auto simp: skip_white_mark)
    then show ?thesis
      using parse_members_written [OF _ assms(1) _ m(2), of "[]" rest] assms(2,3) Cons
      unfolding t by (simp add: m(1) white)
  qed
qed

text \<open>Reading what was written, with enough fuel and nothing after it that could continue it.\<close>

lemma reads_json: "json_ok v \<Longrightarrow> reads v"
proof (induction v rule: json_ok.induct)
  case (1 m e)
  then show ?case
    by (auto simp: reads_def parse_number_value Suc_le_eq gr0_conv_Suc simp del: parse_value.simps)
next
  case (2 xs)
  then show ?case by (intro reads_array) auto
next
  case (3 kvs)
  then show ?case by (intro reads_object) auto
qed (auto simp: reads_def parse_literals parse_string Suc_le_eq gr0_conv_Suc simp del: parse_value.simps)

text \<open>The fuel needed is at most the length of the text.\<close>

lemma join_length: "length (join (js '','') xs) + 1 \<ge> sum_list (map (\<lambda>x. Suc (length x)) xs)"
  by (induction xs) (auto simp: join_Cons)

lemma foldr_need: "\<forall>x \<in> set xs. f x \<le> g x \<Longrightarrow>
    foldr (\<lambda>x n. Suc (max (f x) n)) xs 0 \<le> sum_list (map (\<lambda>x. Suc (g x)) xs)"
  by (induction xs) auto

lemma need_length: "need v \<le> length (write_json quote v)"
proof (induction v rule: need.induct)
  case (1 xs)
  then have "foldr (\<lambda>x n. Suc (max (need x) n)) xs 0 \<le> sum_list (map (\<lambda>x. Suc (length (write_json quote x))) xs)"
    by (intro foldr_need) auto
  also have "\<dots> \<le> length (join (js '','') (map (write_json quote) xs)) + 1"
    using join_length [of "map (write_json quote) xs"] by (simp add: comp_def)
  finally show ?case by simp
next
  case (2 kvs)
  then have "foldr (\<lambda>kv n. Suc (max (need (snd kv)) n)) kvs 0 \<le> sum_list (map (\<lambda>kv. Suc (length (member_text kv))) kvs)"
    by (intro foldr_need) (auto simp: member_text_def intro: le_SucI trans_le_add2)
  also have "\<dots> \<le> length (join (js '','') (map member_text kvs)) + 1"
    using join_length [of "map member_text kvs"] by (simp add: comp_def)
  finally show ?case by (simp add: write_object del: write_json.simps)
qed (use num_text_head in \<open>auto simp: quote_form Suc_le_eq\<close>)

lemma parse_written: "json_ok v \<Longrightarrow> json_parse msg (write_json quote v) = Inr v"
  using reads_json [of v] need_length [of v]
  by (auto simp: json_parse_def reads_def stops_def skip_white_def
      dest!: spec [of _ "2 * length (write_json quote v) + 2"] spec [of _ "[]"])

end

interpretation js_writer: json_quoting json_quote quote_units
  by unfold_locales (simp_all add: json_quote_def parse_quote_units)

interpretation go_writer: json_quoting go_quote go_quote_units
  by unfold_locales (simp_all add: go_quote_def parse_go_quote_units)

text \<open>A whole number that is typed as its digits.\<close>

lemma nat_digits_some [simp]: "nat_digits n \<noteq> []"
  by (subst nat_digits.simps) simp

lemma parse_digits: "parse_number (nat_digits n) = Some (number_value False n 0, [])"
proof -
  let ?d = "nat_digits n"
  have d: "list_all is_digit ?d" "digits_value ?d = n" using nat_digits_props [of n] by auto
  have ne: "?d \<noteq> []" by simp
  have "\<not> (1 < length ?d \<and> hd ?d = 0x30)" using nat_digits_head [of n] by (cases "n = 0") (simp_all add: nat_digits.simps [of 0])
  from number_body_text [OF d(1) ne this, of "[]" "[]" 0 "[]" False] d(2)
  have body: "number_body False ?d = Some (number_value False n 0, [])"
    by (simp add: parse_exponent_none stops_def)
  have "is_digit (hd ?d)" using d(1) ne by (cases ?d) simp_all
  then have "hd ?d \<noteq> 0x2D" by (auto simp: is_digit_def word_le_nat_alt)
  from parse_number_sign(2) [OF ne this] body show ?thesis by simp
qed

lemma json_parse_digits: "json_parse msg (nat_digits n) = Inr (number_value False n 0)"
proof -
  obtain c t where d: "nat_digits n = c # t" by (metis nat_digits_some neq_Nil_conv)
  have "is_digit c" using nat_digits_props [of n] by (simp add: d)
  then have c: "\<not> json_white c" "c \<notin> {0x22, 0x5B, 0x7B, 0x6E, 0x74, 0x66}"
    by (auto simp: is_digit_def json_white_def word_le_nat_alt)
  then have "parse_value (Suc k) (c # t) = parse_number (c # t)" for k by (simp add: skip_white_def)
  with parse_digits [of n] show ?thesis by (simp add: json_parse_def d skip_white_def del: parse_value.simps)
qed

section \<open>What the parser returns\<close>

lemma number_value_json_ok: "json_ok (number_value negative a x)"
proof -
  have "(\<exists>m e. number_value negative a x = JNum m e) \<or> number_value negative a x = JNull"
    using decimal_is_number by (auto simp: number_value_def split: option.split prod.split)
  with number_value_result show ?thesis by fastforce
qed

lemma parse_number_ok: "parse_number s = Some (v, t) \<Longrightarrow> json_ok v"
  by (auto simp: parse_number_def number_value_json_ok Let_def split: option.splits prod.splits if_splits)

lemma put_keys: "fst ` set (put k v kvs) = insert k (fst ` set kvs)"
  by (induction k v kvs rule: put.induct) auto

lemma put_distinct: "distinct (map fst kvs) \<Longrightarrow> distinct (map fst (put k v kvs))"
  by (induction k v kvs rule: put.induct) (use put_keys in fastforce)+

lemma put_set: "set (put k v kvs) \<subseteq> insert (k, v) (set kvs)"
  by (induction k v kvs rule: put.induct) auto

lemma enumeration_set [simp]: "set (enumeration_order kvs) = set kvs"
  by (auto simp: enumeration_order_def)

lemma enumeration_distinct: "distinct (map fst kvs) \<Longrightarrow> distinct (map fst (enumeration_order kvs))"
  by (auto simp: enumeration_order_def distinct_map intro: inj_on_subset)

lemma enumeration_idem [simp]: "enumeration_order (enumeration_order kvs) = enumeration_order kvs"
proof -
  let ?I = "\<lambda>kv. array_index (fst kv)" and ?key = "\<lambda>kv :: jstr \<times> json. digits_value (fst kv)"
  let ?A = "sort_key ?key (filter ?I kvs)" and ?B = "filter (\<lambda>kv. \<not> ?I kv) kvs"
  have "filter ?I ?A = ?A" "filter (\<lambda>kv. \<not> ?I kv) ?A = []" "filter ?I ?B = []" "filter (\<lambda>kv. \<not> ?I kv) ?B = ?B"
    by (auto simp: filter_id_conv filter_empty_conv)
  moreover have "sort_key ?key ?A = ?A" by (rule sort_key_id_if_sorted) simp
  ultimately show ?thesis by (simp add: enumeration_order_def)
qed

lemma literal_result: "literal t v s = Some (w, r) \<Longrightarrow> w = v"
  by (auto simp: literal_def split: if_splits)

lemma parse_ok:
  "parse_value n s = Some (v, t) \<Longrightarrow> json_ok v"
  "parse_elements n done s = Some (v, t) \<Longrightarrow> \<forall>x \<in> set done. json_ok x \<Longrightarrow> json_ok v"
  "parse_members n done' s = Some (v, t) \<Longrightarrow> distinct (map fst done') \<Longrightarrow>
     \<forall>kv \<in> set done'. json_ok (snd kv) \<Longrightarrow> json_ok v"
proof (induction n s and n "done" s and n done' s arbitrary: v t and v t and v t
    rule: parse_value_parse_elements_parse_members.induct)
  case (2 n s)
  then show ?case
    by (auto simp: enumeration_order_def split: list.splits if_splits dest: parse_number_ok literal_result)
next
  case (4 n "done" s)
  then show ?case by (auto split: option.splits list.splits if_splits)
next
  case (6 n "done" s)
  from 6(3) obtain q s1 where q: "skip_white s = q # s1" by (auto split: list.splits)
  with 6(3) have q': "q = 0x22" by (auto split: if_splits)
  from 6(3) q q' obtain k s2 where k: "parse_chars s1 = Some (k, s2)" by (auto split: option.splits)
  from 6(3) q q' k obtain r s3 where r: "skip_white s2 = r # s3" "r = 0x3A"
    by (auto split: list.splits if_splits)
  from 6(3) q q' k r obtain w u where w: "parse_value n s3 = Some (w, u)" by (auto split: option.splits)
  have "json_ok w" using 6(1) q q' k r w by auto
  then have ok: "\<forall>kv \<in> set (put k w done). json_ok (snd kv)" using 6(5) put_set [of k w "done"] by auto
  have dist: "distinct (map fst (put k w done))" using 6(4) by (rule put_distinct)
  from 6(3) q q' k r w consider u' where "skip_white u = 0x2C # u'" "parse_members n (put k w done) u' = Some (v, t)"
    | "v = JObj (enumeration_order (put k w done))"
    by (auto split: list.splits if_splits)
  then show ?case
  proof cases
    case 1
    from 6(2) [OF q _ k _ r(1) _ w _ 1(1)] show ?thesis using q' r(2) 1(2) ok dist by simp
  next
    case 2
    then show ?thesis using ok enumeration_distinct [OF dist] by simp
  qed
qed auto

section \<open>The fuel is enough\<close>

lemma skip_white_length: "length (skip_white s) \<le> length s"
  by (simp add: skip_white_def length_dropWhile_le)

lemma skip_white_Cons_length: "skip_white s = c # t \<Longrightarrow> length t < length s"
  using skip_white_length [of s] by simp

lemma parse_chars_length: "parse_chars s = Some (k, t) \<Longrightarrow> length t < length s"
proof (induction s arbitrary: k t rule: parse_chars.induct)
  case (2 c s)
  then show ?case
    by (auto split: if_splits list.splits option.splits) (fastforce dest: less_SucI)+
qed simp

lemma literal_length: "literal l v s = Some (w, t) \<Longrightarrow> l \<noteq> [] \<Longrightarrow> s \<noteq> [] \<Longrightarrow> length t < length s"
  by (cases l; cases s) (auto simp: literal_def split: if_splits)

lemma parse_fraction_length: "parse_fraction s = Some (f, t) \<Longrightarrow> length t \<le> length s"
proof (cases s)
  case (Cons c u)
  assume "parse_fraction s = Some (f, t)"
  with Cons have "t = s \<or> t = dropWhile is_digit u" by (auto simp: parse_fraction_def split: if_splits)
  then show ?thesis using Cons length_dropWhile_le [of is_digit u] by auto
qed (simp add: parse_fraction_def)

lemma parse_exponent_length: "parse_exponent s = Some (e, t) \<Longrightarrow> length t \<le> length s"
proof (cases s)
  case (Cons c u)
  assume a: "parse_exponent s = Some (e, t)"
  let ?u = "case u of [] \<Rightarrow> [] | d # v \<Rightarrow> if d = 0x2D \<or> d = 0x2B then v else u"
  from a Cons have "t = s \<or> t = dropWhile is_digit ?u"
    by (auto simp: parse_exponent_def Let_def split: if_splits)
  moreover have "length ?u \<le> length u" by (cases u) auto
  ultimately show ?thesis using Cons length_dropWhile_le [of is_digit ?u] by auto
qed (simp add: parse_exponent_def)

lemma number_body_length: "number_body b s = Some (v, t) \<Longrightarrow> length t < length s"
proof -
  assume a: "number_body b s = Some (v, t)"
  then have "takeWhile is_digit s \<noteq> []" by (auto simp: number_body_def Let_def split: if_splits)
  then have "length (dropWhile is_digit s) < length s"
    by (cases s) (auto split: if_splits simp: le_imp_less_Suc length_dropWhile_le)
  moreover from a obtain f u where "parse_fraction (dropWhile is_digit s) = Some (f, u)"
    "\<exists>e. parse_exponent u = Some (e, t)"
    by (auto simp: number_body_def Let_def split: if_splits option.splits prod.splits)
  then have "length u \<le> length (dropWhile is_digit s)" "length t \<le> length u"
    using parse_fraction_length parse_exponent_length by blast+
  ultimately show ?thesis by simp
qed

lemma parse_number_length: "parse_number s = Some (v, t) \<Longrightarrow> length t < length s"
proof -
  assume a: "parse_number s = Some (v, t)"
  show ?thesis
  proof (cases "s \<noteq> [] \<and> hd s = 0x2D")
    case True
    then obtain u where "s = 0x2D # u" by (cases s) auto
    with a number_body_length show ?thesis by (auto simp: parse_number_sign intro: less_SucI)
  next
    case False
    have "s \<noteq> []" using a by (auto simp: parse_number_def)
    with a False number_body_length show ?thesis by (auto simp: parse_number_sign(2))
  qed
qed

text \<open>Every parser consumes at least one character.\<close>

lemma parse_length:
  "parse_value n s = Some (v, t) \<Longrightarrow> length t < length s"
  "parse_elements n done s = Some (v, t) \<Longrightarrow> length t < length s"
  "parse_members n done' s = Some (v, t) \<Longrightarrow> length t < length s"
proof (induction n s and n "done" s and n done' s arbitrary: v t and v t and v t
    rule: parse_value_parse_elements_parse_members.induct)
  case (2 n s)
  from 2(3) obtain c u where c: "skip_white s = c # u" by (auto split: list.splits)
  have u: "length (c # u) \<le> length s" using skip_white_length [of s] c by simp
  from 2(3) c have "length t < length (c # u)"
    using 2(1,2) [OF c]
    by (auto split: if_splits list.splits dest!: parse_chars_length literal_length parse_number_length
        skip_white_Cons_length intro: less_SucI)
  with u show ?case by simp
next
  case (4 n "done" s)
  from 4(3) obtain w u where w: "parse_value n s = Some (w, u)" by (auto split: option.splits)
  from 4(3) w obtain c x where c: "skip_white u = c # x" by (auto split: list.splits)
  have "length u < length s" by (rule 4(1) [OF w])
  moreover have "length x < length u" by (rule skip_white_Cons_length [OF c])
  moreover have "length t \<le> length x"
    using 4(3) w c 4(2) [OF w _ c] by (auto split: if_splits intro: less_imp_le)
  ultimately show ?case by simp
next
  case (6 n "done" s)
  from 6(3) obtain q s1 where q: "skip_white s = q # s1" by (auto split: list.splits)
  with 6(3) have q': "q = 0x22" by (auto split: if_splits)
  from 6(3) q q' obtain k s2 where k: "parse_chars s1 = Some (k, s2)" by (auto split: option.splits)
  from 6(3) q q' k obtain r s3 where r: "skip_white s2 = r # s3" "r = 0x3A"
    by (auto split: list.splits if_splits)
  from 6(3) q q' k r obtain w u where w: "parse_value n s3 = Some (w, u)" by (auto split: option.splits)
  from 6(3) q q' k r w obtain c x where c: "skip_white u = c # x" by (auto split: list.splits)
  have "length s1 < length s" "length s2 < length s1" "length s3 < length s2" "length x < length u"
    using skip_white_Cons_length [OF q] parse_chars_length [OF k] skip_white_Cons_length [OF r(1)]
      skip_white_Cons_length [OF c] by auto
  moreover have "length u < length s3" using 6(1) q q' k r w by auto
  moreover have "length t \<le> length x"
    using 6(3) q q' k r w c 6(2) [OF q _ k _ r(1) _ w _ c] by (auto split: if_splits intro: less_imp_le)
  ultimately show ?case by simp
qed auto

text \<open>
  The fuel that is enough for a text of a given length: two for each character and one more for the
  parser of a value, two more for those of the elements and members, which start with one.
\<close>

lemma parse_value_fuel:
  assumes elements: "\<And>t n m xs. length t < length s \<Longrightarrow> 2 * length t + 2 \<le> n \<Longrightarrow> 2 * length t + 2 \<le> m \<Longrightarrow>
      parse_elements n xs t = parse_elements m xs t"
    and members: "\<And>t n m kvs. length t < length s \<Longrightarrow> 2 * length t + 2 \<le> n \<Longrightarrow> 2 * length t + 2 \<le> m \<Longrightarrow>
      parse_members n kvs t = parse_members m kvs t"
    and "2 * length s + 1 \<le> n" and "2 * length s + 1 \<le> m"
  shows "parse_value n s = parse_value m s"
proof -
  obtain n' m' where nm: "n = Suc n'" "m = Suc m'" using assms(3,4) by (cases n; cases m) auto
  show ?thesis
  proof (cases "skip_white s")
    case (Cons c t)
    then have t: "length t < length s" by (rule skip_white_Cons_length)
    have "parse_elements n' [] t = parse_elements m' [] t" "parse_members n' [] t = parse_members m' [] t"
      by (rule elements members; use t assms(3,4) nm in simp)+
    then show ?thesis by (simp only: nm parse_value.simps Cons list.case)
  qed (simp add: nm)
qed

lemma parse_elements_fuel:
  assumes value_eq: "\<And>n m. 2 * length s + 1 \<le> n \<Longrightarrow> 2 * length s + 1 \<le> m \<Longrightarrow> parse_value n s = parse_value m s"
    and rest: "\<And>t n m xs. length t < length s \<Longrightarrow> 2 * length t + 2 \<le> n \<Longrightarrow> 2 * length t + 2 \<le> m \<Longrightarrow>
      parse_elements n xs t = parse_elements m xs t"
    and "2 * length s + 2 \<le> n" and "2 * length s + 2 \<le> m"
  shows "parse_elements n xs s = parse_elements m xs s"
proof -
  obtain n' m' where nm: "n = Suc n'" "m = Suc m'" using assms(3,4) by (cases n; cases m) auto
  have v: "parse_value n' s = parse_value m' s" using assms(3,4) by (intro value_eq) (simp_all add: nm)
  show ?thesis
  proof (cases "parse_value m' s")
    case (Some p)
    obtain w u where p: "p = (w, u)" by (cases p)
    show ?thesis
    proof (cases "skip_white u")
      case (Cons c t)
      have "length u < length s" using parse_length(1) [of m' s w u] Some p by simp
      then have "length t < length s" using skip_white_Cons_length [OF Cons] by simp
      then have "parse_elements n' (xs @ [w]) t = parse_elements m' (xs @ [w]) t"
        using assms(3,4) by (intro rest) (simp_all add: nm)
      then show ?thesis by (simp only: nm parse_elements.simps v Some p option.case prod.case Cons list.case)
    qed (simp add: nm v Some p)
  qed (simp add: nm v)
qed

lemma parse_members_fuel:
  assumes value_eq: "\<And>t n m. length t < length s \<Longrightarrow> 2 * length t + 1 \<le> n \<Longrightarrow> 2 * length t + 1 \<le> m \<Longrightarrow>
      parse_value n t = parse_value m t"
    and rest: "\<And>t n m kvs. length t < length s \<Longrightarrow> 2 * length t + 2 \<le> n \<Longrightarrow> 2 * length t + 2 \<le> m \<Longrightarrow>
      parse_members n kvs t = parse_members m kvs t"
    and "2 * length s + 2 \<le> n" and "2 * length s + 2 \<le> m"
  shows "parse_members n kvs s = parse_members m kvs s"
proof -
  obtain n' m' where nm: "n = Suc n'" "m = Suc m'" using assms(3,4) by (cases n; cases m) auto
  show ?thesis
  proof (cases "\<exists>s1 k s2 s3. skip_white s = 0x22 # s1 \<and> parse_chars s1 = Some (k, s2) \<and> skip_white s2 = 0x3A # s3")
    case True
    then obtain s1 k s2 s3 where p: "skip_white s = 0x22 # s1" "parse_chars s1 = Some (k, s2)"
      "skip_white s2 = 0x3A # s3" by blast
    have s3: "length s3 < length s"
      using skip_white_Cons_length [OF p(1)] parse_chars_length [OF p(2)] skip_white_Cons_length [OF p(3)] by simp
    then have v: "parse_value n' s3 = parse_value m' s3" using assms(3,4) by (intro value_eq) (simp_all add: nm)
    show ?thesis
    proof (cases "parse_value m' s3")
      case (Some q)
      obtain w u where q: "q = (w, u)" by (cases q)
      show ?thesis
      proof (cases "skip_white u")
        case (Cons c t)
        have "length u < length s3" using parse_length(1) [of m' s3 w u] Some q by simp
        then have "length t < length s" using skip_white_Cons_length [OF Cons] s3 by simp
        then have "parse_members n' (put k w kvs) t = parse_members m' (put k w kvs) t"
          using assms(3,4) by (intro rest) (simp_all add: nm)
        then show ?thesis
          by (simp only: nm parse_members.simps p v Some q option.case prod.case Cons list.case simp_thms if_True if_False)
      qed (simp add: nm p v Some q)
    qed (simp add: nm p v)
  next
    case False
    have "parse_members (Suc i) kvs s = None" for i
      using False by (auto split: list.split option.split)
    then show ?thesis by (simp only: nm)
  qed
qed

lemma parse_fuel:
  "length s = l \<Longrightarrow> 2 * length s + 1 \<le> n \<Longrightarrow> 2 * length s + 1 \<le> m \<Longrightarrow> parse_value n s = parse_value m s"
  "length s = l \<Longrightarrow> 2 * length s + 2 \<le> n \<Longrightarrow> 2 * length s + 2 \<le> m \<Longrightarrow> parse_elements n xs s = parse_elements m xs s"
  "length s = l \<Longrightarrow> 2 * length s + 2 \<le> n \<Longrightarrow> 2 * length s + 2 \<le> m \<Longrightarrow> parse_members n kvs s = parse_members m kvs s"
proof (induction l arbitrary: s n m xs kvs rule: less_induct)
  case (less l)
  have v: "parse_value n s = parse_value m s" if "length s = l" "2 * length s + 1 \<le> n" "2 * length s + 1 \<le> m" for s n m
    by (rule parse_value_fuel [OF _ _ that(2,3)]) (use less(2,3) that(1) in blast)+
  {
    case 1
    then show ?case by (rule v)
  next
    case 2
    show ?case by (rule parse_elements_fuel [OF _ _ 2(2,3)]) (use v less(2) 2(1) in blast)+
  next
    case 3
    show ?case by (rule parse_members_fuel [OF _ _ 3(2,3)]) (use less(1,3) 3(1) in blast)+
  }
qed

text \<open>The JSON reader always returns: the fuel it is given is enough for every text, so that more fuel
  never changes the answer, and a text is refused only because it is not JSON.\<close>

theorem json_parse_total:
  assumes "2 * length s + 1 \<le> fuel"
  shows "json_parse msg s =
    (case parse_value fuel s of
       Some (v, rest) \<Rightarrow> if skip_white rest = [] then Inr v else Inl (Thrown (msg s))
     | None \<Rightarrow> Inl (Thrown (msg s)))"
  using parse_fuel(1) [OF refl assms, of "2 * length s + 2"] by (simp add: json_parse_def)

text \<open>Whatever JSON text is read, the value is well formed: numbers normalised, the names of every object
  distinct and in the order in which JavaScript enumerates them.\<close>

theorem json_parse_well_formed:
  assumes "json_parse msg s = Inr v"
  shows "json_ok v"
  using assms
  by (auto simp: json_parse_def simp del: parse_value.simps split: option.splits prod.splits if_splits
      dest: parse_ok(1))

text \<open>JSON written by either side is read back as the same value: the browser's reader undoes the browser's
  writer and the server's writer, which escapes more characters.\<close>

theorem json_text_round_trip:
  assumes "json_ok v"
  shows "json_parse msg (stringify v) = Inr v \<and> json_parse msg (go_stringify v) = Inr v"
  using js_writer.parse_written [OF assms] go_writer.parse_written [OF assms]
  by (simp add: stringify_write go_stringify_write)

end
