(* ===== verification/JsonSecret.thy ===== *)
theory JsonSecret
  imports Exchange JsonRoundTrip
begin

text \<open>
  A secret entered as JSON, from the text in the form to the text on the recipient page: what \<open>JsonRoundTrip\<close>
  shows of texts and values, for the functions of the two pages that read and write them.
\<close>

section \<open>Written JSON is not blank\<close>

lemma trim_visible: "c \<in> set s \<Longrightarrow> \<not> is_white c \<Longrightarrow> trim s \<noteq> []"
proof
  assume c: "c \<in> set s" "\<not> is_white c" and t: "trim s = []"
  from t have "\<forall>x \<in> set (dropWhile is_white s). is_white x" by (simp add: trim_def)
  moreover have "c \<in> set (dropWhile is_white s)"
    using c by (metis Un_iff set_append set_takeWhileD takeWhile_dropWhile_id)
  ultimately show False using c(2) by blast
qed

lemma trim_Cons_visible: "\<not> is_white c \<Longrightarrow> trim (c # t) \<noteq> []"
  by (rule trim_visible [of c]) simp_all

lemma write_visible:
  assumes "\<And>s. \<exists>t. q s = 0x22 # t"
  shows "\<exists>c t. write_json q v = c # t \<and> \<not> is_white c"
proof (cases v)
  case (JNum m e)
  then show ?thesis
    using num_text_head [of m e]
    by (cases "num_text m e") (auto simp: is_white_def is_digit_def word_le_nat_alt)
next
  case (JStr s)
  with assms [of s] show ?thesis by (auto simp: is_white_def word_le_nat_alt)
qed (auto simp: js_def is_white_def word_le_nat_alt)

lemma written_not_blank: "trim (stringify v) \<noteq> []" "trim (go_stringify v) \<noteq> []"
proof -
  have "\<exists>t. json_quote s = 0x22 # t" "\<exists>t. go_quote s = 0x22 # t" for s
    by (simp_all add: json_quote_def go_quote_def)
  from write_visible [where q = json_quote and v = v, OF this(1)] write_visible [where q = go_quote and v = v, OF this(2)]
  show "trim (stringify v) \<noteq> []" "trim (go_stringify v) \<noteq> []"
    by (auto simp: stringify_write go_stringify_write simp: trim_Cons_visible)
qed

section \<open>The form\<close>

lemma plainPayload_json:
  "data ''plain_format'' = Some (js ''json'') \<Longrightarrow> data ''secret_plain'' = Some s \<Longrightarrow> trim s \<noteq> [] \<Longrightarrow>
   plainPayload msg data = map_sum id JsonPayload (json_parse msg s)"
  by (simp add: plainPayload_def form_string_def string_or_empty_def or_default_def split: sum.split option.split)

text \<open>
  Reading a JSON secret always ends: the reader in \<^verbatim>\<open>plainPayload\<close> accepts what it accepts with any larger amount
  of fuel, so that a text is refused only for being blank or for not being JSON.
\<close>

theorem plain_json_total:
  assumes "data ''plain_format'' = Some (js ''json'')" and "data ''secret_plain'' = Some s"
    and "2 * length s + 1 \<le> fuel"
  shows "plainPayload msg data =
    (if trim s = [] then Inl (Thrown (js ''Plain text secret content is required.''))
     else (case parse_value fuel s of
             Some (v, rest) \<Rightarrow> if skip_white rest = [] then Inr (JsonPayload v) else Inl (Thrown (msg s))
           | None \<Rightarrow> Inl (Thrown (msg s))))"
proof (cases "trim s = []")
  case True
  with assms show ?thesis by (simp add: plainPayload_def form_string_def string_or_empty_def or_default_def)
next
  case False
  show ?thesis
    unfolding plainPayload_json [where msg = msg, OF assms(1,2) False] json_parse_total [OF assms(3)]
    using False by (auto split: option.split)
qed

definition json_form :: "jstr \<Rightarrow> form" where
  "json_form s k = (if k = ''plain_format'' then Some (js ''json'') else if k = ''secret_plain'' then Some s else None)"

theorem plain_json_total_witness: "plainPayload (\<lambda>s. s) (json_form (js ''[true,'')) = Inl (Thrown (js ''[true,''))"
proof -
  have v: "parse_value 15 (js ''[true,'') = None" by code_simp
  have t: "trim (js ''[true,'') \<noteq> []" by (simp add: text_literals)
  show ?thesis
    using plain_json_total [of "json_form (js ''[true,'')" "js ''[true,''" 15 "\<lambda>s. s"] v t by (simp add: json_form_def)
qed

text \<open>What is typed becomes a payload that the server keeps, and the recipient page shows the value indented.\<close>

lemma json_value_shown:
  assumes "data ''plain_format'' = Some (js ''json'')" and "data ''secret_plain'' = Some text"
    and "trim text \<noteq> []" and "json_parse msg text = Inr v"
  shows "\<exists>m n summary. plainPayload msg data = Inr m \<and>
    Option.bind (decode_payload True (payload_json m)) normalizePayload = Some (n, summary) \<and> sp_value n = Some v \<and>
    secret_code (reveal_answer (Answer 200 (Some (obj [(''secret'', legacy), (''payload'', marshal_payload_json n)]))) p) =
      stringify_indent 0 v"
proof -
  have "plainPayload msg data = Inr (JsonPayload v)"
    using plainPayload_json [where msg = msg, OF assms(1-3)] assms(4) by simp
  moreover have ok: "accepted_model (JsonPayload v)" by (simp add: accepted_model_def)
  moreover obtain summary where n: "normalizePayload (decoded_payload (JsonPayload v)) = Some (kept_payload (JsonPayload v), summary)"
    using normalize_decoded [OF ok] by blast
  moreover have "sp_value (kept_payload (JsonPayload v)) = Some v" "sp_type (kept_payload (JsonPayload v)) = js ''json''"
    by (simp_all add: kept_payload_def decoded_payload_def)
  ultimately show ?thesis
    using reveal_displays [OF n, of legacy p] accepted_decode [OF ok]
    by (intro exI [of _ "JsonPayload v"] exI [of _ "kept_payload (JsonPayload v)"] exI [of _ summary])
      (simp add: displays_def del: payload_json.simps)
qed

text \<open>C25: A JSON secret comes through unchanged: the text of a value, written by either side and pasted into the form,
  gives a payload that the server keeps as that value, and the recipient page shows the value indented. A value is one
  that JavaScript has: its numbers are doubles, each given by the decimal that the language writes for it (the
  shortest that reads as it), the names in an object are distinct and in the order of enumeration.\<close>

theorem json_secret_round_trip:
  assumes "json_ok v" and "text \<in> {stringify v, go_stringify v}"
    and "data ''plain_format'' = Some (js ''json'')" and "data ''secret_plain'' = Some text"
  shows "\<exists>m n summary. plainPayload msg data = Inr m \<and>
    Option.bind (decode_payload True (payload_json m)) normalizePayload = Some (n, summary) \<and> sp_value n = Some v \<and>
    secret_code (reveal_answer (Answer 200 (Some (obj [(''secret'', legacy), (''payload'', marshal_payload_json n)]))) p) =
      stringify_indent 0 v"
proof (rule json_value_shown [OF assms(3,4)])
  show "trim text \<noteq> []" "json_parse msg text = Inr v"
    using assms(2) written_not_blank [of v] json_text_round_trip [OF assms(1), of msg] by auto
qed

lemma sample_number: "num_ok 15 1"
proof -
  have "decimal_double 15 (- 1) = Some (6755399441055744, - 52)" by (simp add: number_eval Let_def)
  moreover have "shortest (6755399441055744, - 52) = Some (15, - 1)" by (simp add: number_eval Let_def)
  ultimately show ?thesis by (simp add: num_ok_def number_value_def decimal_def Let_def normalise_ok)
qed

theorem json_secret_round_trip_witness:
  "\<exists>m. plainPayload (\<lambda>s. s) (json_form (go_stringify (JArr [JNum 15 1, JStr (js ''a<b'')]))) = Inr m"
proof -
  let ?v = "JArr [JNum 15 1, JStr (js ''a<b'')]"
  have "json_ok ?v" using sample_number by simp
  moreover have "go_stringify ?v \<in> {stringify ?v, go_stringify ?v}" by simp
  moreover have "json_form (go_stringify ?v) ''plain_format'' = Some (js ''json'')"
    "json_form (go_stringify ?v) ''secret_plain'' = Some (go_stringify ?v)" by (simp_all add: json_form_def)
  ultimately show ?thesis using json_secret_round_trip [of ?v "go_stringify ?v" "json_form (go_stringify ?v)" "\<lambda>s. s"] by blast
qed

text \<open>C26: A whole number that is typed as a JSON secret is silently rounded to a double on the create page: each of the
  numbers from 99999999999999991808 to 100000000000000008192, typed digit by digit, is accepted and shown to the
  recipient as 100000000000000000000, and every number from 2 to the 1024th, which JavaScript reads as Infinity, as
  null.\<close>

theorem json_numbers_rounded:
  assumes "data ''plain_format'' = Some (js ''json'')" and "data ''secret_plain'' = Some (nat_digits n)"
    and "10 ^ 20 - 8192 \<le> n \<and> n \<le> 10 ^ 20 + 8192 \<or> 2 ^ 1024 \<le> n"
  shows "\<exists>m k summary. plainPayload msg data = Inr m \<and>
    Option.bind (decode_payload True (payload_json m)) normalizePayload = Some (k, summary) \<and>
    secret_code (reveal_answer (Answer 200 (Some (obj [(''secret'', legacy), (''payload'', marshal_payload_json k)]))) p) =
      (if n < 2 ^ 1024 then js ''100000000000000000000'' else js ''null'')"
proof -
  obtain c t where d: "nat_digits n = c # t" by (metis nat_digits_some neq_Nil_conv)
  then have "is_digit c" using nat_digits_props [of n] by simp
  then have "\<not> is_white c" by (auto simp: is_digit_def is_white_def word_le_nat_alt)
  then have "trim (nat_digits n) \<noteq> []" unfolding d by (rule trim_Cons_visible)
  note shown = json_value_shown [OF assms(1,2) this json_parse_digits]
  have "stringify_indent 0 (number_value False n 0) = (if n < 2 ^ 1024 then js ''100000000000000000000'' else js ''null'')"
  proof (cases "2 ^ 1024 \<le> n")
    case True
    then show ?thesis by (simp add: number_overflow)
  next
    case False
    then have "99999999999999991808 \<le> n" "n \<le> 100000000000000008192" using assms(3) by simp_all
    from number_near [OF this]
    have "stringify_indent 0 (number_value False n 0) = js ''100000000000000000000''"
      by (simp add: num_text_def nat_digits.simps plain_text_def js_def Let_def)
    with False show ?thesis by simp
  qed
  with shown [of msg legacy p] show ?thesis by metis
qed

theorem json_numbers_rounded_witness:
  "\<exists>m. plainPayload (\<lambda>s. s) (json_form (nat_digits 100000000000000000001)) = Inr m"
proof -
  let ?n = "100000000000000000001"
  have "json_form (nat_digits ?n) ''plain_format'' = Some (js ''json'')"
    "json_form (nat_digits ?n) ''secret_plain'' = Some (nat_digits ?n)" by (simp_all add: json_form_def)
  moreover have "10 ^ 20 - 8192 \<le> (?n :: nat) \<and> (?n :: nat) \<le> 10 ^ 20 + 8192 \<or> 2 ^ 1024 \<le> (?n :: nat)" by simp
  ultimately show ?thesis using json_numbers_rounded [where msg = "\<lambda>s. s"] by blast
qed

end
