(* ===== verification/Management.thy ===== *)
theory Management
  imports Access Protection EndToEnd
begin

text \<open>
  The management of a link over HTTP: \<^verbatim>\<open>handleSecretLinkByID\<close> of \<^verbatim>\<open>internal/http/server.go\<close> with the query
  \<^verbatim>\<open>Metadata\<close> of \<^verbatim>\<open>internal/delivery/repository.go\<close>, and the two parts of the link page in
  \<^verbatim>\<open>web/static/admin.js\<close> that call it, the protection form and the revoke buttons. The page runs in a browser
  that adds the session cookie to its requests.
\<close>

section \<open>The parts of the handler\<close>

definition has_prefix :: "bytes \<Rightarrow> bytes \<Rightarrow> bool" where
  "has_prefix s t \<longleftrightarrow> take (length t) s = t"

definition has_suffix :: "bytes \<Rightarrow> bytes \<Rightarrow> bool" where
  "has_suffix s t \<longleftrightarrow> length t \<le> length s \<and> drop (length s - length t) s = t"

definition trim_prefix :: "bytes \<Rightarrow> bytes \<Rightarrow> bytes" where
  "trim_prefix s t = (if has_prefix s t then drop (length t) s else s)"

definition links_path :: bytes where
  "links_path = ascii ''/api/v1/secret-links/''"

text \<open>The id and the action of a path.\<close>

definition link_path :: "bytes \<Rightarrow> bytes \<times> bytes" where
  "link_path p =
     (let rest = trim_prefix p links_path
      in case split2 (byte_of CHR ''/'') rest of [before, after] \<Rightarrow> (before, after) | _ \<Rightarrow> (rest, []))"

text \<open>The row of an id; an error of the database has no kind of its own.\<close>

definition Metadata :: "uuid \<Rightarrow> delivery_table \<Rightarrow> delivery_row option" where
  "Metadata link rows = find (\<lambda>r. dr_id r = link) rows"

definition service_Metadata :: "db_reply \<Rightarrow> uuid \<Rightarrow> delivery_table \<Rightarrow> delivery_error + delivery_row" where
  "service_Metadata reply link rows =
     (case snd (db_call reply (rows, Metadata link rows) rows) of
        None \<Rightarrow> Inl ErrInternal
      | Some None \<Rightarrow> Inl ErrSecretUnavailable
      | Some (Some row) \<Rightarrow> Inr row)"

definition canManageProtection :: "actor \<Rightarrow> delivery_row \<Rightarrow> bool" where
  "canManageProtection a meta \<longleftrightarrow>
     at_APIClient a \<or> at_Bearer a \<or> at_Role a = ''admin'' \<or> at_Username a \<noteq> [] \<and> created_by meta = at_Username a"

text \<open>
  How values appear in JSON: the text of a stored string, of a time and of an id. The members of \<^verbatim>\<open>Metadata\<close>, with
  its \<^verbatim>\<open>omitempty\<close>.
\<close>

record json_forms =
  jf_text :: "bytes \<Rightarrow> jstr"
  jf_time :: "int \<Rightarrow> jstr"

definition omit_empty :: "string \<Rightarrow> jstr \<Rightarrow> (string \<times> json) list" where
  "omit_empty name s = (if s = [] then [] else [(name, JStr s)])"

definition omit_nil :: "string \<Rightarrow> jstr option \<Rightarrow> (string \<times> json) list" where
  "omit_nil name s = (case s of None \<Rightarrow> [] | Some t \<Rightarrow> [(name, JStr t)])"

definition column_text :: "json_forms \<Rightarrow> bytes option \<Rightarrow> jstr" where
  "column_text jf c = (case c of None \<Rightarrow> [] | Some b \<Rightarrow> jf_text jf b)"

definition metadata_json :: "json_forms \<Rightarrow> delivery_row \<Rightarrow> json" where
  "metadata_json jf r = obj
     ([(''id'', JStr (text_of_bytes (uuid_text (dr_id r))))] @
      omit_empty ''title'' (column_text jf (dr_title r)) @
      omit_empty ''description'' (column_text jf (dr_description r)) @
      omit_empty ''recipient_reference'' (column_text jf (dr_recipient_reference r)) @
      [(''status'', JStr (js (status_text (dr_status r)))), (''expires_at'', JStr (jf_time jf (expires_at r)))] @
      omit_nil ''consumed_at'' (map_option (jf_time jf) (consumed_at r)) @
      omit_nil ''revoked_at'' (map_option (jf_time jf) (revoked_at r)) @
      [(''created_by'', JStr (jf_text jf (created_by r))), (''created_at'', JStr (jf_time jf (created_at r))),
       (''updated_at'', JStr (jf_time jf (updated_at r))), (''password_protected'', JBool (password_hash r \<noteq> None)),
       (''failed_attempts'', JNum (int (failed_attempts r)) 0),
       (''max_failed_attempts'', JNum (int (max_failed_attempts r)) 0),
       (''payload_type'', JStr (jf_text jf (payload_type r))),
       (''payload_field_count'', JNum (int (payload_field_count r)) 0),
       (''payload_contains_sensitive'', JBool (payload_contains_sensitive r))])"

text \<open>What the surroundings decide during a request: about the session, the two statements, their time, the salt.\<close>

record link_oracle =
  lo_auth :: auth_oracle
  lo_meta_reply :: db_reply
  lo_reply :: db_reply
  lo_now :: int
  lo_salt :: "bytes option"

section \<open>The handler\<close>

definition link_metadata ::
  "server \<Rightarrow> json_forms \<Rightarrow> link_oracle \<Rightarrow> uuid \<Rightarrow> server_request \<Rightarrow> auth_state \<Rightarrow> delivery_table \<Rightarrow> auth_state \<times> fetch_result" where
  "link_metadata sv jf w link r st rows =
     (case requireAPI sv (lo_auth w) ''secret:read-metadata'' r st of
        (st', Inl answer) \<Rightarrow> (st', answer)
      | (st', Inr _) \<Rightarrow>
          (st', case service_Metadata (lo_meta_reply w) link rows of
                  Inl e \<Rightarrow> writeDeliveryError e
                | Inr meta \<Rightarrow> Answer 200 (Some (metadata_json jf meta))))"

definition revoke_reply :: "(delivery_status \<times> bool) option option \<Rightarrow> fetch_result" where
  "revoke_reply result =
     (case result of
        None \<Rightarrow> writeDeliveryError ErrInternal
      | Some found \<Rightarrow>
          Answer 200 (Some (obj
            [(''ok'', JBool True),
             (''revoked'', JBool (case found of None \<Rightarrow> False | Some (_, revoked) \<Rightarrow> revoked)),
             (''status'', JStr (js (case found of None \<Rightarrow> ''unavailable'' | Some (status, _) \<Rightarrow> status_text status)))])))"

definition link_revoke ::
  "server \<Rightarrow> link_oracle \<Rightarrow> uuid \<Rightarrow> server_request \<Rightarrow> auth_state \<Rightarrow> delivery_table \<Rightarrow>
   auth_state \<times> delivery_table \<times> fetch_result \<times> audit_event list" where
  "link_revoke sv w link r st rows =
     (case requireAPI sv (lo_auth w) ''secret:revoke'' r st of
        (st', Inl answer) \<Rightarrow> (st', rows, answer, [])
      | (st', Inr a) \<Rightarrow>
          (let (rows', result, events) = RevokeLink (lo_reply w) (lo_now w) link (at_ActorID a) rows
           in (st', rows', revoke_reply result, events)))"

text \<open>The result of a change of the protection; \<^verbatim>\<open>password_protected\<close> is read from the row written.\<close>

definition protection_reply :: "uuid \<Rightarrow> bool \<Rightarrow> delivery_error + bool \<Rightarrow> fetch_result" where
  "protection_reply link protected result =
     (case result of
        Inl e \<Rightarrow> writeDeliveryError e
      | Inr _ \<Rightarrow> Answer 200 (Some (obj [(''id'', JStr (text_of_bytes (uuid_text link))),
                  (''password_protected'', JBool protected)])))"

definition link_password ::
  "server \<Rightarrow> link_oracle \<Rightarrow> uuid \<Rightarrow> server_request \<Rightarrow> auth_state \<Rightarrow> delivery_table \<Rightarrow>
   auth_state \<times> delivery_table \<times> fetch_result \<times> audit_event list" where
  "link_password sv w link r st rows =
     (case requireAPI sv (lo_auth w) ''secret:manage-protection'' r st of
        (st', Inl answer) \<Rightarrow> (st', rows, answer, [])
      | (st', Inr a) \<Rightarrow>
          (case service_Metadata (lo_meta_reply w) link rows of
             Inl e \<Rightarrow> (st', rows, writeDeliveryError e, [])
           | Inr meta \<Rightarrow>
               (if \<not> canManageProtection a meta
                then (st', rows, writeError ''FORBIDDEN'' ''Forbidden.'' 403, [])
                else if sr_method r = ''PUT'' then
                  (case decode_body sv [''password''] 4096 r of
                     Inl answer \<Rightarrow> (st', rows, answer, [])
                   | Inr req \<Rightarrow>
                       (let (rows', result, events) = SetPasswordProtection (sv_env sv) (lo_reply w) (lo_now w)
                              (lo_salt w) link (req ''password'') (at_ActorID a) rows
                        in (st', rows', protection_reply link True result, events)))
                else
                  (let (rows', result, events) = RemovePasswordProtection (lo_reply w) (lo_now w) link
                         (at_ActorID a) rows
                   in (st', rows', protection_reply link False result, events)))))"

definition handleSecretLinkByID ::
  "server \<Rightarrow> json_forms \<Rightarrow> link_oracle \<Rightarrow> server_request \<Rightarrow> auth_state \<Rightarrow> delivery_table \<Rightarrow>
   auth_state \<times> delivery_table \<times> fetch_result \<times> audit_event list" where
  "handleSecretLinkByID sv jf w r st rows =
     (if has_suffix (sr_path r) (ascii ''/prepare'') \<or> has_suffix (sr_path r) (ascii ''/consume'')
      then (st, rows, Answer 404 None, [])
      else
        (let (idPart, action) = link_path (sr_path r)
         in case uuid_parse idPart of
              None \<Rightarrow> (st, rows, writeError ''INVALID_REQUEST'' ''Invalid request.'' 400, [])
            | Some link \<Rightarrow>
                (if action = [] \<and> sr_method r = ''GET'' then
                   (let (st', answer) = link_metadata sv jf w link r st rows in (st', rows, answer, []))
                 else if action = ascii ''revoke'' \<and> sr_method r = ''POST'' then link_revoke sv w link r st rows
                 else if action = ascii ''password'' \<and> (sr_method r = ''PUT'' \<or> sr_method r = ''DELETE'')
                 then link_password sv w link r st rows
                 else (st, rows, writeError ''INVALID_REQUEST'' ''Method not allowed.'' 405, []))))"

section \<open>Only the row of the path, and only for those entitled to it\<close>

text \<open>All rows but those of an id are as before.\<close>

definition only_row :: "uuid \<Rightarrow> delivery_table \<Rightarrow> delivery_table \<Rightarrow> bool" where
  "only_row link rows rows' \<longleftrightarrow> list_all2 (\<lambda>r r'. dr_id r' = dr_id r \<and> (dr_id r \<noteq> link \<longrightarrow> r' = r)) rows rows'"

lemma only_row_refl [simp]: "only_row link rows rows"
  by (simp add: only_row_def list_all2_same)

lemma only_update:
  assumes "\<And>r. P r \<Longrightarrow> dr_id r = link" and "\<And>r. dr_id (f r) = dr_id r"
  shows "only_row link rows (fst (update_where now P f rows))"
  using assms by (auto simp: only_row_def update_where_def list_all2_conv_all_nth)

lemma only_call:
  "db_call reply result rows = (rows', x) \<Longrightarrow> only_row link rows (fst result) \<Longrightarrow> only_row link rows rows'"
  by (auto simp: db_call_def split: db_reply.splits)

lemma only_Revoke: "only_row link rows (fst (Revoke now link rows))"
  unfolding Revoke_def case_prod_beta Let_def fst_conv
  by (rule only_update) (auto simp: clear_lease_def)

lemma only_Update: "only_row link rows (fst (UpdatePasswordProtection now link h rows))"
  unfolding UpdatePasswordProtection_def Let_def fst_conv
  by (rule only_update) auto

lemma only_RevokeLink: "RevokeLink reply now link actorID rows = (rows', result) \<Longrightarrow> only_row link rows rows'"
  by (auto simp: RevokeLink_def split: prod.splits dest!: only_call [OF _ only_Revoke])

lemma only_Set:
  "SetPasswordProtection env reply now salt link password actorID rows = (rows', result) \<Longrightarrow> only_row link rows rows'"
  by (auto simp: SetPasswordProtection_def split: if_splits option.splits prod.splits dest!: only_call [OF _ only_Update])

lemma only_Remove: "RemovePasswordProtection reply now link actorID rows = (rows', result) \<Longrightarrow> only_row link rows rows'"
  by (auto simp: RemovePasswordProtection_def split: option.splits prod.splits dest!: only_call [OF _ only_Update])


lemma service_Metadata_found:
  assumes "service_Metadata reply link rows = Inr meta"
  shows "meta \<in> set rows \<and> dr_id meta = link"
proof -
  from assms have "snd (db_call reply (rows, Metadata link rows) rows) = Some (Some meta)"
    by (auto simp: service_Metadata_def split: option.splits)
  from db_call_snd [OF this] have "find (\<lambda>r. dr_id r = link) rows = Some meta" by (simp add: Metadata_def)
  from find_someD [OF this] show ?thesis .
qed

text \<open>C7: A request changes the table only when it is entitled to: then its actor was granted the permission of
  the action, for a password it may also manage this link (an administrator, an API client or the user who created it), and
  every row but the one named in the path is as before.\<close>

theorem link_change_authorised:
  assumes "handleSecretLinkByID sv jf w r st rows = (st', rows', answer, events)" and "rows' \<noteq> rows"
  shows "\<exists>link action a. link_path (sr_path r) = (link, action) \<and> only_row (the (uuid_parse link)) rows rows' \<and>
    (action = ascii ''revoke'' \<and> sr_method r = ''POST'' \<and>
       requireAPI sv (lo_auth w) ''secret:revoke'' r st = (st', Inr a) \<or>
     action = ascii ''password'' \<and> sr_method r \<in> {''PUT'', ''DELETE''} \<and>
       requireAPI sv (lo_auth w) ''secret:manage-protection'' r st = (st', Inr a) \<and>
       (at_APIClient a \<or> at_Bearer a \<or> at_Role a = ''admin'' \<or>
        (\<exists>row \<in> set rows. Some (dr_id row) = uuid_parse link \<and> created_by row = at_Username a)))"
proof -
  obtain idPart action where path: "link_path (sr_path r) = (idPart, action)" by fastforce
  obtain link where link: "uuid_parse idPart = Some link"
    using assms by (cases "uuid_parse idPart") (auto simp: handleSecretLinkByID_def path split: if_splits)
  consider (revoke) "action = ascii ''revoke''" "sr_method r = ''POST''" "link_revoke sv w link r st rows = (st', rows', answer, events)"
    | (password) "action = ascii ''password''" "sr_method r \<in> {''PUT'', ''DELETE''}" "link_password sv w link r st rows = (st', rows', answer, events)"
    using assms by (auto simp: handleSecretLinkByID_def path link split: if_splits prod.splits)
  then show ?thesis
  proof cases
    case revoke
    obtain st1 x where api: "requireAPI sv (lo_auth w) ''secret:revoke'' r st = (st1, x)" by fastforce
    with revoke(3) assms(2) obtain a where a: "x = Inr a" "st1 = st'"
      by (cases x) (auto simp: link_revoke_def split: prod.splits)
    with revoke(3) api have "only_row link rows rows'"
      by (auto simp: link_revoke_def split: prod.splits dest: only_RevokeLink)
    with path link revoke api a show ?thesis by auto
  next
    case password
    obtain st1 x where api: "requireAPI sv (lo_auth w) ''secret:manage-protection'' r st = (st1, x)" by fastforce
    with password(3) assms(2) obtain a where a: "x = Inr a" "st1 = st'"
      by (cases x) (auto simp: link_password_def split: prod.splits sum.splits if_splits)
    with password(3) api assms(2) obtain meta where meta: "service_Metadata (lo_meta_reply w) link rows = Inr meta"
      by (cases "service_Metadata (lo_meta_reply w) link rows") (auto simp: link_password_def)
    with password(3) api a assms(2) have may: "canManageProtection a meta"
      by (cases "canManageProtection a meta") (auto simp: link_password_def)
    have "only_row link rows rows'"
      using password(3) api a meta may
      by (auto simp: link_password_def split: prod.splits sum.splits if_splits dest: only_Set only_Remove)
    then show ?thesis
      using service_Metadata_found [OF meta] path link password(1,2) api a may by (auto simp: canManageProtection_def)
  qed
qed

section \<open>The page and the handler\<close>

text \<open>What the server receives of a request of the page: the browser adds the cookie.\<close>

definition received :: "bytes option \<Rightarrow> http_request \<Rightarrow> server_request" where
  "received cookie q = \<lparr>sr_method = rq_method q, sr_path = utf8_bytes (rq_url q),
     sr_header = (\<lambda>h. case map_of (rq_headers q) h of None \<Rightarrow> [] | Some v \<Rightarrow> utf8_bytes v), sr_tls = True,
     sr_cookie = cookie, sr_form = (\<lambda>_. []), sr_body = rq_body q\<rparr>"

lemma text_of_ascii: "text_of_bytes (ascii s) = js s"
proof -
  have "ucast (of_char c :: byte) = (word_of_nat (of_char c) :: jchar)" for c
  proof -
    have "unat (word_of_nat (of_char c) :: byte) = (of_char c :: nat) mod 2 ^ 8" by (simp only: unat_of_nat) simp
    also have "\<dots> = of_char c" using of_char_less_256 [of c] by simp
    finally have "unat (of_char c :: byte) = of_char c" by (simp only: of_nat_of_char)
    then show ?thesis by (simp add: word_unat_eq_iff unat_code_unit)
  qed
  then show ?thesis by (simp add: text_of_bytes_def ascii_def js_def)
qed

lemma text_of_append: "text_of_bytes (s @ t) = text_of_bytes s @ text_of_bytes t"
  by (simp add: text_of_bytes_def)

lemma nibble_small: "d < 16 \<Longrightarrow> unat (nibble_digit d) < 0x80"
  unfolding nibble_digit_def by (subst unat_of_nat) simp

lemma uuid_text_ascii: "list_all (\<lambda>x. unat x < 0x80) (uuid_text u)"
  unfolding list_all_iff
proof
  fix x assume "x \<in> set (uuid_text u)"
  from uuid_text_chars [OF this] show "unat x < 0x80" by (elim disjE exE conjE) (simp_all add: nibble_small byte_of_def)
qed

lemma url_path:
  assumes "list_all (\<lambda>x. unat x < 0x80) (ascii action)"
  shows "utf8_bytes (js ''/api/v1/secret-links/'' @ text_of_bytes (uuid_text link) @ js (''/'' @ action)) =
    links_path @ uuid_text link @ byte_of CHR ''/'' # ascii action"
proof -
  have "list_all (\<lambda>x. unat x < 0x80) links_path" by code_simp
  moreover have "list_all (\<lambda>x. unat x < 0x80) [byte_of CHR ''/'']" by code_simp
  ultimately have "utf8_bytes (text_of_bytes (links_path @ uuid_text link @ byte_of CHR ''/'' # ascii action)) =
      links_path @ uuid_text link @ byte_of CHR ''/'' # ascii action"
    using assms uuid_text_ascii by (intro utf8_ascii) simp
  moreover have "text_of_bytes (links_path @ uuid_text link @ byte_of CHR ''/'' # ascii action) =
      js ''/api/v1/secret-links/'' @ text_of_bytes (uuid_text link) @ js (''/'' @ action)"
    using text_of_append [of "[byte_of CHR ''/'']" "ascii action"] text_of_ascii [of "''/''"]
    by (simp add: text_of_append links_path_def text_of_ascii js_append) (simp add: ascii_def byte_of_def js_def text_of_bytes_def)
  ultimately show ?thesis by simp
qed

lemma link_path_action: "link_path (links_path @ uuid_text link @ byte_of CHR ''/'' # action) = (uuid_text link, action)"
  by (simp add: link_path_def trim_prefix_def has_prefix_def split2_append [OF uuid_text_no_slash])

lemma has_suffix_end: "length t \<le> length y \<Longrightarrow> has_suffix (x @ y) t = has_suffix y t"
  by (simp add: has_suffix_def)

lemma errors_not_ok [simp]: "\<not> resp_ok (ErrorStatus e)"
  by (cases e) (simp_all add: ErrorStatus_def resp_ok_def)

lemma writeDeliveryError_ok: "writeDeliveryError e = Answer status b \<Longrightarrow> \<not> resp_ok status"
  by (auto simp: writeDeliveryError_def writeError_def)

lemma first_row_some: "first_row xs = Some r \<Longrightarrow> r \<in> set xs"
  by (auto simp: first_row_def split: list.splits)

lemma Update_some:
  assumes "db_call reply (UpdatePasswordProtection now link h rows) rows = (rows', Some (Some was))"
  shows "\<exists>r' \<in> set rows'. dr_id r' = link \<and> password_hash r' = h \<and> failed_attempts r' = 0 \<and> dr_status r' = Active"
proof -
  let ?P = "\<lambda>r. dr_id r = link \<and> dr_status r = Active \<and> now < expires_at r"
  from db_call_pair [OF assms] have rows': "rows' = fst (update_where now ?P (\<lambda>r. r\<lparr>password_hash := h, failed_attempts := 0\<rparr>) rows)"
    and "map_option (\<lambda>r. password_hash r \<noteq> None) (first_row (filter ?P rows)) = Some was"
    by (simp_all add: UpdatePasswordProtection_def Let_def)
  then obtain r where "first_row (filter ?P rows) = Some r" by auto
  from first_row_some [OF this] have r: "r \<in> set rows" "?P r" by simp_all
  then have "r\<lparr>password_hash := h, failed_attempts := 0, updated_at := now\<rparr> \<in> set rows'"
    unfolding rows' update_where_def Let_def fst_conv by (auto intro!: rev_image_eqI [OF r(1)])
  with r(2) show ?thesis by (intro bexI) auto
qed

lemma Set_ok:
  assumes "SetPasswordProtection env reply now salt link password actorID rows = (rows', Inr was, events)"
  obtains h where "HashPassword (IDKey env) salt (utf8_bytes password) = Some h"
    "\<exists>r' \<in> set rows'. dr_id r' = link \<and> password_hash r' = Some h \<and> failed_attempts r' = 0 \<and> dr_status r' = Active"
proof -
  from assms obtain h where h: "HashPassword (IDKey env) salt (utf8_bytes password) = Some h"
    "db_call reply (UpdatePasswordProtection now link (Some h) rows) rows = (rows', Some (Some was))"
    by (auto simp: SetPasswordProtection_def split: if_splits option.splits prod.splits)
  from that [OF h(1) Update_some [OF h(2)]] show ?thesis .
qed

lemma Remove_ok:
  assumes "RemovePasswordProtection reply now link actorID rows = (rows', Inr was, events)"
  shows "\<exists>r' \<in> set rows'. dr_id r' = link \<and> password_hash r' = None \<and> failed_attempts r' = 0 \<and> dr_status r' = Active"
  using assms
  by (auto simp: RemovePasswordProtection_def split: option.splits prod.splits dest!: Update_some)

lemma suffix_tests:
  "\<not> has_suffix (x @ ascii ''/password'') (ascii ''/prepare'')" "\<not> has_suffix (x @ ascii ''/password'') (ascii ''/consume'')"
  "\<not> has_suffix (x @ ascii ''/revoke'') (ascii ''/prepare'')" "\<not> has_suffix (x @ ascii ''/revoke'') (ascii ''/consume'')"
  by (simp_all add: has_suffix_def ascii_def)

lemma path_end: "byte_of CHR ''/'' # ascii s = ascii (''/'' @ s)"
  by (simp add: ascii_def byte_of_def)

lemma ascii_action: "list_all (\<lambda>x. unat x < 0x80) (ascii ''password'')" "list_all (\<lambda>x. unat x < 0x80) (ascii ''revoke'')"
  by code_simp+

lemma handle_password:
  assumes "sr_path r = links_path @ uuid_text link @ byte_of CHR ''/'' # ascii ''password''"
    and "sr_method r = ''PUT'' \<or> sr_method r = ''DELETE''"
  shows "handleSecretLinkByID sv jf w r st rows = link_password sv w link r st rows"
proof -
  have "\<not> has_suffix (sr_path r) (ascii ''/prepare'')" "\<not> has_suffix (sr_path r) (ascii ''/consume'')"
    using suffix_tests(1,2) [of "links_path @ uuid_text link"] by (simp_all add: assms(1) path_end)
  moreover have "ascii ''password'' \<noteq> []" "ascii ''password'' \<noteq> ascii ''revoke''" by (simp_all add: ascii_def)
  ultimately show ?thesis
    using assms(2) by (simp add: handleSecretLinkByID_def assms(1) link_path_action uuid_parse_text)
qed

lemma handle_revoke:
  assumes "sr_path r = links_path @ uuid_text link @ byte_of CHR ''/'' # ascii ''revoke''" and "sr_method r = ''POST''"
  shows "handleSecretLinkByID sv jf w r st rows = link_revoke sv w link r st rows"
proof -
  have "\<not> has_suffix (sr_path r) (ascii ''/prepare'')" "\<not> has_suffix (sr_path r) (ascii ''/consume'')"
    using suffix_tests(3,4) [of "links_path @ uuid_text link"] by (simp_all add: assms(1) path_end)
  then show ?thesis
    using assms(2) by (simp add: handleSecretLinkByID_def assms(1) link_path_action uuid_parse_text)
qed

lemma received_password:
  "secretID p = text_of_bytes (uuid_text link) \<Longrightarrow>
   utf8_bytes (password_url p) = links_path @ uuid_text link @ byte_of CHR ''/'' # ascii ''password''"
  using url_path [OF ascii_action(1), of link] by (simp add: password_url_def)

lemma received_revoke:
  "utf8_bytes (revoke_url (text_of_bytes (uuid_text link))) =
   links_path @ uuid_text link @ byte_of CHR ''/'' # ascii ''revoke''"
  using url_path [OF ascii_action(2), of link] by (simp add: revoke_url_def)

lemma decode_password:
  assumes "sr_body r = Some (obj [(''password'', JStr pw)])" and "decode_body sv [''password''] 4096 r = Inr req"
  shows "req ''password'' = go_text pw"
proof -
  have "member [''password''] (js ''password'') = Some ''password''" by (simp add: member_def)
  with assms show ?thesis
    by (auto simp: decode_body_def decodeJSON_def obj_def decode_string_def split: if_splits)
qed

text \<open>A password request that is answered with success.\<close>

lemma link_password_ok:
  assumes "link_password sv w link r st rows = (st', rows', Answer status b, events)" and "resp_ok status"
  shows "\<exists>a meta. requireAPI sv (lo_auth w) ''secret:manage-protection'' r st = (st', Inr a) \<and>
    service_Metadata (lo_meta_reply w) link rows = Inr meta \<and> canManageProtection a meta \<and>
    (if sr_method r = ''PUT''
     then \<exists>req was. decode_body sv [''password''] 4096 r = Inr req \<and> SetPasswordProtection (sv_env sv) (lo_reply w)
       (lo_now w) (lo_salt w) link (req ''password'') (at_ActorID a) rows = (rows', Inr was, events)
     else \<exists>was. RemovePasswordProtection (lo_reply w) (lo_now w) link (at_ActorID a) rows = (rows', Inr was, events))"
proof -
  obtain st1 x where api: "requireAPI sv (lo_auth w) ''secret:manage-protection'' r st = (st1, x)" by fastforce
  have "\<exists>a. x = Inr a"
  proof (cases x)
    case (Inl e)
    with assms(1) api have "e = Answer status b" by (simp add: link_password_def)
    with requireAPI_refused Inl api assms(2) show ?thesis by blast
  qed simp
  then obtain a where a: "x = Inr a" by blast
  obtain meta where meta: "service_Metadata (lo_meta_reply w) link rows = Inr meta"
    using assms api a writeDeliveryError_ok
    by (cases "service_Metadata (lo_meta_reply w) link rows") (auto simp: link_password_def)
  have may: "canManageProtection a meta"
    using assms api a meta by (rule_tac ccontr) (auto simp: link_password_def writeError_def resp_ok_def)
  show ?thesis
  proof (cases "sr_method r = ''PUT''")
    case True
    obtain req where req: "decode_body sv [''password''] 4096 r = Inr req"
      using assms api a meta may True decode_body_refused
      by (cases "decode_body sv [''password''] 4096 r") (auto simp: link_password_def)
    obtain rows1 result events1 where set: "SetPasswordProtection (sv_env sv) (lo_reply w) (lo_now w) (lo_salt w) link
        (req ''password'') (at_ActorID a) rows = (rows1, result, events1)" by (metis prod_cases3)
    with assms api a meta may True req have "st1 = st'" "rows1 = rows'" "events1 = events"
      "protection_reply link True result = Answer status b" by (simp_all add: link_password_def)
    moreover from this(4) obtain was where "result = Inr was"
      using assms(2) writeDeliveryError_ok by (cases result) (auto simp: protection_reply_def)
    ultimately show ?thesis using api a meta may True req set by auto
  next
    case False
    obtain rows1 result events1 where set: "RemovePasswordProtection (lo_reply w) (lo_now w) link (at_ActorID a) rows =
        (rows1, result, events1)" by (metis prod_cases3)
    with assms api a meta may False have "st1 = st'" "rows1 = rows'" "events1 = events"
      "protection_reply link False result = Answer status b" by (simp_all add: link_password_def)
    moreover from this(4) obtain was where "result = Inr was"
      using assms(2) writeDeliveryError_ok by (cases result) (auto simp: protection_reply_def)
    ultimately show ?thesis using api a meta may False set by auto
  qed
qed

lemma protection_answer_ok:
  "resp_ok status \<Longrightarrow> protection_shown True (protection_answer call (Answer status b) p)"
  "resp_ok status \<Longrightarrow> protection_shown False (remove_answer (Answer status b) p)"
  by (simp_all add: protection_answer_def remove_answer_def protection_try_def Let_def)

lemma put_truthful:
  assumes page: "secretID p = text_of_bytes (uuid_text link)"
    and key: "\<And>pw salt key. IDKey (sv_env sv) pw salt 3 65536 1 32 = Some key \<Longrightarrow> length key = 32"
    and ok: "resp_ok status" and submit: "protection_submit p = (p1, Some (was, q))"
    and answer: "handleSecretLinkByID sv jf w (received cookie q) st rows = (st', rows', Answer status b, events)"
  shows "only_row link rows rows' \<and>
    (\<exists>r' \<in> set rows'. dr_id r' = link \<and> dr_status r' = Active \<and> failed_attempts r' = 0 \<and>
       (\<exists>h. password_hash r' = Some h \<and> VerifyPassword (IDKey (sv_env sv))
          (utf8_bytes (go_text (form_string (prot_form p) ''password''))) h = Some True))"
proof -
  from submit have q: "q = json_call (set_prot_error [] p) ''PUT'' (password_url p)
      (obj [(''password'', JStr (form_string (prot_form p) ''password''))])"
    by (auto simp: protection_submit_def Let_def set_prot_error_def password_url_def)
  have r: "sr_path (received cookie q) = links_path @ uuid_text link @ byte_of CHR ''/'' # ascii ''password''"
    "sr_method (received cookie q) = ''PUT''"
    "sr_body (received cookie q) = Some (obj [(''password'', JStr (form_string (prot_form p) ''password''))])"
    using received_password [OF page] by (simp_all add: received_def q)
  from answer have "link_password sv w link (received cookie q) st rows = (st', rows', Answer status b, events)"
    using handle_password [OF r(1)] r(2) by simp
  from link_password_ok [OF this ok] r(2) have "\<exists>(a :: actor) req before. decode_body sv [''password''] 4096 (received cookie q) = Inr req \<and>
      SetPasswordProtection (sv_env sv) (lo_reply w) (lo_now w) (lo_salt w) link (req ''password'')
        (at_ActorID a) rows = (rows', Inr before, events)" by auto
  then obtain a :: actor and req before where
    req: "decode_body sv [''password''] 4096 (received cookie q) = Inr req"
    and set: "SetPasswordProtection (sv_env sv) (lo_reply w) (lo_now w) (lo_salt w) link (req ''password'')
      (at_ActorID a) rows = (rows', Inr before, events)" by blast
  from Set_ok [OF set] obtain h where h: "HashPassword (IDKey (sv_env sv)) (lo_salt w) (utf8_bytes (req ''password'')) = Some h"
    "\<exists>r' \<in> set rows'. dr_id r' = link \<and> password_hash r' = Some h \<and> failed_attempts r' = 0 \<and> dr_status r' = Active" .
  then obtain salt where "lo_salt w = Some salt" by (cases "lo_salt w") (auto simp: HashPassword_def split: if_splits)
  with h(1) have "VerifyPassword (IDKey (sv_env sv)) (utf8_bytes (req ''password'')) h = Some True"
    using password_accepted(1) key by metis
  with h(2) decode_password [OF r(3) req] only_Set [OF set] show ?thesis by auto
qed

lemma delete_truthful:
  assumes page: "secretID p = text_of_bytes (uuid_text link)" and ok: "resp_ok status"
    and click: "remove_confirmed (password_url p) True p = (p1, Some q)"
    and answer: "handleSecretLinkByID sv jf w (received cookie q) st rows = (st', rows', Answer status b, events)"
  shows "only_row link rows rows' \<and>
    (\<exists>r' \<in> set rows'. dr_id r' = link \<and> dr_status r' = Active \<and> failed_attempts r' = 0 \<and> password_hash r' = None)"
proof -
  from click have r: "sr_path (received cookie q) = links_path @ uuid_text link @ byte_of CHR ''/'' # ascii ''password''"
    "sr_method (received cookie q) = ''DELETE''"
    using received_password [OF page] by (auto simp: remove_confirmed_def received_def)
  from answer have "link_password sv w link (received cookie q) st rows = (st', rows', Answer status b, events)"
    using handle_password [OF r(1)] r(2) by simp
  from link_password_ok [OF this ok] r(2) have "\<exists>(a :: actor) before. RemovePasswordProtection (lo_reply w) (lo_now w) link
      (at_ActorID a) rows = (rows', Inr before, events)" by auto
  then obtain a :: actor and before where
    removed: "RemovePasswordProtection (lo_reply w) (lo_now w) link (at_ActorID a) rows = (rows', Inr before, events)"
    by blast
  from Remove_ok [OF removed] only_Remove [OF removed] show ?thesis by auto
qed

text \<open>C18: What the protection panel announces is true. When the page reports a password as saved, the link is active,
  its row accepts the password that was typed into the form, and its failed attempts are forgotten; when it
  reports the password as removed, the row has none. No other link is changed.\<close>

theorem protection_truthful:
  assumes "secretID p = text_of_bytes (uuid_text link)"
    and "\<And>pw salt key. IDKey (sv_env sv) pw salt 3 65536 1 32 = Some key \<Longrightarrow> length key = 32"
    and "resp_ok status"
    and "handleSecretLinkByID sv jf w (received cookie q) st rows = (st', rows', Answer status b, events)"
  shows "(protection_submit p = (p1, Some (was, q)) \<longrightarrow>
       protection_shown True (protection_answer (was, q) (Answer status b) p1) \<and> only_row link rows rows' \<and>
       (\<exists>r' \<in> set rows'. dr_id r' = link \<and> dr_status r' = Active \<and> failed_attempts r' = 0 \<and>
          (\<exists>h. password_hash r' = Some h \<and> VerifyPassword (IDKey (sv_env sv))
             (utf8_bytes (go_text (form_string (prot_form p) ''password''))) h = Some True))) \<and>
    (remove_confirmed (password_url p) True p = (p1, Some q) \<longrightarrow>
       protection_shown False (remove_answer (Answer status b) p1) \<and> only_row link rows rows' \<and>
       (\<exists>r' \<in> set rows'. dr_id r' = link \<and> dr_status r' = Active \<and> failed_attempts r' = 0 \<and>
          password_hash r' = None))"
  using put_truthful [OF assms(1,2,3) _ assms(4)] delete_truthful [OF assms(1,3) _ assms(4)]
    protection_answer_ok [OF assms(3)] by simp

definition revocable :: "delivery_row \<Rightarrow> bool" where
  "revocable r \<longleftrightarrow> dr_status r = Active \<or> dr_status r = Consuming"

lemma Revoke_one:
  assumes "table_ok rows" and "r \<in> set rows" and "dr_id r = link" and "revocable r"
  shows "\<exists>r' \<in> set (fst (Revoke now link rows)). dr_id r' = link \<and> dr_status r' = Revoked \<and> encrypted_payload r' = []"
    and "snd (Revoke now link rows) = Some (Revoked, True)"
proof -
  define f where "f r = clear_lease (r\<lparr>dr_status := Revoked, revoked_at := Some now, encrypted_payload := []\<rparr>)" for r
  have one: "update_where now (\<lambda>r. dr_id r = link \<and> dr_status r \<in> {Active, Consuming}) f rows =
      (replace_row (dr_id r) ((f r)\<lparr>updated_at := now\<rparr>) rows, [(f r)\<lparr>updated_at := now\<rparr>])"
  proof (rule update_where_written_one [OF assms(1,2)])
    show "dr_id r = link \<and> dr_status r \<in> {Active, Consuming}" using assms(3,4) by (auto simp: revocable_def)
    show "x = r" if "x \<in> set rows" "dr_id x = link \<and> dr_status x \<in> {Active, Consuming}" for x
      using table_row_unique [OF assms(1) that(1) assms(2)] that(2) assms(3) by simp
  qed
  have revoke: "Revoke now link rows = (replace_row (dr_id r) ((f r)\<lparr>updated_at := now\<rparr>) rows, Some (Revoked, True))"
    unfolding Revoke_def using one [unfolded f_def] by (simp add: f_def)
  have "(f r)\<lparr>updated_at := now\<rparr> \<in> set (fst (Revoke now link rows))"
    by (simp add: revoke replace_row_in [OF assms(2)])
  then show "\<exists>r' \<in> set (fst (Revoke now link rows)). dr_id r' = link \<and> dr_status r' = Revoked \<and> encrypted_payload r' = []"
    by (rule bexI [rotated]) (simp add: f_def clear_lease_def assms(3))
  show "snd (Revoke now link rows) = Some (Revoked, True)" by (simp add: revoke)
qed

lemma Revoke_nothing:
  assumes "\<And>r. r \<in> set rows \<Longrightarrow> dr_id r = link \<Longrightarrow> \<not> revocable r"
  shows "fst (Revoke now link rows) = rows" and "snd (Revoke now link rows) = None \<or> (\<exists>s. snd (Revoke now link rows) = Some (s, False))"
proof -
  define P where "P r = (dr_id r = link \<and> dr_status r \<in> {Active, Consuming})" for r :: delivery_row
  have P: "\<not> P r" if "r \<in> set rows" for r using assms that by (auto simp: P_def revocable_def)
  then have "filter P rows = []" by (simp add: filter_empty_conv)
  moreover have "map (\<lambda>r. if P r then g r else r) rows = rows" for g by (rule map_idI) (simp add: P)
  ultimately have "update_where now P f rows = (rows, [])" for f by (simp add: update_where_def Let_def)
  then show "fst (Revoke now link rows) = rows"
    and "snd (Revoke now link rows) = None \<or> (\<exists>s. snd (Revoke now link rows) = Some (s, False))"
    unfolding Revoke_def P_def by (simp, cases "first_row (filter (\<lambda>r. dr_id r = link) rows)") simp_all
qed

definition answer_body :: "fetch_result \<Rightarrow> json option" where
  "answer_body r = (case r of Answer _ b \<Rightarrow> b | Rejected \<Rightarrow> None)"

lemma revoke_reply_body:
  "answer_body (revoke_reply (Some found)) = Some (obj
     [(''ok'', JBool True), (''revoked'', JBool (case found of None \<Rightarrow> False | Some (_, revoked) \<Rightarrow> revoked)),
      (''status'', JStr (js (case found of None \<Rightarrow> ''unavailable'' | Some (status, _) \<Rightarrow> status_text status)))])"
  "\<exists>b. revoke_reply (Some found) = Answer 200 b"
  by (simp_all add: revoke_reply_def answer_body_def)

lemma revoke_text_shown:
  "i < length (revoke_buttons p) \<Longrightarrow> b_text (revoke_buttons (revoke_answer i (Answer 200 b) p) ! i) = js ''Revoked''"
  by (simp add: revoke_answer_def resp_ok_def) (simp add: revoke_text_def)

text \<open>C19: The revoke button speaks of a link that may not have been revoked by it. Whatever the state of the link, also when
  there is none of that id, an entitled request is answered with 200, and the page says that the link was
  revoked; it was by this request exactly if it was active or being consumed, and otherwise no row is changed and the
  answer says so in a member that the page does not read.\<close>

theorem revoke_announced:
  assumes "revoke_confirmed (i, text_of_bytes (uuid_text link)) True p = (p1, Some q)"
    and "i < length (revoke_buttons p)"
    and "requireAPI sv (lo_auth w) ''secret:revoke'' (received cookie q) st = (st', Inr a)"
    and "lo_reply w = Answered" and "table_ok rows"
    and "handleSecretLinkByID sv jf w (received cookie q) st rows = (st'', rows', answer, events)"
  shows "b_text (revoke_buttons (revoke_answer i answer p1) ! i) = js ''Revoked'' \<and>
    (if \<exists>r \<in> set rows. dr_id r = link \<and> revocable r
     then (\<exists>r' \<in> set rows'. dr_id r' = link \<and> dr_status r' = Revoked \<and> encrypted_payload r' = []) \<and>
       get_prop (answer_body answer) ''revoked'' = Some (JBool True)
     else rows' = rows \<and> get_prop (answer_body answer) ''revoked'' = Some (JBool False))"
proof -
  from assms(1) have q: "q = plain_call p ''POST'' (revoke_url (text_of_bytes (uuid_text link)))"
    and p1: "length (revoke_buttons p1) = length (revoke_buttons p)" by (auto simp: revoke_confirmed_def)
  have "sr_path (received cookie q) = links_path @ uuid_text link @ byte_of CHR ''/'' # ascii ''revoke''"
    "sr_method (received cookie q) = ''POST''"
    by (simp_all add: received_def q received_revoke)
  with assms(6) have "link_revoke sv w link (received cookie q) st rows = (st'', rows', answer, events)"
    by (simp add: handle_revoke)
  then have rows': "rows' = fst (Revoke (lo_now w) link rows)"
    and answer: "answer = revoke_reply (Some (snd (Revoke (lo_now w) link rows)))"
    using assms(3,4) by (simp_all add: link_revoke_def RevokeLink_def db_call_def)
  have "b_text (revoke_buttons (revoke_answer i answer p1) ! i) = js ''Revoked''"
    using revoke_reply_body(2) revoke_text_shown [of i p1] p1 assms(2) unfolding answer by metis
  then show ?thesis
    using Revoke_one [OF assms(5), where now = "lo_now w" and link = link]
      Revoke_nothing [where now = "lo_now w" and rows = rows and link = link]
    unfolding rows' answer revoke_reply_body(1) get_prop_obj by (fastforce split: if_split)
qed


section \<open>A page that is logged in\<close>

lemma CSRFToken_ascii: "list_all (\<lambda>x. unat x < 0x80) (CSRFToken m s)"
proof -
  have "list_all (\<lambda>x. unat x < 0x80) URLAlphabet" by code_simp
  then show ?thesis
    using b64_encode_set [OF good_alphabets(2)] by (auto simp: CSRFToken_def list_all_iff)
qed

text \<open>The requests of the administration pages are granted what the session may do: the page was rendered with its token.\<close>

lemma page_granted:
  assumes "rq_headers q = csrfHeaders u extra" and "csrf_meta u = Some (text_of_bytes (CSRFToken (sv_sessions sv) (ss_ID s)))"
    and "extra = [] \<or> extra = json_headers"
    and "snd (session_lookup sv w (received cookie q) st) = Some s" and "ss_Permissions s permission"
    and "CSRFToken (sv_sessions sv) (ss_ID s) \<noteq> []"
  shows "requireAPI sv w permission (received cookie q) st =
    (st\<lparr>as_db := fst (session_lookup sv w (received cookie q) st)\<rparr>, Inr (session_actor s))"
proof (rule requireAPI_page [OF _ assms(4,5) _ assms(6)])
  have token: "text_of_bytes (CSRFToken (sv_sessions sv) (ss_ID s)) \<noteq> []"
    using assms(6) by (simp add: text_of_bytes_def)
  with assms(1-3) have headers: "rq_headers q = extra @ [(''X-CSRF-Token'', text_of_bytes (CSRFToken (sv_sessions sv) (ss_ID s)))]"
    by (simp add: csrfHeaders_def string_or_empty_def Let_def)
  from assms(3) show "sr_header (received cookie q) ''Authorization'' = []"
    by (auto simp: received_def headers json_headers_def)
  from assms(3) show "sr_header (received cookie q) ''X-CSRF-Token'' = CSRFToken (sv_sessions sv) (ss_ID s)"
    by (auto simp: received_def headers json_headers_def utf8_ascii [OF CSRFToken_ascii])
qed

definition link_page :: protection_page where
  "link_page = sample_protection\<lparr>secretID := text_of_bytes (uuid_text 7),
     csrf_meta := Some (text_of_bytes (CSRFToken sample_manager sample_id)), prot_form := (\<lambda>_. Some (js ''pw''))\<rparr>"

definition password_call :: http_request where
  "password_call = json_call (set_prot_error [] link_page) ''PUT'' (password_url link_page)
     (obj [(''password'', JStr (js ''pw''))])"

definition own_row :: delivery_row where
  "own_row = sample_delivery\<lparr>created_by := [65]\<rparr>"

definition sample_link_oracle :: link_oracle where
  "sample_link_oracle = \<lparr>lo_auth = sample_auth_oracle, lo_meta_reply = Answered, lo_reply = Answered, lo_now = 5,
     lo_salt = Some (replicate 16 7)\<rparr>"

definition sample_cookie :: "bytes option" where
  "sample_cookie = Some (sign sample_manager sample_id)"

lemma link_page_sels [simp]:
  "passwordProtected link_page = js ''true''" "prot_form link_page = (\<lambda>_. Some (js ''pw''))"
  "secretID link_page = text_of_bytes (uuid_text 7)"
  "csrf_meta link_page = Some (text_of_bytes (CSRFToken sample_manager sample_id))"
  "sv_sessions sample_server = sample_manager" "sv_env sample_server = small_env" "IDKey small_env = sample_idkey"
  by (simp_all add: link_page_def sample_protection_def sample_server_def small_env_def)

lemma link_page_submit: "protection_submit link_page = (save_loading True (set_prot_error [] link_page), Some (True, password_call))"
proof -
  have "passwordProtected (set_prot_error [] link_page) = js ''true''"
    "prot_form (set_prot_error [] link_page) = (\<lambda>_. Some (js ''pw''))"
    "password_url (set_prot_error [] link_page) = password_url link_page"
    by (simp_all add: set_prot_error_def password_url_def)
  then show ?thesis by (simp add: protection_submit_def password_call_def form_string_def string_or_empty_def Let_def)
qed

lemma received_lookup:
  "snd (session_lookup sample_server sample_auth_oracle (received sample_cookie q) sample_auth) =
     Some (sample_session\<lparr>ss_LastSeenAt := 1099\<rparr>)"
  using sample_accepted
  by (simp add: session_lookup_def sample_server_def sample_auth_oracle_def sample_cookie_def sample_auth_def received_def)

lemma sample_permissions:
  "ss_Permissions sample_session p \<longleftrightarrow> p \<in> set (PermissionsForRole ''developer'')"
  by (simp add: sample_session_def session_of_def permissionsMap_def)

lemma sample_session_id [simp]: "ss_ID (sample_session\<lparr>ss_LastSeenAt := t\<rparr>) = sample_id"
  by (simp add: sample_session_def session_of_def)

lemma password_call_granted:
  "\<exists>st'. requireAPI sample_server sample_auth_oracle ''secret:manage-protection'' (received sample_cookie password_call)
     sample_auth = (st', Inr (session_actor (sample_session\<lparr>ss_LastSeenAt := 1099\<rparr>)))"
proof -
  have "rq_headers password_call = csrfHeaders link_page json_headers"
    by (simp add: password_call_def json_call_def csrfHeaders_def set_prot_error_def)
  from page_granted [OF this _ _ received_lookup ] show ?thesis
    by (simp add: sample_permissions sample_csrf sample_session_id PermissionsForRole_def)
qed


lemma sample_HashPassword: "\<exists>h. HashPassword sample_idkey (Some (replicate 16 7)) (utf8_bytes (js ''pw'')) = Some h"
proof -
  have "utf8_bytes (js ''pw'') \<noteq> []" by (simp add: js_def utf8_unit_def is_high_def is_low_def)
  then show ?thesis
    by (simp add: HashPassword_def sample_idkey_def argonIterations_def argonParallelism_def)
qed

lemma password_call_answer:
  "\<exists>st' rows'. handleSecretLinkByID sample_server jf sample_link_oracle (received sample_cookie password_call) sample_auth
     [own_row] = (st', rows', Answer 200 (Some (obj [(''id'', JStr (text_of_bytes (uuid_text 7))),
       (''password_protected'', JBool True)])), [audit 7 [65] ''secret.password_set'' ''success'']) \<and> rows' \<noteq> [own_row]"
proof -
  let ?r = "received sample_cookie password_call"
  obtain h where h: "HashPassword sample_idkey (Some (replicate 16 7)) (utf8_bytes (js ''pw'')) = Some h"
    using sample_HashPassword by blast
  have r: "sr_path ?r = links_path @ uuid_text 7 @ byte_of CHR ''/'' # ascii ''password''" "sr_method ?r = ''PUT''"
    "sr_body ?r = Some (obj [(''password'', JStr (js ''pw''))])"
    using received_password [of link_page 7] by (simp_all add: received_def password_call_def)
  have "map_of (csrfHeaders u json_headers) ''Content-Type'' = Some (js ''application/json'')" for u :: protection_page
    by (simp add: csrfHeaders_def json_headers_def Let_def)
  moreover have "list_all (\<lambda>x. unat x < 0x80) (ascii ''application/json'')" by code_simp
  ultimately have media: "sr_header ?r ''Content-Type'' = ascii ''application/json''"
    using utf8_ascii [of "ascii ''application/json''"]
    by (simp add: received_def password_call_def json_call_def text_of_ascii)
  have bound: "\<not> 4096 < utf8_length (stringify (obj [(''password'', JStr (js ''pw''))]))" and same: "go_text (js ''pw'') = js ''pw''"
    by code_simp+
  have "decodeJSON [''password''] 4096 (obj [(''password'', JStr (js ''pw''))]) = Inr ((\<lambda>_. [])(''password'' := js ''pw''))"
    unfolding decodeJSON_def if_not_P [OF bound] by (simp add: obj_def member_def decode_string_def same)
  moreover have "sv_parse_media sample_server (ascii ''application/json'') = Some ''application/json''"
    by (simp add: sample_server_def)
  ultimately obtain req where req: "decode_body sample_server [''password''] 4096 ?r = Inr req" "req ''password'' = js ''pw''"
    by (simp add: decode_body_def media r(3))
  have "TrimSpace (js ''pw'') \<noteq> []" "utf8_length (js ''pw'') \<le> 1024" by code_simp+
  then have set: "\<exists>rows'. SetPasswordProtection small_env Answered 5 (Some (replicate 16 7)) 7 (js ''pw'') [65] [own_row] =
      (rows', Inr False, [audit 7 [65] ''secret.password_set'' ''success'']) \<and> rows' \<noteq> [own_row]"
    by (simp add: SetPasswordProtection_def h db_call_def UpdatePasswordProtection_def own_row_def sample_delivery_def
        first_row_def update_where_def)
  have meta: "service_Metadata Answered 7 [own_row] = Inr own_row"
    by (simp add: service_Metadata_def db_call_def Metadata_def own_row_def sample_delivery_def)
  have may: "canManageProtection (session_actor (sample_session\<lparr>ss_LastSeenAt := 1099\<rparr>)) own_row"
    by (simp add: canManageProtection_def own_row_def) (simp add: sample_session_def session_of_def)
  have who: "at_ActorID (session_actor (sample_session\<lparr>ss_LastSeenAt := 1099\<rparr>)) = [65]"
    by (simp add: sample_session_def session_of_def)
  have world: "lo_auth sample_link_oracle = sample_auth_oracle" "lo_meta_reply sample_link_oracle = Answered"
    "lo_reply sample_link_oracle = Answered" "lo_now sample_link_oracle = 5"
    "lo_salt sample_link_oracle = Some (replicate 16 7)" by (simp_all add: sample_link_oracle_def)
  from password_call_granted obtain st' where "requireAPI sample_server sample_auth_oracle ''secret:manage-protection'' ?r sample_auth =
      (st', Inr (session_actor (sample_session\<lparr>ss_LastSeenAt := 1099\<rparr>)))" by blast
  with set req meta may who r world show ?thesis
    by (auto simp: handle_password link_password_def protection_reply_def)
qed


definition sample_forms :: json_forms where
  "sample_forms = \<lparr>jf_text = (\<lambda>_. []), jf_time = (\<lambda>_. [])\<rparr>"

theorem link_change_authorised_witness:
  "\<exists>link rows'. only_row link [own_row] rows' \<and> rows' \<noteq> [own_row]"
proof -
  obtain st' rows' where run: "handleSecretLinkByID sample_server sample_forms sample_link_oracle
      (received sample_cookie password_call) sample_auth [own_row] = (st', rows', Answer 200 (Some (obj
        [(''id'', JStr (text_of_bytes (uuid_text 7))), (''password_protected'', JBool True)])),
        [audit 7 [65] ''secret.password_set'' ''success''])" "rows' \<noteq> [own_row]"
    using password_call_answer [of sample_forms] by blast
  from link_change_authorised [OF this] run(2) show ?thesis by blast
qed

lemma sample_key_length: "IDKey (sv_env sample_server) pw salt 3 65536 1 32 = Some key \<Longrightarrow> length key = 32"
  by (auto simp: sample_idkey_def)

theorem protection_truthful_witness:
  "\<exists>rows' :: delivery_table. \<exists>r' \<in> set rows'. dr_id r' = 7 \<and>
     (\<exists>h. password_hash r' = Some h \<and> VerifyPassword sample_idkey (utf8_bytes (go_text (js ''pw''))) h = Some True)"
proof -
  obtain st' rows' where run: "handleSecretLinkByID sample_server sample_forms sample_link_oracle
      (received sample_cookie password_call) sample_auth [own_row] = (st', rows', Answer 200 (Some (obj
        [(''id'', JStr (text_of_bytes (uuid_text 7))), (''password_protected'', JBool True)])),
        [audit 7 [65] ''secret.password_set'' ''success''])"
    using password_call_answer [of sample_forms] by blast
  have ok: "resp_ok 200" by (simp add: resp_ok_def)
  have page: "secretID link_page = text_of_bytes (uuid_text 7)" by simp
  have "\<exists>r' \<in> set rows'. dr_id r' = 7 \<and> (\<exists>h. password_hash r' = Some h \<and>
      VerifyPassword (IDKey (sv_env sample_server))
        (utf8_bytes (go_text (form_string (prot_form link_page) ''password''))) h = Some True)"
    by (rule protection_truthful [OF page _ ok run, THEN conjunct1, THEN mp, THEN conjunct2, THEN conjunct2, THEN bexE,
          OF _ link_page_submit]) (erule sample_key_length, blast)
  moreover have pw: "form_string (prot_form link_page) ''password'' = js ''pw''" by (simp add: form_string_def string_or_empty_def)
  moreover have key: "IDKey (sv_env sample_server) = sample_idkey" by simp
  ultimately show ?thesis unfolding pw key by blast
qed

definition consumed_row :: delivery_row where
  "consumed_row = own_row\<lparr>dr_status := Consumed, consumed_at := Some 1, encrypted_payload := []\<rparr>"

definition links_page :: revoke_page where
  "links_page = sample_revoke_page\<lparr>csrf_meta := Some (text_of_bytes (CSRFToken sample_manager sample_id))\<rparr>"

theorem revoke_announced_witness:
  "\<exists>answer p1. b_text (revoke_buttons (revoke_answer 0 answer p1) ! 0) = js ''Revoked'' \<and>
     get_prop (answer_body answer) ''revoked'' = Some (JBool False)"
proof -
  let ?link = "text_of_bytes (uuid_text 7)"
  define p1 where "p1 = fst (revoke_confirmed (0, ?link) True links_page)"
  define q where "q = plain_call links_page ''POST'' (revoke_url ?link)"
  have click: "revoke_confirmed (0, ?link) True links_page = (p1, Some q)"
    by (simp add: p1_def q_def revoke_confirmed_def)
  have button: "0 < length (revoke_buttons links_page)" by (simp add: links_page_def sample_revoke_page_def)
  have "rq_headers q = csrfHeaders links_page []" by (simp add: q_def plain_call_def)
  moreover have "csrf_meta links_page = Some (text_of_bytes (CSRFToken sample_manager sample_id))" by (simp add: links_page_def)
  ultimately obtain st' where api: "requireAPI sample_server (lo_auth sample_link_oracle) ''secret:revoke''
      (received sample_cookie q) sample_auth = (st', Inr (session_actor (sample_session\<lparr>ss_LastSeenAt := 1099\<rparr>)))"
    using page_granted [of q links_page "[]" sample_server _ sample_auth_oracle, OF _ _ _ received_lookup] sample_csrf
    by (simp add: sample_permissions PermissionsForRole_def sample_link_oracle_def)
  have world: "lo_reply sample_link_oracle = Answered" by (simp add: sample_link_oracle_def)
  have table: "table_ok [consumed_row]"
    by (simp add: table_ok_def row_ok_def consumed_row_def own_row_def sample_delivery_def)
  obtain st'' rows' answer events where run: "handleSecretLinkByID sample_server sample_forms sample_link_oracle
      (received sample_cookie q) sample_auth [consumed_row] = (st'', rows', answer, events)" by (metis prod_cases4)
  have "\<not> revocable consumed_row" by (simp add: revocable_def consumed_row_def)
  with revoke_announced [OF click button api world table run] show ?thesis by auto
qed

end
