(* ===== verification/RateLimit.thy ===== *)
theory RateLimit
  imports Access
begin

text \<open>
  The rate limits of the server: \<^verbatim>\<open>internal/ratelimit/ratelimit.go\<close>, a map from keys to fixed windows, and the
  address of a client that most of its keys are made from, \<^verbatim>\<open>clientIP\<close> and \<^verbatim>\<open>IPHash\<close> of
  \<^verbatim>\<open>internal/middleware/security.go\<close>, behind the proxy of \<^verbatim>\<open>deploy/nginx/secureshare.conf\<close>. The
  mutex makes the update of the map one step, but \<^verbatim>\<open>Allow\<close> and \<^verbatim>\<open>Cleanup\<close> read the clock before they take it: the
  time is an argument, and the operations, which are in the order of the lock, need not be in the order of their
  times. A stored window never ends at the zero time. Times are microseconds.
\<close>

section \<open>The limiter\<close>

record limiter =
  lm_limit :: int
  lm_window :: int

record bucket =
  bk_count :: int
  bk_resetAt :: int

type_synonym buckets = "bytes \<rightharpoonup> bucket"

definition limiter_key :: "bytes \<Rightarrow> bytes" where
  "limiter_key key = (if key = [] then ascii ''unknown'' else key)"

definition Allow :: "limiter \<Rightarrow> int \<Rightarrow> bytes \<Rightarrow> buckets \<Rightarrow> buckets \<times> bool" where
  "Allow l now key items =
     (let k = limiter_key key; fresh = items(k \<mapsto> \<lparr>bk_count = 1, bk_resetAt = now + lm_window l\<rparr>)
      in case items k of
           None \<Rightarrow> (fresh, True)
         | Some item \<Rightarrow>
             (if bk_resetAt item < now then (fresh, True)
              else if lm_limit l \<le> bk_count item then (items, False)
              else (items(k \<mapsto> item\<lparr>bk_count := bk_count item + 1\<rparr>), True)))"

definition limiter_Cleanup :: "int \<Rightarrow> buckets \<Rightarrow> buckets" where
  "limiter_Cleanup now items =
     (\<lambda>k. case items k of
        None \<Rightarrow> None
      | Some item \<Rightarrow> if bk_resetAt item < now then None else Some item)"

text \<open>The registry; its own \<open>Cleanup\<close> cleans every limiter.\<close>

definition Login_limiter :: limiter where
  "Login_limiter = \<lparr>lm_limit = 10, lm_window = 15 * 60 * 1000000\<rparr>"

section \<open>The key of a client\<close>

text \<open>\<open>peer\<close> is the host of the connection.\<close>

definition clientIP :: "bytes \<Rightarrow> server_request \<Rightarrow> bytes" where
  "clientIP peer r =
     (let forwarded = sr_header r ''X-Forwarded-For'';
          first_entry = trim_bytes (takeWhile (\<lambda>c. c \<noteq> byte_of CHR '','') forwarded)
      in if forwarded \<noteq> [] \<and> first_entry \<noteq> [] then first_entry else peer)"

definition IPHash :: "(bytes \<Rightarrow> bytes \<Rightarrow> bytes) \<Rightarrow> bytes \<Rightarrow> bytes \<Rightarrow> server_request \<Rightarrow> bytes" where
  "IPHash mac pepper peer r = b64_encode URLAlphabet (take 12 (mac pepper (clientIP peer r)))"

text \<open>\<^verbatim>\<open>$proxy_add_x_forwarded_for\<close>: what the client sent, and its address behind it.\<close>

definition forwarded_for :: "bytes \<Rightarrow> bytes \<Rightarrow> bytes" where
  "forwarded_for sent address = (if sent = [] then address else sent @ ascii '', '' @ address)"

definition through_proxy :: "bytes \<Rightarrow> server_request \<Rightarrow> server_request" where
  "through_proxy address r = r\<lparr>sr_header := (sr_header r)
     (''X-Forwarded-For'' := forwarded_for (sr_header r ''X-Forwarded-For'') address,
      ''X-Forwarded-Proto'' := ascii ''https'')\<rparr>"

section \<open>At most two windows' worth, or three\<close>

datatype limiter_op = Try int bytes | Sweep int

fun op_time :: "limiter_op \<Rightarrow> int" where
  "op_time (Try t k) = t"
| "op_time (Sweep t) = t"

text \<open>The calls that are allowed, with their times and keys.\<close>

fun admitted :: "limiter \<Rightarrow> limiter_op list \<Rightarrow> buckets \<Rightarrow> (int \<times> bytes) list" where
  "admitted l [] items = []"
| "admitted l (Try t k # ops) items =
     (let (items', ok) = Allow l t k items in (if ok then [(t, limiter_key k)] else []) @ admitted l ops items')"
| "admitted l (Sweep t # ops) items = admitted l ops (limiter_Cleanup t items)"

definition within :: "int \<Rightarrow> int \<Rightarrow> bytes \<Rightarrow> int \<times> bytes \<Rightarrow> bool" where
  "within s e k call \<longleftrightarrow> s \<le> fst call \<and> fst call \<le> e \<and> snd call = k"

lemma Allow_other: "limiter_key k \<noteq> k' \<Longrightarrow> fst (Allow l t k items) k' = items k'"
  by (auto simp: Allow_def Let_def split: option.split)

lemma Allow_cases:
  obtains (fresh) "snd (Allow l t k items)" "fst (Allow l t k items) (limiter_key k) = Some \<lparr>bk_count = 1, bk_resetAt = t + lm_window l\<rparr>"
      "\<And>b. items (limiter_key k) = Some b \<Longrightarrow> bk_resetAt b < t"
  | (counted) b where "items (limiter_key k) = Some b" "t \<le> bk_resetAt b" "bk_count b < lm_limit l" "snd (Allow l t k items)"
      "fst (Allow l t k items) (limiter_key k) = Some (b\<lparr>bk_count := bk_count b + 1\<rparr>)"
  | (refused) b where "items (limiter_key k) = Some b" "t \<le> bk_resetAt b" "lm_limit l \<le> bk_count b" "\<not> snd (Allow l t k items)"
      "fst (Allow l t k items) = items"
proof (cases "items (limiter_key k)")
  case None
  then show ?thesis by (intro fresh) (simp_all add: Allow_def Let_def)
next
  case (Some b)
  show ?thesis
  proof (cases "bk_resetAt b < t")
    case True
    with Some show ?thesis by (intro fresh) (simp_all add: Allow_def Let_def)
  next
    case False
    show ?thesis
    proof (cases "lm_limit l \<le> bk_count b")
      case True
      with Some False show ?thesis by (intro refused [of b]) (simp_all add: Allow_def Let_def)
    next
      case False
      with Some \<open>\<not> bk_resetAt b < t\<close> show ?thesis by (intro counted [of b]) (simp_all add: Allow_def Let_def)
    qed
  qed
qed

lemma Cleanup_other: "limiter_Cleanup t items k = items k \<or> (\<exists>b. items k = Some b \<and> bk_resetAt b < t \<and> limiter_Cleanup t items k = None)"
  by (simp add: limiter_Cleanup_def split: option.split)

text \<open>Nothing that happens after an interval counts in it.\<close>

lemma admitted_times: "c \<in> set (admitted l ops items) \<Longrightarrow> fst c \<in> op_time ` set ops"
  by (induction l ops items rule: admitted.induct) (auto split: prod.splits if_splits)

lemma admitted_later:
  assumes "\<And>op. op \<in> set ops \<Longrightarrow> e < op_time op"
  shows "filter (within s e k) (admitted l ops items) = []"
  using assms admitted_times by (fastforce simp: filter_empty_conv within_def)

text \<open>An operation that has read the clock may wait for the lock while later ones overtake it: \<open>skew\<close> is the longest
  time by which an operation finds the clock of an earlier one ahead of its own.\<close>

definition in_order :: "int \<Rightarrow> limiter_op list \<Rightarrow> bool" where
  "in_order skew ops \<longleftrightarrow> sorted_wrt (\<lambda>t u. t \<le> u + skew) (map op_time ops)"

lemma in_order_Cons:
  "in_order skew (op # ops) \<longleftrightarrow> (\<forall>x \<in> set ops. op_time op \<le> op_time x + skew) \<and> in_order skew ops"
  by (simp add: in_order_def)

definition room :: "limiter \<Rightarrow> bucket option \<Rightarrow> int" where
  "room l b = (case b of None \<Rightarrow> 0 | Some b \<Rightarrow> max 0 (lm_limit l - bk_count b))"

text \<open>The calls of the key that are allowed in the interval, and a bound of them from a time on.\<close>

definition counted_in :: "int \<Rightarrow> int \<Rightarrow> bytes \<Rightarrow> limiter \<Rightarrow> limiter_op list \<Rightarrow> buckets \<Rightarrow> int" where
  "counted_in s e k l ops items = int (length (filter (within s e k) (admitted l ops items)))"

lemma counted_in_simps:
  "counted_in s e k l [] items = 0"
  "counted_in s e k l (Try t key # ops) items =
     (if snd (Allow l t key items) \<and> within s e k (t, limiter_key key) then 1 else 0) +
     counted_in s e k l ops (fst (Allow l t key items))"
  "counted_in s e k l (Sweep t # ops) items = counted_in s e k l ops (limiter_Cleanup t items)"
  by (simp_all add: counted_in_def case_prod_beta)

definition at_most :: "int \<Rightarrow> int \<Rightarrow> bytes \<Rightarrow> limiter \<Rightarrow> int \<Rightarrow> int \<Rightarrow> int \<Rightarrow> bool" where
  "at_most s e k l skew start n \<longleftrightarrow>
     (\<forall>ops items. in_order skew ops \<longrightarrow> (\<forall>op \<in> set ops. start \<le> op_time op) \<longrightarrow>
        counted_in s e k l ops items \<le> room l (items k) + n)"

text \<open>While a window is open it admits what it has left; the operation that finds it over is later than its end, so
  that what follows is not much earlier.\<close>

lemma open_window:
  assumes "at_most s e k l skew (bk_resetAt b - skew + 1) n" and "0 \<le> skew" and "in_order skew ops"
    and "items k = Some b" and "bk_count b \<le> lm_limit l"
  shows "counted_in s e k l ops items \<le> lm_limit l - bk_count b + n"
  using assms
proof (induction ops arbitrary: items b)
  case Nil
  from Nil.prems(1) have "counted_in s e k l [] Map.empty \<le> room l (Map.empty k) + n"
    unfolding at_most_def by (force simp: in_order_def)
  with Nil.prems(5) show ?case by (simp add: counted_in_simps room_def)
next
  case (Cons op ops)
  have tail: "in_order skew ops" using Cons.prems(3) by (simp add: in_order_Cons)
  show ?case
  proof (cases "bk_resetAt b < op_time op")
    case True
    with Cons.prems(2,3) have "\<forall>x \<in> set (op # ops). bk_resetAt b - skew + 1 \<le> op_time x"
      by (fastforce simp: in_order_Cons)
    with Cons.prems(1,3) have "counted_in s e k l (op # ops) items \<le> room l (items k) + n"
      unfolding at_most_def by blast
    with Cons.prems(4,5) show ?thesis by (simp add: room_def)
  next
    case early: False
    show ?thesis
    proof (cases op)
      case (Try t key)
      show ?thesis
      proof (cases "limiter_key key = k")
        case False
        with Cons.IH [OF Cons.prems(1,2) tail _ Cons.prems(5), of "fst (Allow l t key items)"] Cons.prems(4)
        show ?thesis by (simp add: Try counted_in_simps Allow_other within_def)
      next
        case True
        show ?thesis
          using Allow_cases [of l t key items]
        proof cases
          case fresh
          with Cons.prems(4) early True show ?thesis by (force simp: Try)
        next
          case (counted b')
          with Cons.prems(4) True have b: "b' = b" by simp
          with counted True Cons.IH [of "b\<lparr>bk_count := bk_count b + 1\<rparr>" "fst (Allow l t key items)"] Cons.prems tail
          show ?thesis by (simp add: Try counted_in_simps)
        next
          case (refused b')
          with Cons.IH [OF Cons.prems(1,2) tail, of items] Cons.prems show ?thesis by (simp add: Try counted_in_simps)
        qed
      qed
    next
      case (Sweep t)
      have "limiter_Cleanup t items k = Some b"
        using Cons.prems(4) early Sweep by (simp add: limiter_Cleanup_def)
      with Cons.IH [OF Cons.prems(1,2) tail, of "limiter_Cleanup t items"] Cons.prems show ?thesis
        by (simp add: Sweep counted_in_simps)
    qed
  qed
qed

lemma at_most_later: "at_most s e k l skew start n \<Longrightarrow> start \<le> start' \<Longrightarrow> at_most s e k l skew start' n"
  unfolding at_most_def by (meson order_trans)

text \<open>So one window earlier there is one limit more.\<close>

lemma one_window_more:
  assumes "at_most s e k l skew (start + lm_window l - skew + 1) n" and "0 \<le> skew" and "1 \<le> lm_limit l" and "0 \<le> n"
  shows "at_most s e k l skew start (n + lm_limit l)"
  unfolding at_most_def
proof (intro allI impI)
  fix ops items
  assume "in_order skew ops" and "\<forall>op \<in> set ops. start \<le> op_time op"
  then show "counted_in s e k l ops items \<le> room l (items k) + (n + lm_limit l)"
  proof (induction ops arbitrary: items)
    case Nil
    with assms(3,4) show ?case by (simp add: counted_in_simps room_def split: option.split)
  next
    case (Cons op ops)
    then have later: "in_order skew ops" "\<forall>x \<in> set ops. start \<le> op_time x" "start \<le> op_time op"
      by (simp_all add: in_order_Cons)
    note IH = Cons.IH [OF later(1,2)]
    show ?case
    proof (cases op)
      case (Try t key)
      show ?thesis
      proof (cases "limiter_key key = k")
        case False
        with IH [of "fst (Allow l t key items)"] show ?thesis
          by (simp add: Try counted_in_simps Allow_other within_def)
      next
        case True
        show ?thesis
          using Allow_cases [of l t key items]
        proof cases
          case fresh
          have "at_most s e k l skew (t + lm_window l - skew + 1) n"
            by (rule at_most_later [OF assms(1)]) (use later(3) Try in simp)
          with open_window [where b = "\<lparr>bk_count = 1, bk_resetAt = t + lm_window l\<rparr>" and items = "fst (Allow l t key items)",
              OF _ assms(2) later(1)] fresh True assms(3)
          have "counted_in s e k l ops (fst (Allow l t key items)) \<le> lm_limit l - 1 + n" by simp
          moreover have "0 \<le> room l (items k)" by (simp add: room_def split: option.split)
          ultimately show ?thesis using fresh(1) by (simp add: Try counted_in_simps)
        next
          case (counted b)
          with True IH [of "fst (Allow l t key items)"] show ?thesis
            by (auto simp: Try counted_in_simps room_def)
        next
          case (refused b)
          with IH [of items] show ?thesis by (simp add: Try counted_in_simps)
        qed
      qed
    next
      case (Sweep t)
      have "room l (limiter_Cleanup t items k) \<le> room l (items k)"
        using Cleanup_other [of t items k] by (auto simp: room_def)
      with IH [of "limiter_Cleanup t items"] show ?thesis by (simp add: Sweep counted_in_simps)
    qed
  qed
qed

lemma windows_more:
  assumes "e < start + int m * (lm_window l - skew + 1)" and "0 \<le> skew" and "1 \<le> lm_limit l"
  shows "at_most s e k l skew start (int m * lm_limit l)"
  using assms(1)
proof (induction m arbitrary: start)
  case 0
  show ?case
    unfolding at_most_def
  proof (intro allI impI)
    fix ops items
    assume "\<forall>op \<in> set ops. start \<le> op_time op"
    with 0 have "filter (within s e k) (admitted l ops items) = []" by (intro admitted_later) force
    then show "counted_in s e k l ops items \<le> room l (items k) + int 0 * lm_limit l"
      by (simp add: counted_in_def room_def split: option.split)
  qed
next
  case (Suc m)
  have "e < (start + lm_window l - skew + 1) + int m * (lm_window l - skew + 1)"
    using Suc.prems by (simp add: algebra_simps)
  from one_window_more [OF Suc.IH [OF this] assms(2,3)] assms(3) show ?case by (simp add: algebra_simps)
qed

definition counted_ok :: "buckets \<Rightarrow> bool" where
  "counted_ok items \<longleftrightarrow> (\<forall>k b. items k = Some b \<longrightarrow> 1 \<le> bk_count b)"

lemma Allow_ok: "counted_ok items \<Longrightarrow> counted_ok (fst (Allow l t k items))"
  by (fastforce simp: counted_ok_def Allow_def Let_def split: option.split)

lemma sweep_ok: "counted_ok items \<Longrightarrow> counted_ok (limiter_Cleanup t items)"
  by (auto simp: counted_ok_def limiter_Cleanup_def split: option.splits if_splits)

lemma room_bound:
  assumes "counted_ok items" and "1 \<le> lm_limit l"
  shows "room l (items k) \<le> lm_limit l - 1"
proof (cases "items k")
  case (Some b)
  with assms have "1 \<le> bk_count b" "1 \<le> lm_limit l" by (simp_all add: counted_ok_def)
  with Some show ?thesis by (simp add: room_def)
qed (use assms(2) in \<open>simp add: room_def\<close>)

lemma admitted_bounded:
  assumes "e < s - skew + int m * (lm_window l - skew + 1)" and "0 \<le> skew" and "1 \<le> lm_limit l"
    and "in_order skew ops" and "counted_ok items"
  shows "counted_in s e k l ops items < (int m + 1) * lm_limit l"
  using assms(4,5)
proof (induction ops arbitrary: items)
  case Nil
  from assms(3) have "0 < (int m + 1) * lm_limit l" by simp
  then show ?case by (simp only: counted_in_simps)
next
  case (Cons op ops)
  show ?case
  proof (cases "s \<le> op_time op")
    case True
    with Cons.prems(1) assms(2) have "\<forall>x \<in> set (op # ops). s - skew \<le> op_time x"
      by (fastforce simp: in_order_Cons)
    with windows_more [OF assms(1-3), of s k] Cons.prems(1)
    have "counted_in s e k l (op # ops) items \<le> room l (items k) + int m * lm_limit l" by (simp add: at_most_def)
    with room_bound [OF Cons.prems(2) assms(3), of k] show ?thesis by (simp add: algebra_simps)
  next
    case False
    have tail: "in_order skew ops" using Cons.prems(1) by (simp add: in_order_Cons)
    show ?thesis
    proof (cases op)
      case (Try t key)
      with False Cons.IH [OF tail Allow_ok [OF Cons.prems(2), where t = t and k = key and l = l]] show ?thesis
        by (simp add: counted_in_simps within_def)
    next
      case (Sweep t)
      with Cons.IH [OF tail sweep_ok [OF Cons.prems(2), where t = t]] show ?thesis by (simp add: counted_in_simps)
    qed
  qed
qed

text \<open>The calls of one key in one window: the first \<open>lm_limit\<close> of them are allowed, the rest refused.\<close>

lemma admitted_window:
  assumes "items (limiter_key k) = Some b" and "\<And>t. t \<in> set ts \<Longrightarrow> t \<le> bk_resetAt b" and "bk_count b \<le> lm_limit l"
  shows "admitted l (map (\<lambda>t. Try t k) ts) items = map (\<lambda>t. (t, limiter_key k)) (take (nat (lm_limit l - bk_count b)) ts)"
  using assms
proof (induction ts arbitrary: items b)
  case (Cons t ts)
  show ?case
    using Allow_cases [of l t k items]
  proof cases
    case fresh
    with Cons.prems show ?thesis by force
  next
    case (counted b')
    with Cons.prems(1) have b: "b' = b" by simp
    then have "nat (lm_limit l - bk_count b) = Suc (nat (lm_limit l - (bk_count b + 1)))" using counted(3) by simp
    with counted b Cons.IH [of "fst (Allow l t k items)" "b\<lparr>bk_count := bk_count b + 1\<rparr>"] Cons.prems
    show ?thesis by (simp add: case_prod_beta Let_def)
  next
    case (refused b')
    with Cons.prems(1) have "b' = b" by simp
    with refused Cons.IH [of items b] Cons.prems show ?thesis by (simp add: case_prod_beta Let_def)
  qed
qed simp

text \<open>C20: \<open>Allow\<close> reads the clock before it takes the lock, so that its calls, which are listed in the order of the lock, may
  find the clock of an earlier one ahead of their own by a skew. As long as the skew stays below a third of the window,
  fewer than three times the limit of calls are allowed for one key in any interval as long as a window, whatever other
  keys do and however often the limiter is swept; with no skew, fewer than twice the limit. And of the calls of a
  key that falls within a window that begins with the first of them, exactly the first ones up to the limit are admitted.\<close>

theorem limit_bounded:
  assumes "1 \<le> lm_limit l" and "0 \<le> skew" and "3 * skew \<le> lm_window l" and "in_order skew ops"
    and "\<forall>u \<in> set ts. u \<le> t + lm_window l"
  shows "int (length (filter (within s (s + lm_window l) (limiter_key k)) (admitted l ops Map.empty))) <
      (if skew = 0 then 2 else 3) * lm_limit l \<and>
    admitted l (map (\<lambda>u. Try u k) (t # ts)) Map.empty =
      map (\<lambda>u. (u, limiter_key k)) (take (nat (lm_limit l)) (t # ts))"
proof
  have ok: "counted_ok Map.empty" by (simp add: counted_ok_def)
  show "int (length (filter (within s (s + lm_window l) (limiter_key k)) (admitted l ops Map.empty))) <
      (if skew = 0 then 2 else 3) * lm_limit l"
  proof (cases "skew = 0")
    case True
    with admitted_bounded [where m = 1 and e = "s + lm_window l" and s = s, OF _ assms(2,1,4) ok] show ?thesis
      by (simp add: counted_in_def)
  next
    case False
    with assms(3) admitted_bounded [where m = 2 and e = "s + lm_window l" and s = s, OF _ assms(2,1,4) ok] show ?thesis
      by (simp add: counted_in_def)
  qed
  let ?b = "\<lparr>bk_count = 1, bk_resetAt = t + lm_window l\<rparr>"
  have "nat (lm_limit l) = Suc (nat (lm_limit l - 1))" using assms(1) by simp
  with admitted_window [where k = k and b = ?b and ts = ts and l = l and items = "[limiter_key k \<mapsto> ?b]"] assms(1,5)
  show "admitted l (map (\<lambda>u. Try u k) (t # ts)) Map.empty =
      map (\<lambda>u. (u, limiter_key k)) (take (nat (lm_limit l)) (t # ts))"
    by (simp add: Allow_def)
qed

theorem limit_bounded_witness:
  "int (length (filter (within 0 60 (limiter_key [65]))
     (admitted \<lparr>lm_limit = 2, lm_window = 60\<rparr> (map (\<lambda>t. Try t [65]) [0, 60, 61, 61, 122, 120]) Map.empty))) < 6"
  using limit_bounded [of "\<lparr>lm_limit = 2, lm_window = 60\<rparr>" 2 "map (\<lambda>t. Try t [65]) [0, 60, 61, 61, 122, 120]" "[]" 0 0 "[65]"]
  by (simp add: in_order_def)

text \<open>The third window's worth is real: the last of these calls read the clock before the one in front of it.\<close>

lemma limit_overtaken:
  "admitted \<lparr>lm_limit = 2, lm_window = 60\<rparr> (map (\<lambda>t. Try t [65]) [0, 60, 61, 61, 122, 120]) Map.empty =
     map (\<lambda>t. (t, [65])) [0, 60, 61, 61, 122, 120]"
  by (simp add: Allow_def limiter_key_def)

section \<open>A client that chooses its own key\<close>

lemma takeWhile_until: "c \<notin> set h \<Longrightarrow> takeWhile (\<lambda>x. x \<noteq> c) (h @ c # t) = h"
  by (induction h) auto

lemma clientIP_forwarded:
  assumes "h \<noteq> []" and "byte_of CHR '','' \<notin> set h" and "trim_bytes h = h"
    and "sr_header r ''X-Forwarded-For'' = h"
  shows "clientIP peer (through_proxy address r) = h"
proof -
  have "forwarded_for h address = h @ byte_of CHR '','' # ascii '' '' @ address"
    using assms(1) by (simp add: forwarded_for_def ascii_def byte_of_def)
  with assms takeWhile_until [OF assms(2)] show ?thesis
    by (simp add: clientIP_def through_proxy_def Let_def)
qed

lemma b64_inj: "b64_encode URLAlphabet s = b64_encode URLAlphabet t \<Longrightarrow> s = t"
  using b64_decode_encode [OF good_alphabets(2)] by (metis option.inject)

lemma admitted_fresh:
  assumes "distinct (map limiter_key ks)" and "\<And>k. k \<in> set ks \<Longrightarrow> items (limiter_key k) = None" and "length ts = length ks"
  shows "map fst (admitted l (map2 Try ts ks) items) = ts"
  using assms
proof (induction ks arbitrary: ts items)
  case (Cons k ks)
  then obtain t ts' where ts: "ts = t # ts'" by (cases ts) auto
  have "fst (Allow l t k items) (limiter_key x) = None" if "x \<in> set ks" for x
    using Cons.prems(1,2) that Allow_other [of k "limiter_key x" l t items] by force
  with Cons.IH [of "fst (Allow l t k items)" ts'] Cons.prems show ?case
    by (simp add: ts case_prod_beta Let_def) (simp add: Allow_def Let_def)
qed simp

text \<open>C21: Behind the proxy that the repository deploys, the limits that the server keeps by address bind nobody who does not
  want to be bound. The proxy appends the address of the client to the header that the client has sent, the server takes the
  first entry: with a different made-up address in each request one client is never limited by the server, whatever the
  limit. (The proxy has limits of its own, by the true address.)\<close>

theorem limit_evaded:
  assumes "\<forall>h \<in> set hs. h \<noteq> [] \<and> byte_of CHR '','' \<notin> set h \<and> trim_bytes h = h"
    and "distinct (map (\<lambda>h. take 12 (mac pepper h)) hs)" and "\<forall>h. mac pepper h \<noteq> []"
    and "\<forall>h. sr_header (request h) ''X-Forwarded-For'' = h" and "length ts = length hs"
  shows "map fst (admitted l (map2 Try ts
    (map (\<lambda>h. IPHash mac pepper peer (through_proxy address (request h)) @ login) hs)) Map.empty) = ts"
proof (rule admitted_fresh)
  have key: "IPHash mac pepper peer (through_proxy address (request h)) = b64_encode URLAlphabet (take 12 (mac pepper h))"
    if "h \<in> set hs" for h
    using that assms(1,4) clientIP_forwarded [of h "request h" peer address] by (simp add: IPHash_def)
  have "distinct (map (\<lambda>h. b64_encode URLAlphabet (take 12 (mac pepper h)) @ login) hs)"
    using assms(2) by (auto simp: distinct_map inj_on_def dest: b64_inj)
  moreover have "limiter_key (b64_encode URLAlphabet (take 12 (mac pepper h)) @ login) = b64_encode URLAlphabet (take 12 (mac pepper h)) @ login" for h
    using assms(3) by (simp add: limiter_key_def)
  ultimately show "distinct (map limiter_key (map (\<lambda>h. IPHash mac pepper peer (through_proxy address (request h)) @ login) hs))"
    by (simp add: comp_def key cong: map_cong)
qed (simp_all add: assms(5))

definition spoofed :: "bytes list" where
  "spoofed = [ascii ''10.0.0.1'', ascii ''10.0.0.2'', ascii ''10.0.0.3'']"

definition spoofed_request :: "bytes \<Rightarrow> server_request" where
  "spoofed_request h = (sample_call ''POST'' [] None)\<lparr>sr_header := (\<lambda>name. if name = ''X-Forwarded-For'' then h else [])\<rparr>"

theorem limit_evaded_witness:
  "map fst (admitted \<lparr>lm_limit = 1, lm_window = 60\<rparr> (map2 Try [0, 1, 2]
     (map (\<lambda>h. IPHash sample_mac [] [7] (through_proxy [8] (spoofed_request h)) @ ascii '':admin'') spoofed)) Map.empty) = [0, 1, 2]"
proof (rule limit_evaded)
  show "\<forall>h \<in> set spoofed. h \<noteq> [] \<and> byte_of CHR '','' \<notin> set h \<and> trim_bytes h = h" by code_simp
  show "distinct (map (\<lambda>h. take 12 (sample_mac [] h)) spoofed)" by code_simp
qed (simp_all add: spoofed_request_def spoofed_def)

end
