(* ===== verification/Account.thy ===== *)
theory Account
  imports RateLimit Management Session
begin

text \<open>
  Logging in and out and changing a password: the handlers of \<^verbatim>\<open>internal/http/server.go\<close> behind the login form and
  the account page, with \<^verbatim>\<open>Authenticate\<close>, \<^verbatim>\<open>UserForLogin\<close> and \<^verbatim>\<open>ValidateUserPassword\<close> of \<^verbatim>\<open>internal/auth/users.go\<close>.
  A handler is one run over the tables of users and sessions. \<^verbatim>\<open>strings.ToLower\<close> and the \<^verbatim>\<open>lower\<close> of the database
  follow the tables of Unicode and are arguments. Metrics and logs are left out; a redirect is its status.
\<close>

section \<open>Users\<close>

record account_server =
  ae_server :: server
  ae_ip_pepper :: bytes
  ae_lower :: "bytes \<Rightarrow> bytes"
  ae_db_lower :: "bytes \<Rightarrow> bytes"
  ae_forms :: json_forms

definition NormalizeLogin :: "account_server \<Rightarrow> bytes \<Rightarrow> bytes" where
  "NormalizeLogin ae value = ae_lower ae (trim_bytes value)"

definition login_matches :: "account_server \<Rightarrow> bytes \<Rightarrow> user_row \<Rightarrow> bool" where
  "login_matches ae login u \<longleftrightarrow>
     ae_db_lower ae (us_username u) = NormalizeLogin ae login \<or> ae_db_lower ae (us_email u) = NormalizeLogin ae login"

text \<open>The first of the rows that the database returns, in an order it does not promise: \<open>pick\<close> decides.\<close>

definition UserForLogin :: "account_server \<Rightarrow> nat \<Rightarrow> bytes \<Rightarrow> user_db \<Rightarrow> user_row option" where
  "UserForLogin ae pick login db =
     (let rows = filter (login_matches ae login) (ub_users db)
      in if rows = [] then None else Some (rows ! (pick mod length rows)))"

datatype authentication = LoginError | LoginRefused | LoginPanic | LoginGranted user_row

definition Authenticate :: "account_server \<Rightarrow> db_reply \<Rightarrow> nat \<Rightarrow> bytes \<Rightarrow> bytes \<Rightarrow> user_db \<Rightarrow> authentication" where
  "Authenticate ae reply pick login password db =
     (case snd (db_call reply (db, UserForLogin ae pick login db) db) of
        None \<Rightarrow> LoginError
      | Some None \<Rightarrow> LoginRefused
      | Some (Some u) \<Rightarrow>
          (if us_status u \<noteq> ''active'' then LoginRefused
           else
             (case VerifyPassword (IDKey (sv_env (ae_server ae))) password (us_password_hash u) of
                None \<Rightarrow> LoginPanic
              | Some False \<Rightarrow> LoginRefused
              | Some True \<Rightarrow> LoginGranted u)))"

text \<open>\<^verbatim>\<open>len([]rune(s))\<close> of valid UTF-8: the bytes that do not continue a character.\<close>

definition rune_count :: "bytes \<Rightarrow> nat" where
  "rune_count s = length (filter (\<lambda>c. \<not> (0x80 \<le> unat c \<and> unat c < 0xC0)) s)"

definition ValidateUserPassword :: "account_server \<Rightarrow> bytes \<Rightarrow> bool \<Rightarrow> bool" where
  "ValidateUserPassword ae password production =
     (let trimmed = trim_bytes password
      in if trimmed = [] then False
         else if production \<and> rune_count trimmed < 12 then False
         else if production \<and> ae_lower ae trimmed \<in> set (map ascii [''change-me'', ''change-me-now'', ''password'',
                ''password123'', ''admin'', ''admin123'', ''secureshare'']) then False
         else True)"

section \<open>The handlers\<close>

text \<open>The \<^verbatim>\<open>Set-Cookie\<close> headers of an answer, and what a browser makes of them.\<close>

datatype set_cookie = ClearCookie | SetCookie bytes

fun browser_cookie :: "set_cookie list \<Rightarrow> bytes option \<Rightarrow> bytes option" where
  "browser_cookie [] cookie = cookie"
| "browser_cookie (ClearCookie # cs) cookie = browser_cookie cs None"
| "browser_cookie (SetCookie v # cs) cookie = browser_cookie cs (Some v)"

text \<open>What the surroundings decide during one request.\<close>

record account_oracle =
  wo_auth :: auth_oracle
  wo_now :: int
  wo_form_ok :: bool
  wo_lookup_reply :: db_reply
  wo_pick :: nat
  wo_salt :: "bytes option"
  wo_set_reply :: db_reply
  wo_others_reply :: db_reply
  wo_destroy_reply :: db_reply
  wo_create :: session_oracle
  wo_touch_reply :: db_reply

definition account_audit :: "bytes \<Rightarrow> string \<Rightarrow> string \<Rightarrow> audit_event" where
  "account_audit actor t r = \<lparr>ae_delivery = None, ae_actor = actor, ae_type = t, ae_result = r\<rparr>"

text \<open>\<^verbatim>\<open>Destroy\<close> and \<^verbatim>\<open>CreateForUser\<close> with their cookies.\<close>

definition destroy_session :: "account_server \<Rightarrow> account_oracle \<Rightarrow> server_request \<Rightarrow> user_db \<Rightarrow> user_db" where
  "destroy_session ae w r = Destroy (sv_sessions (ae_server ae)) (wo_destroy_reply w) (wo_now w) (sr_cookie r)"

definition create_session ::
  "account_server \<Rightarrow> account_oracle \<Rightarrow> user_row \<Rightarrow> user_db \<Rightarrow> user_db \<times> set_cookie list \<times> session option" where
  "create_session ae w user db =
     (case CreateForUser (sv_sessions (ae_server ae)) (wo_create w) user db of
        (db', None) \<Rightarrow> (db', [], None)
      | (db', Some s) \<Rightarrow> (db', [SetCookie (sign (sv_sessions (ae_server ae)) (ss_ID s))], Some s))"

text \<open>The login and the password of a request, and whether it is JSON.\<close>

definition login_fields :: "account_server \<Rightarrow> account_oracle \<Rightarrow> server_request \<Rightarrow> fetch_result + bool \<times> bytes \<times> bytes" where
  "login_fields ae w r =
     (if contains (sr_header r ''Content-Type'') (ascii ''application/json'') then
        (case decode_body (ae_server ae) [''login'', ''username'', ''email'', ''password''] 2048 r of
           Inl answer \<Rightarrow> Inl answer
         | Inr m \<Rightarrow>
             (let login = (if m ''login'' \<noteq> [] then m ''login''
                           else if m ''username'' \<noteq> [] then m ''username'' else m ''email'')
              in Inr (True, utf8_bytes login, utf8_bytes (m ''password''))))
      else if \<not> wo_form_ok w then Inl (writeError ''INVALID_REQUEST'' ''Invalid request.'' 400)
      else
        (let login = (if sr_form r ''login'' \<noteq> [] then sr_form r ''login'' else sr_form r ''username'')
         in Inr (False, login, sr_form r ''password'')))"

definition login_reply :: "account_server \<Rightarrow> bool \<Rightarrow> user_row \<Rightarrow> session \<Rightarrow> fetch_result" where
  "login_reply ae isJSON user s =
     (if \<not> isJSON then Answer 303 None
      else Answer 200 (Some (obj
        [(''actor_id'', JStr (jf_text (ae_forms ae) (us_username user))),
         (''csrf_token'', JStr (text_of_bytes (CSRFToken (sv_sessions (ae_server ae)) (ss_ID s)))),
         (''ok'', JBool True), (''role'', JStr (js (us_role user)))])))"

text \<open>From the user that is let in to the answer.\<close>

definition login_granted ::
  "account_server \<Rightarrow> account_oracle \<Rightarrow> bool \<Rightarrow> user_row \<Rightarrow> server_request \<Rightarrow> user_db \<Rightarrow>
   user_db \<times> set_cookie list \<times> fetch_result \<times> audit_event list" where
  "login_granted ae w isJSON user r db =
     (let (db1, cleared) = (if sr_cookie r \<noteq> None then (destroy_session ae w r db, [ClearCookie]) else (db, []))
      in case create_session ae w user db1 of
           (db2, cookies, None) \<Rightarrow>
             (db2, cleared @ cookies, writeError ''INTERNAL_ERROR'' ''Internal error.'' 500, [])
         | (db2, cookies, Some s) \<Rightarrow>
             (fst (db_call (wo_touch_reply w)
                (update_user (wo_now w) (us_id user) (\<lambda>u. u\<lparr>us_last_login_at := Some (wo_now w)\<rparr>) db2, ()) db2),
              cleared @ cookies, login_reply ae isJSON user s,
              [account_audit (us_username user) ''auth.login_succeeded'' ''success'']))"

definition login_key :: "account_server \<Rightarrow> bytes \<Rightarrow> server_request \<Rightarrow> bytes \<Rightarrow> bytes" where
  "login_key ae peer r login =
     IPHash (hmac_sha256 (sv_env (ae_server ae))) (ae_ip_pepper ae) peer r @ ascii '':'' @ NormalizeLogin ae login"

definition handleLogin ::
  "account_server \<Rightarrow> account_oracle \<Rightarrow> bytes \<Rightarrow> server_request \<Rightarrow> buckets \<Rightarrow> user_db \<Rightarrow>
   buckets \<times> user_db \<times> set_cookie list \<times> fetch_result \<times> audit_event list" where
  "handleLogin ae w peer r items db =
     (if sr_method r \<noteq> ''POST'' then (items, db, [], writeError ''INVALID_REQUEST'' ''Method not allowed.'' 405, [])
      else
        (case login_fields ae w r of
           Inl answer \<Rightarrow> (items, db, [], answer, [])
         | Inr (isJSON, login, password) \<Rightarrow>
             (let (items', ok) = Allow Login_limiter (wo_now w) (login_key ae peer r login) items
              in if \<not> ok
                 then (items', db, [], writeError ''RATE_LIMITED'' ''Too many attempts. Try again later.'' 429, [])
                 else
                   (case Authenticate ae (wo_lookup_reply w) (wo_pick w) login password db of
                      LoginError \<Rightarrow>
                        (items', db, [], writeError ''DEPENDENCY_UNAVAILABLE'' ''Dependency unavailable.'' 503, [])
                    | LoginPanic \<Rightarrow> (items', db, [], Rejected, [])
                    | LoginRefused \<Rightarrow>
                        (items', db, [], writeError ''UNAUTHORIZED'' ''Unauthorized.'' 401,
                         [account_audit [] ''auth.login_failed'' ''unauthorized''])
                    | LoginGranted user \<Rightarrow> (items', login_granted ae w isJSON user r db)))))"

text \<open>The legacy key logs nobody out.\<close>

definition handleLogout ::
  "account_server \<Rightarrow> account_oracle \<Rightarrow> server_request \<Rightarrow> user_db \<Rightarrow>
   user_db \<times> set_cookie list \<times> fetch_result \<times> audit_event list" where
  "handleLogout ae w r db =
     (let sv = ae_server ae; ok = Answer 200 (Some (obj [(''ok'', JBool True)]))
      in if sr_method r \<noteq> ''POST'' then (db, [], writeError ''INVALID_REQUEST'' ''Method not allowed.'' 405, [])
         else if key_accepted sv r then (db, [], ok, [])
         else
           (case FromRequest (sv_sessions sv) (ao_session_reply (wo_auth w)) (ao_now (wo_auth w)) (sr_cookie r) db of
              (db1, None) \<Rightarrow> (db1, [], writeError ''UNAUTHORIZED'' ''Unauthorized.'' 401, [])
            | (db1, Some s) \<Rightarrow>
                (if \<not> ValidCSRF (sv_sessions sv) s (csrfTokenFromRequest r)
                 then (db1, [], writeError ''FORBIDDEN'' ''Forbidden.'' 403, [])
                 else (destroy_session ae w r db1, [ClearCookie], ok,
                       [account_audit (ss_Username s) ''auth.logout'' ''success'']))))"

text \<open>The part of \<^verbatim>\<open>handleChangePassword\<close> after the checks; a failure of the revocation is only logged.\<close>

definition password_changed ::
  "account_server \<Rightarrow> account_oracle \<Rightarrow> actor \<Rightarrow> user_row \<Rightarrow> bytes \<Rightarrow> server_request \<Rightarrow> user_db \<Rightarrow>
   user_db \<times> set_cookie list \<times> fetch_result \<times> audit_event list" where
  "password_changed ae w a user password r db =
     (let m = sv_sessions (ae_server ae);
          (db1, stored) = SetPassword (IDKey (sv_env (ae_server ae))) (wo_set_reply w) (wo_now w) (wo_salt w)
             (at_UserID a) password False db
      in if \<not> stored then (db1, [], writeError ''INTERNAL_ERROR'' ''Internal error.'' 500, [])
         else
           (let (db2, _) = RevokeOtherSessions m (wo_others_reply w) (wo_now w) (at_Token a) (at_UserID a) db1;
                db3 = destroy_session ae w r db2
            in case create_session ae w user db3 of
                 (db4, cookies, None) \<Rightarrow>
                   (db4, ClearCookie # cookies, writeError ''INTERNAL_ERROR'' ''Internal error.'' 500, [])
               | (db4, cookies, Some s) \<Rightarrow>
                   (db4, ClearCookie # cookies,
                    Answer 200 (Some (obj [(''csrf_token'', JStr (text_of_bytes (CSRFToken m (ss_ID s)))), (''ok'', JBool True)])),
                    [account_audit (at_Username a) ''auth.password_changed'' ''success''])))"

definition handleChangePassword ::
  "account_server \<Rightarrow> account_oracle \<Rightarrow> server_request \<Rightarrow> auth_state \<Rightarrow>
   auth_state \<times> set_cookie list \<times> fetch_result \<times> audit_event list" where
  "handleChangePassword ae w r st =
     (let sv = ae_server ae
      in if sr_method r \<noteq> ''POST'' then (st, [], writeError ''INVALID_REQUEST'' ''Method not allowed.'' 405, [])
         else
           (case requireAPI sv (wo_auth w) ''account:manage'' r st of
              (st1, Inl answer) \<Rightarrow> (st1, [], answer, [])
            | (st1, Inr a) \<Rightarrow>
                (case decode_body sv [''current_password'', ''new_password''] 4096 r of
                   Inl answer \<Rightarrow> (st1, [], answer, [])
                 | Inr body \<Rightarrow>
                     (case Authenticate ae (wo_lookup_reply w) (wo_pick w) (at_Username a)
                             (utf8_bytes (body ''current_password'')) (as_db st1) of
                        LoginError \<Rightarrow>
                          (st1, [], writeError ''DEPENDENCY_UNAVAILABLE'' ''Dependency unavailable.'' 503, [])
                      | LoginPanic \<Rightarrow> (st1, [], Rejected, [])
                      | LoginRefused \<Rightarrow> (st1, [], writeError ''UNAUTHORIZED'' ''Unauthorized.'' 401, [])
                      | LoginGranted user \<Rightarrow>
                          (if us_id user \<noteq> at_UserID a
                           then (st1, [], writeError ''UNAUTHORIZED'' ''Unauthorized.'' 401, [])
                           else if \<not> ValidateUserPassword ae (utf8_bytes (body ''new_password''))
                                     (sv_app_env sv \<noteq> ''development'')
                           then (st1, [], writeError ''INVALID_REQUEST'' ''Invalid request.'' 400, [])
                           else
                             (let (db, cookies, answer, events) =
                                    password_changed ae w a user (utf8_bytes (body ''new_password'')) r (as_db st1)
                              in (st1\<lparr>as_db := db\<rparr>, cookies, answer, events)))))))"

definition handleRevokeOtherSessions ::
  "account_server \<Rightarrow> account_oracle \<Rightarrow> server_request \<Rightarrow> auth_state \<Rightarrow>
   auth_state \<times> fetch_result \<times> audit_event list" where
  "handleRevokeOtherSessions ae w r st =
     (let sv = ae_server ae
      in if sr_method r \<noteq> ''POST'' then (st, writeError ''INVALID_REQUEST'' ''Method not allowed.'' 405, [])
         else
           (case requireAPI sv (wo_auth w) ''account:manage'' r st of
              (st1, Inl answer) \<Rightarrow> (st1, answer, [])
            | (st1, Inr a) \<Rightarrow>
                (let (db, done) = RevokeOtherSessions (sv_sessions sv) (wo_others_reply w) (wo_now w) (at_Token a)
                        (at_UserID a) (as_db st1)
                 in if \<not> done then (st1\<lparr>as_db := db\<rparr>, writeError ''INTERNAL_ERROR'' ''Internal error.'' 500, [])
                    else (st1\<lparr>as_db := db\<rparr>, Answer 200 (Some (obj [(''ok'', JBool True)])),
                          [account_audit (at_Username a) ''session.revoked'' ''other_sessions'']))))"

section \<open>What the handlers keep\<close>

lemma login_granted_row:
  assumes "Authenticate ae reply pick login password db = LoginGranted u"
  shows "u \<in> set (ub_users db)" "us_status u = ''active''" "login_matches ae login u"
    "VerifyPassword (IDKey (sv_env (ae_server ae))) password (us_password_hash u) = Some True"
proof -
  from assms have found: "snd (db_call reply (db, UserForLogin ae pick login db) db) = Some (Some u)"
    and "us_status u = ''active''" "VerifyPassword (IDKey (sv_env (ae_server ae))) password (us_password_hash u) = Some True"
    by (auto simp: Authenticate_def split: option.splits if_splits bool.splits)
  then show "us_status u = ''active''" "VerifyPassword (IDKey (sv_env (ae_server ae))) password (us_password_hash u) = Some True"
    by simp_all
  let ?rows = "filter (login_matches ae login) (ub_users db)"
  from db_call_snd [OF found] have "?rows \<noteq> []" and u: "u = ?rows ! (pick mod length ?rows)"
    by (auto simp: UserForLogin_def Let_def split: if_splits)
  then have "pick mod length ?rows < length ?rows" by simp
  from nth_mem [OF this] u have "u \<in> set ?rows" by simp
  then show "u \<in> set (ub_users db)" "login_matches ae login u" by simp_all
qed

lemma create_session_some:
  assumes "create_session ae w user db = (db', cookies, Some s)"
  shows "CreateForUser (sv_sessions (ae_server ae)) (wo_create w) user db = (db', Some s)"
    "cookies = [SetCookie (sign (sv_sessions (ae_server ae)) (ss_ID s))]"
  using assms by (auto simp: create_session_def split: prod.splits option.splits)

lemma create_session_none: "create_session ae w user db = (db', cookies, None) \<Longrightarrow> cookies = []"
  by (auto simp: create_session_def split: prod.splits option.splits)

lemma created_stored:
  assumes "CreateForUser m w user db = (db', Some s)"
  shows "ss_UserID s = us_id user" "ub_users db' = ub_users db"
    "\<exists>n \<in> set (ub_sessions db'). sn_token_hash n = tokenHash m (ss_ID s) \<and> sn_user_id n = us_id user \<and> sn_revoked_at n = None"
proof -
  from CreateForUser_some [OF assms] obtain raw link where
    row: "insert_session (so_db_now w) link (us_id user) (tokenHash m (b64_encode URLAlphabet raw))
       (so_now w + sm_ttl m) (so_now w) db = (db', True)"
    and s: "s = session_of (b64_encode URLAlphabet raw) user link (so_now w + sm_ttl m) (so_now w)" .
  from row s show "ss_UserID s = us_id user" "ub_users db' = ub_users db"
    "\<exists>n \<in> set (ub_sessions db'). sn_token_hash n = tokenHash m (ss_ID s) \<and> sn_user_id n = us_id user \<and> sn_revoked_at n = None"
    by (auto simp: insert_session_def session_of_def split: if_splits)
qed

section \<open>Logging in\<close>

text \<open>An answer of 2xx to a JSON login: exactly then a cookie is set.\<close>

definition answered_ok :: "fetch_result \<Rightarrow> bool" where
  "answered_ok answer \<longleftrightarrow> (case answer of Rejected \<Rightarrow> False | Answer status b \<Rightarrow> resp_ok status)"

lemma answered_ok_error: "answered_ok (writeError code message status) = resp_ok status"
  by (simp add: answered_ok_def writeError_def)

lemma login_granted_outcome:
  assumes "login_granted ae w True user r db = (db', cookies, answer, events)"
  shows "answered_ok answer \<longleftrightarrow> (\<exists>v. SetCookie v \<in> set cookies)"
    and "SetCookie v \<in> set cookies \<Longrightarrow> browser_cookie cookies (sr_cookie r) = Some v \<and>
      (\<exists>n \<in> set (ub_sessions db'). sn_user_id n = us_id user \<and> sn_revoked_at n = None \<and>
        (\<exists>i. v = sign (sv_sessions (ae_server ae)) i \<and> sn_token_hash n = tokenHash (sv_sessions (ae_server ae)) i))"
proof -
  define db1 where "db1 = (if sr_cookie r \<noteq> None then destroy_session ae w r db else db)"
  define cleared where "cleared = (if sr_cookie r \<noteq> None then [ClearCookie] else [])"
  obtain db2 cs x where create: "create_session ae w user db1 = (db2, cs, x)" by (metis prod_cases3)
  have "(answered_ok answer \<longleftrightarrow> (\<exists>v. SetCookie v \<in> set cookies)) \<and>
    (SetCookie v \<in> set cookies \<longrightarrow> browser_cookie cookies (sr_cookie r) = Some v \<and>
      (\<exists>n \<in> set (ub_sessions db'). sn_user_id n = us_id user \<and> sn_revoked_at n = None \<and>
        (\<exists>i. v = sign (sv_sessions (ae_server ae)) i \<and> sn_token_hash n = tokenHash (sv_sessions (ae_server ae)) i)))"
  proof (cases x)
    case None
    with create create_session_none [of ae w user db1 db2 cs] have "cs = []" by simp
    with None create assms have "cookies = cleared" "answer = writeError ''INTERNAL_ERROR'' ''Internal error.'' 500"
      by (auto simp: login_granted_def db1_def cleared_def split: if_splits)
    then show ?thesis by (simp add: cleared_def answered_ok_error resp_ok_def)
  next
    case (Some s)
    note created = create_session_some [OF create [unfolded Some]]
    from Some create assms have cookies: "cookies = cleared @ cs" and answer: "answer = login_reply ae True user s"
      and db': "db' = fst (db_call (wo_touch_reply w)
        (update_user (wo_now w) (us_id user) (\<lambda>u. u\<lparr>us_last_login_at := Some (wo_now w)\<rparr>) db2, ()) db2)"
      by (auto simp: login_granted_def db1_def cleared_def split: if_splits)
    have "ub_sessions db' = ub_sessions db2"
      unfolding db' using db_call_either [of "wo_touch_reply w" "(update_user (wo_now w) (us_id user)
        (\<lambda>u. u\<lparr>us_last_login_at := Some (wo_now w)\<rparr>) db2, ())" db2] by (auto simp: update_user_def)
    moreover have "browser_cookie cookies (sr_cookie r) = Some (sign (sv_sessions (ae_server ae)) (ss_ID s))"
      by (simp add: cookies created(2) cleared_def)
    moreover have "SetCookie v \<in> set cookies \<longleftrightarrow> v = sign (sv_sessions (ae_server ae)) (ss_ID s)" for v
      by (auto simp: cookies created(2) cleared_def)
    ultimately show ?thesis
      using created_stored(3) [OF created(1)] by (auto simp: answer login_reply_def answered_ok_def resp_ok_def)
  qed
  then show "answered_ok answer \<longleftrightarrow> (\<exists>v. SetCookie v \<in> set cookies)"
    and "SetCookie v \<in> set cookies \<Longrightarrow> browser_cookie cookies (sr_cookie r) = Some v \<and>
      (\<exists>n \<in> set (ub_sessions db'). sn_user_id n = us_id user \<and> sn_revoked_at n = None \<and>
        (\<exists>i. v = sign (sv_sessions (ae_server ae)) i \<and> sn_token_hash n = tokenHash (sv_sessions (ae_server ae)) i))"
    by blast+
qed

lemma login_fields_page:
  assumes "login_submit p = (p1, Some q)" and "login_fields ae w (received cookie q) = Inr (isJSON, login, password)"
  shows "isJSON" "login = utf8_bytes (go_text (form_string (login_form p) ''login''))"
    "password = utf8_bytes (go_text (form_string (login_form p) ''password''))"
proof -
  from assms(1) have q: "q = \<lparr>rq_method = ''POST'', rq_url = js ''/api/v1/auth/login'', rq_headers = json_headers,
      rq_body = Some (obj [(''login'', JStr (form_string (login_form p) ''login'')),
        (''password'', JStr (form_string (login_form p) ''password''))])\<rparr>" by (simp add: login_submit_def)
  have "list_all (\<lambda>x. unat x < 0x80) (ascii ''application/json'')" by code_simp
  then have media: "sr_header (received cookie q) ''Content-Type'' = ascii ''application/json''"
    using utf8_ascii [of "ascii ''application/json''"] by (simp add: received_def q json_headers_def text_of_ascii)
  have json: "contains (ascii ''application/json'') (ascii ''application/json'')" by code_simp
  let ?names = "[''login'', ''username'', ''email'', ''password'']"
  have names: "member ?names (js ''login'') = Some ''login''" "member ?names (js ''password'') = Some ''password''"
    by (simp_all add: member_def)
  from assms(2) obtain m where m: "decode_body (ae_server ae) ?names 2048 (received cookie q) = Inr m"
    and fields: "isJSON" "login = utf8_bytes (if m ''login'' \<noteq> [] then m ''login''
      else if m ''username'' \<noteq> [] then m ''username'' else m ''email'')" "password = utf8_bytes (m ''password'')"
    by (auto simp: login_fields_def media json split: sum.splits)
  have "sr_body (received cookie q) = Some (obj [(''login'', JStr (form_string (login_form p) ''login'')),
      (''password'', JStr (form_string (login_form p) ''password''))])" by (simp add: received_def q)
  with m names have "m = ((\<lambda>_. [])(''login'' := go_text (form_string (login_form p) ''login''),
      ''password'' := go_text (form_string (login_form p) ''password'')))"
    by (auto simp: decode_body_def decodeJSON_def obj_def decode_string_def split: if_splits)
  with fields show "isJSON" "login = utf8_bytes (go_text (form_string (login_form p) ''login''))"
    "password = utf8_bytes (go_text (form_string (login_form p) ''password''))" by simp_all
qed

lemma login_page_leaves:
  assumes "login_submit p = (p1, Some q)"
  shows "window_actions (login_answer q answer p1) = window_actions p @ [Assign (js ''/admin'')] \<longleftrightarrow> answered_ok answer"
proof -
  from assms have "window_actions p1 = window_actions p"
    by (auto simp: login_submit_def login_loading_def set_login_error_def)
  then show ?thesis
    by (cases answer) (simp_all add: login_answer_def answered_ok_def login_loading_def set_login_error_def assign_location_def)
qed

text \<open>C8: The login form opens the administration pages exactly when the server has set a session cookie, and it sets one
  only for a user who is active, whose name or address is the one typed, lower case and trimmed, and whose password is the one
  typed; the cookie that the browser then holds is the one of a session of that user that is stored and
  not revoked.\<close>

theorem login_opens:
  assumes "login_submit p = (p1, Some q)"
    and "handleLogin ae w peer (received cookie q) items db = (items', db', cookies, answer, events)"
  shows "(window_actions (login_answer q answer p1) = window_actions p @ [Assign (js ''/admin'')] \<longleftrightarrow>
      (\<exists>v. SetCookie v \<in> set cookies)) \<and>
    (\<forall>v. SetCookie v \<in> set cookies \<longrightarrow> browser_cookie cookies cookie = Some v \<and>
      (\<exists>u \<in> set (ub_users db). us_status u = ''active'' \<and>
         login_matches ae (utf8_bytes (go_text (form_string (login_form p) ''login''))) u \<and>
         VerifyPassword (IDKey (sv_env (ae_server ae))) (utf8_bytes (go_text (form_string (login_form p) ''password'')))
           (us_password_hash u) = Some True \<and>
         (\<exists>n \<in> set (ub_sessions db'). sn_user_id n = us_id u \<and> sn_revoked_at n = None \<and>
            (\<exists>i. v = sign (sv_sessions (ae_server ae)) i \<and> sn_token_hash n = tokenHash (sv_sessions (ae_server ae)) i))))"
    (is "?A \<and> ?B")
proof -
  let ?r = "received cookie q"
  have r: "sr_method ?r = ''POST''" "sr_cookie ?r = cookie" using assms(1) by (auto simp: received_def login_submit_def)
  show ?thesis
  proof (cases "login_fields ae w ?r")
    case (Inl e)
    with assms(2) r have "cookies = []" "answer = e" by (simp_all add: handleLogin_def)
    moreover have "\<not> answered_ok e"
      using Inl decode_body_refused
      by (auto simp: login_fields_def answered_ok_def writeError_def resp_ok_def Let_def split: if_splits sum.splits fetch_result.splits)
    ultimately show ?thesis unfolding login_page_leaves [OF assms(1)] by simp
  next
    case (Inr f)
    obtain isJSON login password where f: "f = (isJSON, login, password)" by (metis prod_cases3)
    note typed = login_fields_page [OF assms(1) Inr [unfolded f]]
    obtain items1 ok where allow: "Allow Login_limiter (wo_now w) (login_key ae peer ?r login) items = (items1, ok)" by fastforce
    show ?thesis
    proof (cases "\<exists>u. ok \<and> Authenticate ae (wo_lookup_reply w) (wo_pick w) login password db = LoginGranted u")
      case True
      then obtain u where u: "ok" "Authenticate ae (wo_lookup_reply w) (wo_pick w) login password db = LoginGranted u" by blast
      with assms(2) r typed(1) have "login_granted ae w True u ?r db = (db', cookies, answer, events)"
        by (simp add: handleLogin_def Inr f allow)
      note outcome = login_granted_outcome [OF this]
      show ?thesis
        unfolding login_page_leaves [OF assms(1)] typed(2,3) [symmetric]
        using outcome login_granted_row [OF u(2)] r(2) by metis
    next
      case False
      with assms(2) r have "cookies = []" "\<not> answered_ok answer"
        by (auto simp: handleLogin_def Inr f allow answered_ok_error resp_ok_def answered_ok_def writeError_def split: authentication.splits if_splits)
      then show ?thesis unfolding login_page_leaves [OF assms(1)] by simp
    qed
  qed
qed

section \<open>Changing the password\<close>

lemma SetPassword_stored:
  assumes "SetPassword kdf reply now salt link password force db = (db', True)"
  obtains h where "HashPassword kdf salt password = Some h"
    "db' = update_user now link (\<lambda>u. u\<lparr>us_password_hash := h, us_password_changed_at := Some now,
       us_force_password_change := force\<rparr>) db"
  using assms by (auto simp: SetPassword_def split: option.splits prod.splits dest!: db_call_pair)

text \<open>A statement that is run revokes also when its answer is lost; one that is not run revokes nothing.\<close>

lemma others_over:
  assumes "session_is h u e db" and "h \<noteq> tokenHash m i" and "reply \<noteq> NotRun"
  shows "session_over h (fst (RevokeOtherSessions m reply now i u db))"
  using over_Others [OF assms(1,2)] assms(3) by (cases reply) (simp_all add: RevokeOtherSessions_def db_call_def)

lemma destroy_over:
  assumes "unsign m c = Some i" and "session_is (tokenHash m i) u e db" and "reply \<noteq> NotRun"
  shows "session_over (tokenHash m i) (Destroy m reply now (Some c) db)"
  using over_Revoke [OF assms(2)] assms(1,3) by (cases reply) (simp_all add: Destroy_def db_call_def)

definition unrevoked :: "bytes \<Rightarrow> user_db \<Rightarrow> bool" where
  "unrevoked h db \<longleftrightarrow> (\<exists>n \<in> set (ub_sessions db). sn_token_hash n = h \<and> sn_revoked_at n = None)"

lemma unrevoked_users [simp]: "unrevoked h (update_user now link f db) = unrevoked h db"
  by (simp add: unrevoked_def update_user_def)

lemma unrevoked_map:
  assumes "\<And>n. sn_token_hash (f n) = sn_token_hash n"
    and "\<And>n. sn_token_hash n = h \<Longrightarrow> sn_revoked_at n = None \<Longrightarrow> sn_revoked_at (f n) = None" and "unrevoked h db"
  shows "unrevoked h (db\<lparr>ub_sessions := map f (ub_sessions db)\<rparr>)"
proof -
  obtain n where "n \<in> set (ub_sessions db)" "sn_token_hash n = h" "sn_revoked_at n = None"
    using assms(3) by (auto simp: unrevoked_def)
  with assms(1,2) have "f n \<in> f ` set (ub_sessions db)" "sn_token_hash (f n) = h" "sn_revoked_at (f n) = None" by auto
  then show ?thesis by (auto simp: unrevoked_def)
qed

lemma unrevoked_request: "unrevoked h db \<Longrightarrow> unrevoked h (fst (FromRequest m reply now cookie db))"
proof -
  assume a: "unrevoked h db"
  then have "unrevoked h (fst (SessionByHash th now idle db))" for th idle
    unfolding SessionByHash_def Let_def fst_conv by (rule unrevoked_map [rotated 2]) simp_all
  with a show ?thesis using FromRequest_cases [of m reply now cookie db] by metis
qed

lemma unrevoked_where:
  "unrevoked h db \<Longrightarrow> (\<And>n. sn_token_hash n = h \<Longrightarrow> \<not> P n) \<Longrightarrow> unrevoked h (revoke_where now P db)"
  unfolding revoke_where_def by (rule unrevoked_map) simp_all

lemma unrevoked_create: "unrevoked h db \<Longrightarrow> unrevoked h (fst (CreateForUser m w user db))"
  using CreateForUser_cases [of m w user db] by (auto simp: unrevoked_def insert_session_def)

lemma unrevoked_destroy:
  assumes "unrevoked h db" and "reply = NotRun \<or> unsign m c = Some i \<and> h \<noteq> tokenHash m i"
  shows "unrevoked h (Destroy m reply now (Some c) db)"
proof (cases "reply = NotRun")
  case True
  with assms(1) show ?thesis by (simp add: Destroy_def db_call_def split: option.split)
next
  case False
  with assms(2) have i: "unsign m c = Some i" "h \<noteq> tokenHash m i" by simp_all
  have "unrevoked h (RevokeSession now (tokenHash m i) db)"
    unfolding RevokeSession_def by (rule unrevoked_where [OF assms(1)]) (use i(2) in auto)
  with assms(1) i(1) show ?thesis by (cases reply) (simp_all add: Destroy_def db_call_def)
qed

lemma unrevoked_others:
  assumes "unrevoked h db" and "reply = NotRun \<or> h = tokenHash m i"
  shows "unrevoked h (fst (RevokeOtherSessions m reply now i u db))"
proof (cases "reply = NotRun")
  case True
  with assms(1) show ?thesis by (simp add: RevokeOtherSessions_def db_call_def)
next
  case False
  with assms(2) have "unrevoked h (store_RevokeOtherSessions now u (tokenHash m i) db)"
    unfolding store_RevokeOtherSessions_def by (intro unrevoked_where [OF assms(1)]) simp
  with assms(1) show ?thesis by (cases reply) (simp_all add: RevokeOtherSessions_def db_call_def)
qed

lemma accepted_unrevoked:
  assumes "snd (FromRequest m reply now cookie db) = Some s"
  shows "unrevoked (tokenHash m (ss_ID s)) db"
  using session_current [OF assms] by (auto simp: unrevoked_def)

lemma revoke_users [simp]:
  "ub_users (fst (RevokeOtherSessions m reply now i u db)) = ub_users db" "ub_users (Destroy m reply now c db) = ub_users db"
  using RevokeOther_cases [of m reply now i u db] Destroy_cases [of m reply now c db] by (auto simp: revoke_where_def)

lemma password_changed_outcome:
  fixes a :: actor
  assumes run: "password_changed ae w a user password r db = (db', cookies, answer, events)" and ok: "answered_ok answer"
    and own: "sr_cookie r = Some c" "unsign (sv_sessions (ae_server ae)) c = Some (at_Token a)" "us_id user = at_UserID a"
  shows "session_is h (at_UserID a) e db \<Longrightarrow> unrevoked h db \<Longrightarrow>
      (if (if h = tokenHash (sv_sessions (ae_server ae)) (at_Token a) then wo_destroy_reply w else wo_others_reply w) = NotRun
       then unrevoked h db' else session_over h db')"
    and "\<exists>k. HashPassword (IDKey (sv_env (ae_server ae))) (wo_salt w) password = Some k \<and>
      ub_users db' = ub_users (update_user (wo_now w) (at_UserID a) (\<lambda>u. u\<lparr>us_password_hash := k,
        us_password_changed_at := Some (wo_now w), us_force_password_change := False\<rparr>) db)"
    and "\<exists>n \<in> set (ub_sessions db'). \<exists>i. browser_cookie cookies (sr_cookie r) = Some (sign (sv_sessions (ae_server ae)) i) \<and>
      sn_token_hash n = tokenHash (sv_sessions (ae_server ae)) i \<and> sn_user_id n = at_UserID a \<and> sn_revoked_at n = None"
proof -
  let ?m = "sv_sessions (ae_server ae)"
  obtain db1 stored where set: "SetPassword (IDKey (sv_env (ae_server ae))) (wo_set_reply w) (wo_now w) (wo_salt w)
      (at_UserID a) password False db = (db1, stored)" by fastforce
  with run ok have stored: "stored"
    by (cases stored) (auto simp: password_changed_def answered_ok_error resp_ok_def)
  define db2 where "db2 = fst (RevokeOtherSessions ?m (wo_others_reply w) (wo_now w) (at_Token a) (at_UserID a) db1)"
  define db3 where "db3 = destroy_session ae w r db2"
  obtain db4 cs x where create: "create_session ae w user db3 = (db4, cs, x)" by (metis prod_cases3)
  have "x \<noteq> None"
  proof
    assume "x = None"
    with create run ok set stored show False
      by (auto simp: password_changed_def answered_ok_error resp_ok_def case_prod_beta Let_def db2_def db3_def)
  qed
  then obtain s where s: "x = Some s" by blast
  note created = create_session_some [OF create [unfolded s]]
  from create run set stored s have end_state: "db' = db4" "cookies = ClearCookie # cs"
    by (auto simp: password_changed_def case_prod_beta Let_def db2_def db3_def)
  from SetPassword_stored [OF set [unfolded eqTrueI [OF stored]]] obtain k where
    k: "HashPassword (IDKey (sv_env (ae_server ae))) (wo_salt w) password = Some k"
    "db1 = update_user (wo_now w) (at_UserID a) (\<lambda>u. u\<lparr>us_password_hash := k, us_password_changed_at := Some (wo_now w),
      us_force_password_change := False\<rparr>) db" .
  have step1: "session_step ?m db db1" unfolding k(2) by (rule ss_user) (simp add: keeps_id_def)
  have step2: "session_step ?m db1 db2" unfolding db2_def by (rule ss_others)
  have step3: "session_step ?m db2 db3" unfolding db3_def destroy_session_def by (rule ss_destroy)
  have step4: "session_step ?m db3 db4"
    using ss_create [of ?m db3 "wo_create w" user] created(1) by simp
  let ?reply = "if h = tokenHash ?m (at_Token a) then wo_destroy_reply w else wo_others_reply w"
  show "if ?reply = NotRun then unrevoked h db' else session_over h db'"
    if was: "session_is h (at_UserID a) e db" and old: "unrevoked h db"
  proof (cases "?reply = NotRun")
    case True
    from old have "unrevoked h db1" by (simp add: k(2))
    then have "unrevoked h db2" unfolding db2_def using True by (intro unrevoked_others) (auto split: if_splits)
    then have "unrevoked h db3"
      unfolding db3_def destroy_session_def own(1) using True own(2) by (intro unrevoked_destroy) (auto split: if_splits)
    from unrevoked_create [OF this, of ?m "wo_create w" user] created(1) True show ?thesis by (simp add: end_state)
  next
    case ran: False
    have "session_over h db3"
    proof (cases "h = tokenHash ?m (at_Token a)")
      case False
      from others_over [OF is_step [OF step1 was] this] ran False have "session_over h db2" by (simp add: db2_def)
      from over_step [OF step3 this] show ?thesis .
    next
      case True
      from destroy_over [OF own(2)] is_step [OF step2 is_step [OF step1 was]] ran True
      show ?thesis by (simp add: db3_def destroy_session_def own(1))
    qed
    from over_step [OF step4 this] ran show ?thesis by (simp add: end_state)
  qed
  have "ub_users db4 = ub_users db1"
    using created_stored(2) [OF created(1)] by (simp add: db3_def destroy_session_def db2_def)
  with k show "\<exists>k. HashPassword (IDKey (sv_env (ae_server ae))) (wo_salt w) password = Some k \<and>
      ub_users db' = ub_users (update_user (wo_now w) (at_UserID a) (\<lambda>u. u\<lparr>us_password_hash := k,
        us_password_changed_at := Some (wo_now w), us_force_password_change := False\<rparr>) db)" by (auto simp: end_state)
  show "\<exists>n \<in> set (ub_sessions db'). \<exists>i. browser_cookie cookies (sr_cookie r) = Some (sign ?m i) \<and>
      sn_token_hash n = tokenHash ?m i \<and> sn_user_id n = at_UserID a \<and> sn_revoked_at n = None"
    using created_stored(3) [OF created(1)] by (auto simp: end_state created(2) own(3))
qed

lemma change_password_ok:
  assumes run: "handleChangePassword ae w r st = (st', cookies, answer, events)" and ok: "answered_ok answer"
    and header: "sr_header r ''Authorization'' = []"
  shows "\<exists>me body user db'. snd (session_lookup (ae_server ae) (wo_auth w) r st) = Some me \<and>
    decode_body (ae_server ae) [''current_password'', ''new_password''] 4096 r = Inr body \<and>
    us_id user = ss_UserID me \<and> as_db st' = db' \<and>
    password_changed ae w (session_actor me) user (utf8_bytes (body ''new_password'')) r
      (fst (session_lookup (ae_server ae) (wo_auth w) r st)) = (db', cookies, answer, events)"
proof -
  let ?sv = "ae_server ae"
  let ?st = "st\<lparr>as_db := fst (session_lookup ?sv (wo_auth w) r st)\<rparr>"
  note api = requireAPI_no_client [OF no_authorization [OF header], of ?sv "wo_auth w" "''account:manage''" st]
  obtain st1 x where call: "requireAPI ?sv (wo_auth w) ''account:manage'' r st = (st1, x)" by fastforce
  have verb: "sr_method r = ''POST''"
    using run ok by (rule_tac ccontr) (auto simp: handleChangePassword_def Let_def answered_ok_error resp_ok_def)
  have "\<exists>a. x = Inr a"
  proof (cases x)
    case (Inl e)
    with run call verb have "answer = e" by (simp add: handleChangePassword_def Let_def)
    with Inl call requireAPI_refused ok show ?thesis by (cases e) (auto simp: answered_ok_def)
  qed simp
  then obtain a where a: "x = Inr a" by blast
  with call api obtain me where me: "snd (session_lookup ?sv (wo_auth w) r st) = Some me" "a = session_actor me" "st1 = ?st"
    by (auto split: option.splits if_splits)
  obtain body where body: "decode_body ?sv [''current_password'', ''new_password''] 4096 r = Inr body"
  proof (cases "decode_body ?sv [''current_password'', ''new_password''] 4096 r")
    case (Inl e)
    with run verb call a have "answer = e" by (simp add: handleChangePassword_def Let_def)
    with Inl decode_body_refused ok show ?thesis by (cases e) (auto simp: answered_ok_def)
  qed (rule that)
  let ?tried = "Authenticate ae (wo_lookup_reply w) (wo_pick w) (at_Username a) (utf8_bytes (body ''current_password'')) (as_db st1)"
  obtain user where user: "?tried = LoginGranted user"
    using run ok verb call a body
    by (cases ?tried) (auto simp: handleChangePassword_def Let_def answered_ok_error resp_ok_def, simp_all add: answered_ok_def)
  have same: "us_id user = at_UserID a"
    using run ok verb call a body user
    by (rule_tac ccontr) (auto simp: handleChangePassword_def Let_def answered_ok_error resp_ok_def)
  have valid: "ValidateUserPassword ae (utf8_bytes (body ''new_password'')) (sv_app_env ?sv \<noteq> ''development'')"
    using run ok verb call a body user same
    by (rule_tac ccontr) (auto simp: handleChangePassword_def Let_def answered_ok_error resp_ok_def)
  obtain db' cs an ev where changed: "password_changed ae w a user (utf8_bytes (body ''new_password'')) r (as_db st1) =
      (db', cs, an, ev)" by (metis prod_cases4)
  with run verb call a body user same valid have "cookies = cs" "answer = an" "events = ev" "as_db st' = db'"
    by (auto simp: handleChangePassword_def Let_def)
  with me body same changed show ?thesis by auto
qed


section \<open>Logging out\<close>


text \<open>A store that fails to revoke is not noticed: the answers are the same, and the session goes on.\<close>

lemma failed_revocation_unnoticed:
  "snd (handleLogout ae (w\<lparr>wo_destroy_reply := reply\<rparr>) r db) = snd (handleLogout ae w r db)"
  "Destroy m NotRun now c db = db"
  by (auto simp: handleLogout_def Let_def destroy_session_def Destroy_def db_call_def split: option.split prod.split)

text \<open>Revoking the other sessions ends each of them.\<close>

lemma revoke_others_ends:
  assumes "handleRevokeOtherSessions ae w r st = (st', answer, events)" and "answered_ok answer"
    and "sr_header r ''Authorization'' = []" and "wo_others_reply w = Answered" and "user_db_ok (as_db st)"
    and "snd (session_lookup (ae_server ae) (wo_auth w) r st) = Some me"
    and "snd (FromRequest (sv_sessions (ae_server ae)) reply now (Some c) (as_db st)) = Some s" and "ss_UserID s = ss_UserID me"
    and "tokenHash (sv_sessions (ae_server ae)) (ss_ID s) \<noteq> tokenHash (sv_sessions (ae_server ae)) (ss_ID me)"
    and "(session_step (sv_sessions (ae_server ae)))\<^sup>*\<^sup>* (as_db st') later"
  shows "snd (FromRequest (sv_sessions (ae_server ae)) reply' now' (Some c) later) = None"
proof -
  let ?m = "sv_sessions (ae_server ae)"
  let ?db = "fst (session_lookup (ae_server ae) (wo_auth w) r st)"
  note api = requireAPI_no_client [OF no_authorization [OF assms(3)], of "ae_server ae" "wo_auth w" "''account:manage''" st]
  obtain st1 x where call: "requireAPI (ae_server ae) (wo_auth w) ''account:manage'' r st = (st1, x)" by fastforce
  have "\<exists>a. x = Inr a"
  proof (cases x)
    case (Inl e)
    with assms(1,2) call have "answer = e" by (auto simp: handleRevokeOtherSessions_def Let_def answered_ok_error resp_ok_def split: if_splits)
    with Inl call requireAPI_refused assms(2) show ?thesis by (cases e) (auto simp: answered_ok_def)
  qed simp
  with call api assms(6) have x: "x = Inr (session_actor me)" and st1: "st1 = st\<lparr>as_db := ?db\<rparr>" by (auto split: if_splits)
  from assms(1,2) call x st1 have db: "as_db st' = fst (RevokeOtherSessions ?m Answered (wo_now w) (ss_ID me) (ss_UserID me) ?db)"
    by (auto simp: handleRevokeOtherSessions_def Let_def assms(4) answered_ok_error resp_ok_def case_prod_beta split: if_splits)
  note c = accepted_is [OF assms(5,7)]
  have "session_step ?m (as_db st) ?db" unfolding session_lookup_def by (rule ss_request)
  from is_step [OF this c(4)] assms(8) have "session_is (tokenHash ?m (ss_ID s)) (ss_UserID me) (ss_ExpiresAt s) ?db" by simp
  from others_over [OF this assms(9)] have "session_over (tokenHash ?m (ss_ID s)) (as_db st')" by (simp add: db)
  from over_refused [OF over_steps [OF assms(10) this] c(2)] show ?thesis .
qed

section \<open>Samples\<close>

definition sample_account :: account_server where
  "sample_account = \<lparr>ae_server = sample_server, ae_ip_pepper = [3], ae_lower = (\<lambda>s. s), ae_db_lower = (\<lambda>s. s),
     ae_forms = \<lparr>jf_text = text_of_bytes, jf_time = (\<lambda>_. [])\<rparr>\<rparr>"

definition keyed_user :: user_row where
  "keyed_user = sample_user\<lparr>us_password_hash :=
     the (HashPassword sample_idkey (Some (replicate 16 7)) (utf8_bytes (js ''pw'')))\<rparr>"

definition keyed_users :: user_db where
  "keyed_users = \<lparr>ub_users = [keyed_user], ub_sessions = []\<rparr>"

definition keyed_logged_in :: user_db where
  "keyed_logged_in = \<lparr>ub_users = [keyed_user], ub_sessions = ub_sessions sample_logged_in\<rparr>"

definition rotation_bytes :: bytes where
  "rotation_bytes = [6]"

definition rotation :: session_oracle where
  "rotation = \<lparr>so_random = Some rotation_bytes, so_id = Some 10, so_reply = Answered, so_now = 1099, so_db_now = 1099\<rparr>"

definition sample_account_oracle :: account_oracle where
  "sample_account_oracle = \<lparr>wo_auth = sample_auth_oracle, wo_now = 1099, wo_form_ok = True, wo_lookup_reply = Answered,
     wo_pick = 0, wo_salt = Some (replicate 16 7), wo_set_reply = Answered, wo_others_reply = Answered,
     wo_destroy_reply = Answered, wo_create = rotation, wo_touch_reply = Answered\<rparr>"

lemma sample_account_sels [simp]:
  "ae_server sample_account = sample_server" "ae_lower sample_account = (\<lambda>s. s)" "ae_db_lower sample_account = (\<lambda>s. s)"
  "us_id keyed_user = 7" "us_status keyed_user = ''active''" "us_username keyed_user = [65]" "us_role keyed_user = ''developer''"
  "ub_users keyed_users = [keyed_user]" "ub_users keyed_logged_in = [keyed_user]" "sv_app_env sample_server = ''production''"
  by (simp_all add: sample_account_def keyed_user_def keyed_users_def keyed_logged_in_def sample_server_def)

lemma keyed_password: "VerifyPassword sample_idkey (utf8_bytes (js ''pw'')) (us_password_hash keyed_user) = Some True"
proof -
  obtain h where h: "HashPassword sample_idkey (Some (replicate 16 7)) (utf8_bytes (js ''pw'')) = Some h"
    using sample_HashPassword by blast
  have key: "sample_idkey p salt 3 65536 1 32 = Some key \<Longrightarrow> length key = 32" for p salt key
    by (auto simp: sample_idkey_def)
  from password_accepted(1) [OF h key] show ?thesis by (simp add: keyed_user_def h)
qed

lemma keyed_granted:
  assumes "ub_users db = [keyed_user]"
  shows "Authenticate sample_account Answered pick [65] (utf8_bytes (js ''pw'')) db = LoginGranted keyed_user"
proof -
  have "trim_bytes [65] = [65]" by code_simp
  then have "login_matches sample_account [65] keyed_user" by (simp add: login_matches_def NormalizeLogin_def)
  with assms show ?thesis
    by (simp add: Authenticate_def UserForLogin_def db_call_def keyed_password)
qed

lemma rotation_created:
  assumes "ub_users db = [u]" and "us_id u = 7" and "us_id user = 7"
    and "set (ub_sessions db) = {} \<or> (\<exists>n. ub_sessions db = [n] \<and> sn_id n = 9 \<and> sn_token_hash n = tokenHash sample_manager sample_id)"
  shows "\<exists>db' s. CreateForUser sample_manager rotation user db = (db', Some s)"
proof -
  have letters: "URLAlphabet ! Suc 0 = 66" "URLAlphabet ! 16 = 81" "URLAlphabet ! 32 = 103" by code_simp+
  then have digits: "sextet URLAlphabet 328965 262144 = 66" "sextet URLAlphabet 328965 4096 = 81"
    "b64_encode URLAlphabet [6] = [66, 103]"
    by (simp_all add: sextet_def Let_def)
  have "replicate 32 (5 :: byte) = 5 # 5 # 5 # replicate 29 5" by (simp add: numeral_eq_Suc)
  then have "sample_id = [66, 81] @ drop 2 sample_id"
    by (simp only: sample_id_def b64_encode.simps Let_def) (simp add: digits)
  then obtain rest where sid: "sample_id = 66 # 81 # rest" by simp
  have new: "tokenHash sample_manager (b64_encode URLAlphabet rotation_bytes) \<noteq> tokenHash sample_manager sample_id"
    unfolding sid rotation_bytes_def digits(3)
    by (simp add: tokenHash_def sample_mac_def ascii_def) (simp add: sample_manager_def)
  have "length (tokenHash sample_manager link) = 32" for link by (simp add: tokenHash_def)
  with assms new have "\<exists>db'. insert_session 1099 10 7 (tokenHash sample_manager (b64_encode URLAlphabet rotation_bytes)) 2099 1099 db = (db', True)"
    by (auto simp: insert_session_def)
  then obtain db' where "insert_session 1099 10 7 (tokenHash sample_manager (b64_encode URLAlphabet rotation_bytes)) 2099 1099 db =
    (db', True)" ..
  then show ?thesis
    by (simp add: CreateForUser_def rotation_def CreateSession_def db_call_def Let_def assms(3))
qed

definition account_login_page :: login_page where
  "account_login_page = sample_login_page\<lparr>login_form := (\<lambda>k. Some (if k = ''login'' then js ''A'' else js ''pw''))\<rparr>"

lemma account_login_fields:
  "login_fields sample_account w (received None (the (snd (login_submit account_login_page)))) =
     Inr (True, [65], utf8_bytes (js ''pw''))"
proof -
  let ?r = "received None (the (snd (login_submit account_login_page)))"
  let ?body = "obj [(''login'', JStr (js ''A'')), (''password'', JStr (js ''pw''))]"
  let ?names = "[''login'', ''username'', ''email'', ''password'']"
  have "list_all (\<lambda>x. unat x < 0x80) (ascii ''application/json'')" by code_simp
  then have media: "sr_header ?r ''Content-Type'' = ascii ''application/json''"
    using utf8_ascii [of "ascii ''application/json''"]
    by (simp add: received_def login_submit_def json_headers_def text_of_ascii)
  have json: "contains (ascii ''application/json'') (ascii ''application/json'')" by code_simp
  have body: "sr_body ?r = Some ?body"
    by (simp add: received_def login_submit_def account_login_page_def form_string_def string_or_empty_def)
  have bound: "\<not> 2048 < utf8_length (stringify ?body)" and same: "go_text (js ''pw'') = js ''pw''" "go_text (js ''A'') = js ''A''"
    by code_simp+
  have "decodeJSON ?names 2048 ?body = Inr ((\<lambda>_. [])(''login'' := js ''A'', ''password'' := js ''pw''))"
    unfolding decodeJSON_def if_not_P [OF bound] by (simp add: obj_def member_def decode_string_def same)
  moreover have "sv_parse_media sample_server (ascii ''application/json'') = Some ''application/json''"
    by (simp add: sample_server_def)
  ultimately have "decode_body sample_server ?names 2048 ?r = Inr ((\<lambda>_. [])(''login'' := js ''A'', ''password'' := js ''pw''))"
    by (simp add: decode_body_def media body)
  moreover have "utf8_bytes (js ''A'') = [65]" "js ''A'' \<noteq> []" by code_simp+
  ultimately show ?thesis by (simp add: login_fields_def media json)
qed

theorem login_opens_witness:
  "\<exists>answer p1 q. login_submit account_login_page = (p1, Some q) \<and>
     window_actions (login_answer q answer p1) = window_actions account_login_page @ [Assign (js ''/admin'')]"
proof -
  define q where "q = the (snd (login_submit account_login_page))"
  define p1 where "p1 = fst (login_submit account_login_page)"
  have submit: "login_submit account_login_page = (p1, Some q)" by (simp add: p1_def q_def login_submit_def)
  have r: "sr_method (received None q) = ''POST''" "sr_cookie (received None q) = None"
    by (simp_all add: received_def q_def login_submit_def)
  obtain db s where create: "CreateForUser sample_manager rotation keyed_user keyed_users = (db, Some s)"
    using rotation_created [of keyed_users keyed_user keyed_user] by (auto simp: keyed_users_def)
  obtain items' db' cookies answer events where
    run: "handleLogin sample_account sample_account_oracle [] (received None q) Map.empty keyed_users = (items', db', cookies, answer, events)"
    by (metis prod_cases5)
  have world: "wo_lookup_reply sample_account_oracle = Answered" "wo_create sample_account_oracle = rotation"
    by (simp_all add: sample_account_oracle_def)
  have "create_session sample_account sample_account_oracle keyed_user keyed_users =
      (db, [SetCookie (sign sample_manager (ss_ID s))], Some s)"
    using create by (simp add: create_session_def world)
  with run have "cookies = [SetCookie (sign sample_manager (ss_ID s))]"
    by (simp add: handleLogin_def r account_login_fields [folded q_def] Allow_def keyed_granted world login_granted_def Let_def)
  with login_opens [OF submit run] submit show ?thesis by auto
qed

section \<open>A change of password\<close>

definition change_body :: json where
  "change_body = obj [(''current_password'', JStr (js ''pw'')), (''new_password'', JStr (js ''a longer password''))]"

definition change_request :: server_request where
  "change_request = sample_call ''POST'' [] (Some change_body)"

definition keyed_auth :: auth_state where
  "keyed_auth = \<lparr>as_db = keyed_logged_in, as_clients = []\<rparr>"

definition keyed_session :: session where
  "keyed_session = session_of sample_id keyed_user 9 1100 1099"

lemma keyed_accepted:
  "snd (FromRequest sample_manager Answered 1099 (Some (sign sample_manager sample_id)) keyed_logged_in) = Some keyed_session"
proof -
  have "insert_session 100 9 (us_id keyed_user) (tokenHash sample_manager sample_id) 1100 100 keyed_users = (keyed_logged_in, True)"
    by (simp add: insert_session_def keyed_users_def keyed_logged_in_def sample_logged_in_def) (simp add: tokenHash_def)
  moreover have "user_db_ok keyed_users" by (simp add: user_db_ok_def keyed_users_def)
  ultimately have "\<exists>n. snd (SessionByHash (tokenHash sample_manager sample_id) 1099 0 keyed_logged_in) = Some (keyed_user, n) \<and>
      sn_id n = 9 \<and> sn_expires_at n = 1100 \<and> sn_last_seen_at n = 1099"
    using created_found [of 100 9 keyed_user "tokenHash sample_manager sample_id" 1100 100 keyed_users keyed_logged_in 1099 0]
    by (simp add: idle_seconds_def)
  moreover have "unsign sample_manager (sign sample_manager sample_id) = Some sample_id"
    by (rule unsign_sign) (simp_all add: sample_id_def b64_no_dot)
  ultimately show ?thesis by (auto simp: FromRequest_def db_call_def keyed_session_def session_of_def)
qed

lemma keyed_lookup: "snd (session_lookup sample_server sample_auth_oracle change_request keyed_auth) = Some keyed_session"
  using keyed_accepted
  by (simp add: session_lookup_def sample_auth_oracle_def change_request_def sample_call_def keyed_auth_def)

lemma change_decoded:
  "decode_body sample_server [''current_password'', ''new_password''] 4096 change_request =
     Inr ((\<lambda>_. [])(''current_password'' := js ''pw'', ''new_password'' := js ''a longer password''))"
proof -
  have bound: "\<not> 4096 < utf8_length (stringify change_body)"
    by (simp add: change_body_def obj_def join_def text_literals js_append)
  have same: "go_text (js ''pw'') = js ''pw''" "go_text (js ''a longer password'') = js ''a longer password''" by code_simp+
  have "decodeJSON [''current_password'', ''new_password''] 4096 change_body =
      Inr ((\<lambda>_. [])(''current_password'' := js ''pw'', ''new_password'' := js ''a longer password''))"
    unfolding decodeJSON_def if_not_P [OF bound] by (simp add: change_body_def obj_def member_def decode_string_def same)
  moreover have "sv_parse_media sample_server (ascii ''application/json'') = Some ''application/json''"
    by (simp add: sample_server_def)
  ultimately show ?thesis by (simp add: decode_body_def change_request_def sample_call_def)
qed

lemma change_valid: "ValidateUserPassword sample_account (utf8_bytes (js ''a longer password'')) True"
proof -
  let ?s = "utf8_bytes (js ''a longer password'')"
  have "trim_bytes ?s = ?s" "?s \<noteq> []" "\<not> rune_count ?s < 12"
    "?s \<notin> set (map ascii [''change-me'', ''change-me-now'', ''password'', ''password123'', ''admin'', ''admin123'', ''secureshare''])"
    by code_simp+
  then show ?thesis by (simp add: ValidateUserPassword_def Let_def)
qed

text \<open>The one user with the one session, whatever else of them changes.\<close>

definition lone_session :: "user_db \<Rightarrow> bool" where
  "lone_session db \<longleftrightarrow> map us_id (ub_users db) = [7] \<and> map sn_id (ub_sessions db) = [9] \<and>
     map sn_token_hash (ub_sessions db) = [tokenHash sample_manager sample_id]"

lemma lone_steps:
  "lone_session db \<Longrightarrow> lone_session (fst (FromRequest m reply now c db))"
  "lone_session db \<Longrightarrow> lone_session (fst (RevokeOtherSessions m reply now i u db))"
  "lone_session db \<Longrightarrow> lone_session (Destroy m reply now c db)"
  "lone_session db \<Longrightarrow> keeps_id f \<Longrightarrow> lone_session (update_user now k f db)"
proof -
  have map: "lone_session (db\<lparr>ub_sessions := map f (ub_sessions db)\<rparr>) = lone_session db"
    if "\<And>n. sn_id (f n) = sn_id n" "\<And>n. sn_token_hash (f n) = sn_token_hash n" for f db
    by (simp add: lone_session_def comp_def that)
  have revoke: "lone_session (revoke_where now P db) = lone_session db" for now P db
    unfolding revoke_where_def by (rule map) simp_all
  have seen: "lone_session (fst (SessionByHash h now idle db)) = lone_session db" for h now idle db
    unfolding SessionByHash_def Let_def fst_conv by (rule map) simp_all
  show "lone_session db \<Longrightarrow> lone_session (fst (FromRequest m reply now c db))"
    using FromRequest_cases [of m reply now c db] by (auto simp: seen)
  show "lone_session db \<Longrightarrow> lone_session (fst (RevokeOtherSessions m reply now i u db))"
    using RevokeOther_cases [of m reply now i u db] by (auto simp: revoke)
  show "lone_session db \<Longrightarrow> lone_session (Destroy m reply now c db)"
    using Destroy_cases [of m reply now c db] by (auto simp: revoke)
  show "lone_session db \<Longrightarrow> keeps_id f \<Longrightarrow> lone_session (update_user now k f db)"
    by (auto simp: lone_session_def update_user_def keeps_id_def)
qed

lemma lone_created:
  "lone_session db \<Longrightarrow> us_id user = 7 \<Longrightarrow> \<exists>db' s. CreateForUser sample_manager rotation user db = (db', Some s)"
  by (auto simp: lone_session_def map_eq_Cons_conv intro!: rotation_created)

lemma change_answered:
  "\<exists>st' cookies answer events. handleChangePassword sample_account sample_account_oracle change_request keyed_auth =
     (st', cookies, answer, events) \<and> answered_ok answer"
proof -
  let ?db = "fst (session_lookup sample_server sample_auth_oracle change_request keyed_auth)"
  let ?a = "session_actor keyed_session"
  let ?new = "utf8_bytes (js ''a longer password'')"
  have world: "wo_auth sample_account_oracle = sample_auth_oracle" "wo_lookup_reply sample_account_oracle = Answered"
    "wo_create sample_account_oracle = rotation" "wo_set_reply sample_account_oracle = Answered"
    "wo_salt sample_account_oracle = Some (replicate 16 7)" "wo_now sample_account_oracle = 1099"
    by (simp_all add: sample_account_oracle_def)
  have who: "ss_Username keyed_session = [65]" "ss_UserID keyed_session = 7"
    by (simp_all add: keyed_session_def session_of_def)
  have r: "sr_method change_request = ''POST''" "sr_header change_request ''Authorization'' = []"
    "sr_header change_request ''X-CSRF-Token'' = CSRFToken sample_manager sample_id"
    by (simp_all add: change_request_def sample_call_def)
  have api: "requireAPI sample_server sample_auth_oracle ''account:manage'' change_request keyed_auth =
      (keyed_auth\<lparr>as_db := ?db\<rparr>, Inr ?a)"
    by (rule requireAPI_page [OF r(2) keyed_lookup])
      (use r(3) sample_csrf in \<open>simp_all add: keyed_session_def session_of_def permissionsMap_def PermissionsForRole_def\<close>)
  have users: "ub_users ?db = [keyed_user]"
    using FromRequest_cases [of sample_manager "ao_session_reply sample_auth_oracle" "ao_now sample_auth_oracle" "sr_cookie change_request" keyed_logged_in]
    by (auto simp: session_lookup_def keyed_auth_def SessionByHash_def Let_def)
  obtain db' cookies answer events where
    changed: "password_changed sample_account sample_account_oracle ?a keyed_user ?new change_request ?db = (db', cookies, answer, events)"
    by (metis prod_cases4)
  have "?new \<noteq> []" by code_simp
  then obtain h where h: "HashPassword sample_idkey (Some (replicate 16 7)) ?new = Some h"
    by (auto simp: HashPassword_def sample_idkey_def argonIterations_def argonParallelism_def)
  define db1 where "db1 = update_user 1099 7 (\<lambda>u. u\<lparr>us_password_hash := h, us_password_changed_at := Some 1099,
    us_force_password_change := False\<rparr>) ?db"
  have set: "SetPassword sample_idkey Answered 1099 (Some (replicate 16 7)) 7 ?new False ?db = (db1, True)"
    by (simp add: SetPassword_def h db_call_def db1_def)
  have "lone_session keyed_logged_in"
    by (simp add: lone_session_def keyed_logged_in_def sample_logged_in_def keyed_user_def)
  then have "lone_session ?db" unfolding session_lookup_def keyed_auth_def auth_state.simps by (rule lone_steps)
  then have "lone_session db1" unfolding db1_def by (rule lone_steps) (simp add: keeps_id_def)
  then have "lone_session (destroy_session sample_account sample_account_oracle change_request
      (fst (RevokeOtherSessions sample_manager (wo_others_reply sample_account_oracle) 1099 (at_Token ?a) 7 db1)))"
    unfolding destroy_session_def by (intro lone_steps)
  from lone_created [OF this, of keyed_user] changed set have "answered_ok answer"
    by (auto simp: password_changed_def world who create_session_def case_prod_beta Let_def answered_ok_def resp_ok_def)
  with changed show ?thesis
    by (simp add: handleChangePassword_def Let_def r api world change_decoded who keyed_granted users change_valid)
qed



end
