(* ===== verification/LinkList.thy ===== *)
theory LinkList
  imports Management
begin

text \<open>
  The list of links: \<^verbatim>\<open>List\<close> of \<^verbatim>\<open>internal/delivery/repository.go\<close>, the options that \<^verbatim>\<open>internal/http/server.go\<close> reads
  from a query, and the branch of \<^verbatim>\<open>handleSecretLinks\<close> that answers with it. The pattern match \<^verbatim>\<open>ILIKE\<close> and the reading of a
  date are arguments. Rows with the same key are in the order of their ids, so the order is determined.
\<close>

section \<open>The list of links\<close>

record list_options =
  lp_Page :: int
  lp_PageSize :: int
  lp_Status :: bytes
  lp_Search :: bytes
  lp_CreatedFrom :: "int option"
  lp_CreatedTo :: "int option"
  lp_ExpiresFrom :: "int option"
  lp_ExpiresTo :: "int option"
  lp_Sort :: bytes
  lp_Order :: bytes

text \<open>\<^verbatim>\<open>strconv.Atoi\<close>: digits behind a sign, in 64 bits.\<close>

definition Atoi :: "bytes \<Rightarrow> int option" where
  "Atoi s =
     (let negative = (s \<noteq> [] \<and> hd s = byte_of CHR ''-'');
          digits = (if s \<noteq> [] \<and> (hd s = byte_of CHR ''-'' \<or> hd s = byte_of CHR ''+'') then tl s else s);
          n = foldl (\<lambda>n c. 10 * n + (int (unat c) - 48)) 0 digits;
          value = (if negative then - n else n)
      in if digits = [] \<or> \<not> list_all (\<lambda>c. 48 \<le> unat c \<and> unat c \<le> 57) digits then None
         else if value < - (2 ^ 63) \<or> 2 ^ 63 \<le> value then None else Some value)"

definition parsePositiveInt :: "bytes \<Rightarrow> int \<Rightarrow> int" where
  "parsePositiveInt value fallback =
     (if value = [] then fallback
      else (case Atoi value of None \<Rightarrow> fallback | Some n \<Rightarrow> if n \<le> 0 then fallback else n))"

definition parseListOptions :: "(bytes \<Rightarrow> int option) \<Rightarrow> (string \<Rightarrow> bytes) \<Rightarrow> list_options" where
  "parseListOptions parse_day query =
     (let date = (\<lambda>name. if query name = [] then None else parse_day (query name))
      in \<lparr>lp_Page = parsePositiveInt (query ''page'') 1, lp_PageSize = parsePositiveInt (query ''page_size'') 25,
          lp_Status = query ''status'', lp_Search = query ''search'', lp_CreatedFrom = date ''created_from'',
          lp_CreatedTo = date ''created_to'', lp_ExpiresFrom = date ''expires_from'', lp_ExpiresTo = date ''expires_to'',
          lp_Sort = query ''sort'', lp_Order = query ''order''\<rparr>)"

definition normalizeListOptions :: "list_options \<Rightarrow> list_options" where
  "normalizeListOptions opts = opts\<lparr>
     lp_Page := (if lp_Page opts \<le> 0 then 1 else lp_Page opts),
     lp_PageSize := (if lp_PageSize opts \<in> {10, 25, 50, 100} then lp_PageSize opts else 25),
     lp_Status := (if lp_Status opts \<in> set (map ascii [''active'', ''consuming'', ''consumed'', ''expired'', ''revoked''])
                   then lp_Status opts else []),
     lp_Sort := (if lp_Sort opts \<noteq> ascii ''expires_at'' then ascii ''created_at'' else lp_Sort opts),
     lp_Order := (if lp_Order opts \<noteq> ascii ''asc'' then ascii ''desc'' else lp_Order opts),
     lp_Search := trim_bytes (lp_Search opts)\<rparr>"

text \<open>The \<^verbatim>\<open>WHERE\<close> clause; a comparison with \<^verbatim>\<open>NULL\<close> does not hold.\<close>

definition listWhere :: "(bytes \<Rightarrow> bytes \<Rightarrow> bool) \<Rightarrow> list_options \<Rightarrow> delivery_row \<Rightarrow> bool" where
  "listWhere ilike opts r \<longleftrightarrow>
     (let pattern = byte_of CHR ''%'' # lp_Search opts @ [byte_of CHR ''%''];
          matches = (\<lambda>c. case c of None \<Rightarrow> False | Some t \<Rightarrow> ilike t pattern);
          bound = (\<lambda>b P. case b of None \<Rightarrow> True | Some t \<Rightarrow> P t)
      in (lp_Status opts \<noteq> [] \<longrightarrow> ascii (status_text (dr_status r)) = lp_Status opts) \<and>
         (lp_Search opts \<noteq> [] \<longrightarrow> matches (dr_title r) \<or> matches (dr_recipient_reference r)) \<and>
         bound (lp_CreatedFrom opts) (\<lambda>t. t \<le> created_at r) \<and> bound (lp_CreatedTo opts) (\<lambda>t. created_at r \<le> t) \<and>
         bound (lp_ExpiresFrom opts) (\<lambda>t. t \<le> expires_at r) \<and> bound (lp_ExpiresTo opts) (\<lambda>t. expires_at r \<le> t))"

definition sort_column :: "list_options \<Rightarrow> delivery_row \<Rightarrow> int" where
  "sort_column opts r = (if lp_Sort opts = ascii ''expires_at'' then expires_at r else created_at r)"

text \<open>\<^verbatim>\<open>ORDER BY\<close> the column, then \<^verbatim>\<open>id DESC\<close>; sorting is stable.\<close>

definition list_order :: "list_options \<Rightarrow> delivery_table \<Rightarrow> delivery_table" where
  "list_order opts rows =
     sort_key (\<lambda>r. if lp_Order opts = ascii ''asc'' then sort_column opts r else - sort_column opts r)
       (sort_key (\<lambda>r. - uint (dr_id r)) rows)"

record list_result =
  lr_Items :: delivery_table
  lr_Page :: int
  lr_PageSize :: int
  lr_TotalItems :: int
  lr_TotalPages :: int

text \<open>
  Two statements, so two states of the table. The offset is a 64-bit integer; a negative one is an error of the
  database. The quotient of floats that counts the pages is exact below 2 to the 53.
\<close>

definition List_links ::
  "(bytes \<Rightarrow> bytes \<Rightarrow> bool) \<Rightarrow> list_options \<Rightarrow> delivery_table \<Rightarrow> delivery_table \<Rightarrow> list_result option" where
  "List_links ilike options counted rows =
     (let opts = normalizeListOptions options;
          total = int (length (filter (listWhere ilike opts) counted));
          offset = sint (word_of_int ((lp_Page opts - 1) * lp_PageSize opts) :: 64 word)
      in if offset < 0 then None
         else Some \<lparr>lr_Items = take (nat (lp_PageSize opts)) (drop (nat offset)
                        (list_order opts (filter (listWhere ilike opts) rows))),
                    lr_Page = lp_Page opts, lr_PageSize = lp_PageSize opts, lr_TotalItems = total,
                    lr_TotalPages = (total + lp_PageSize opts - 1) div lp_PageSize opts\<rparr>)"

text \<open>The answer, and the branch of \<^verbatim>\<open>handleSecretLinks\<close> for \<^verbatim>\<open>GET\<close>.\<close>

definition list_json :: "json_forms \<Rightarrow> list_result \<Rightarrow> json" where
  "list_json jf res = obj
     [(''items'', JArr (map (metadata_json jf) (lr_Items res))),
      (''pagination'', obj [(''page'', JNum (lr_Page res) 0), (''page_size'', JNum (lr_PageSize res) 0),
         (''total_items'', JNum (lr_TotalItems res) 0), (''total_pages'', JNum (lr_TotalPages res) 0)])]"

definition link_list ::
  "server \<Rightarrow> json_forms \<Rightarrow> auth_oracle \<Rightarrow> db_reply \<Rightarrow> (bytes \<Rightarrow> bytes \<Rightarrow> bool) \<Rightarrow> (bytes \<Rightarrow> int option) \<Rightarrow>
   (string \<Rightarrow> bytes) \<Rightarrow> server_request \<Rightarrow> auth_state \<Rightarrow> delivery_table \<Rightarrow> delivery_table \<Rightarrow> auth_state \<times> fetch_result" where
  "link_list sv jf w reply ilike parse_day query r st counted rows =
     (case requireAPI sv w ''secret:read-metadata'' r st of
        (st', Inl answer) \<Rightarrow> (st', answer)
      | (st', Inr _) \<Rightarrow>
          (st', case snd (db_call reply (rows, List_links ilike (parseListOptions parse_day query) counted rows) rows) of
                  Some (Some res) \<Rightarrow> Answer 200 (Some (list_json jf res))
                | _ \<Rightarrow> writeDeliveryError ErrInternal))"

section \<open>Pages\<close>

definition lex_le :: "('a \<Rightarrow> int) \<Rightarrow> ('a \<Rightarrow> int) \<Rightarrow> 'a \<Rightarrow> 'a \<Rightarrow> bool" where
  "lex_le f g x y \<longleftrightarrow> f x < f y \<or> f x = f y \<and> g x \<le> g y"

lemma lex_insort:
  assumes "sorted_wrt (lex_le f g) zs" and "\<forall>z \<in> set zs. g x \<le> g z"
  shows "sorted_wrt (lex_le f g) (insort_key f x zs)"
  using assms by (induction zs) (auto simp: set_insort_key lex_le_def)

lemma lex_sort: "sorted (map g ys) \<Longrightarrow> sorted_wrt (lex_le f g) (sort_key f ys)"
  by (induction ys) (auto intro!: lex_insort)

text \<open>Before or at: in the order of the list.\<close>

definition listed_before :: "list_options \<Rightarrow> delivery_row \<Rightarrow> delivery_row \<Rightarrow> bool" where
  "listed_before opts r r' \<longleftrightarrow>
     (let c = sort_column opts r; c' = sort_column opts r'
      in (if lp_Order opts = ascii ''asc'' then c < c' else c' < c) \<or> c = c' \<and> dr_id r' \<le> dr_id r)"

lemma list_order_sorted: "sorted_wrt (listed_before opts) (list_order opts rows)"
proof -
  define f where "f r = (if lp_Order opts = ascii ''asc'' then sort_column opts r else - sort_column opts r)" for r
  have "lex_le f (\<lambda>r. - uint (dr_id r)) r r' = listed_before opts r r'" for r r'
    by (auto simp: lex_le_def listed_before_def f_def word_le_def Let_def)
  then have "lex_le f (\<lambda>r. - uint (dr_id r)) = listed_before opts" by (intro ext)
  with lex_sort [OF sorted_sort_key [of "\<lambda>r. - uint (dr_id r)" rows], of f] show ?thesis
    by (simp add: list_order_def f_def [abs_def])
qed

lemma mset_list_order [simp]: "mset (list_order opts rows) = mset rows"
  by (simp add: list_order_def)

lemma concat_pages: "concat (map (\<lambda>k. take s (drop (k * s) xs)) [0..<n]) = take (n * s) xs"
proof (induction n)
  case (Suc n)
  have "take (n * s + s) xs = take (n * s) xs @ take s (drop (n * s) xs)" by (rule take_add)
  with Suc show ?case by (simp add: add.commute)
qed simp

lemma page_size_values:
  "lp_PageSize (normalizeListOptions opts) \<in> {10, 25, 50, 100}"
  by (simp add: normalizeListOptions_def)

lemma normalize_page:
  "0 < k \<Longrightarrow> normalizeListOptions (opts\<lparr>lp_Page := k\<rparr>) = (normalizeListOptions opts)\<lparr>lp_Page := k\<rparr>"
  by (simp add: normalizeListOptions_def)

lemma where_page [simp]:
  "listWhere ilike (opts\<lparr>lp_Page := k\<rparr>) = listWhere ilike opts" "list_order (opts\<lparr>lp_Page := k\<rparr>) = list_order opts"
proof -
  show "listWhere ilike (opts\<lparr>lp_Page := k\<rparr>) = listWhere ilike opts" by (simp add: listWhere_def fun_eq_iff)
  have column: "sort_column (opts\<lparr>lp_Page := k\<rparr>) = sort_column opts" "lp_Order (opts\<lparr>lp_Page := k\<rparr>) = lp_Order opts"
    by (simp_all add: sort_column_def fun_eq_iff)
  show "list_order (opts\<lparr>lp_Page := k\<rparr>) = list_order opts"
    unfolding list_order_def column by (rule refl)
qed

lemma list_page:
  fixes opts :: list_options
  defines "o1 \<equiv> normalizeListOptions opts"
  assumes "int k < 2 ^ 50"
  shows "List_links ilike (opts\<lparr>lp_Page := int k + 1\<rparr>) counted rows =
    Some \<lparr>lr_Items = take (nat (lp_PageSize o1)) (drop (k * nat (lp_PageSize o1)) (list_order o1 (filter (listWhere ilike o1) rows))),
      lr_Page = int k + 1, lr_PageSize = lp_PageSize o1, lr_TotalItems = int (length (filter (listWhere ilike o1) counted)),
      lr_TotalPages = (int (length (filter (listWhere ilike o1) counted)) + lp_PageSize o1 - 1) div lp_PageSize o1\<rparr>"
proof -
  from page_size_values [of opts] have size: "0 < lp_PageSize o1" "lp_PageSize o1 \<le> 100" by (auto simp: o1_def)
  with assms(2) have "int k * lp_PageSize o1 < 2 ^ 50 * 100"
    by (intro mult_less_le_imp_less) auto
  moreover have offset: "0 \<le> int k * lp_PageSize o1" using size by simp
  ultimately have "signed_take_bit 63 (int k * lp_PageSize o1) = int k * lp_PageSize o1"
    by (intro signed_take_bit_int_eq_self) simp_all
  then have "sint (word_of_int (int k * lp_PageSize o1) :: 64 word) = int k * lp_PageSize o1"
    by (simp add: sint_sbintrunc' del: of_int_mult)
  moreover have "nat (int k * lp_PageSize o1) = k * nat (lp_PageSize o1)" by (simp add: nat_mult_distrib)
  ultimately show ?thesis
    using offset by (simp add: List_links_def normalize_page o1_def [symmetric] Let_def not_less [symmetric] del: of_int_mult)
qed

text \<open>C22: Paging through the list shows every link that the filter selects exactly once, in the order asked for: the pages
  from the first to the last one that an answer announces, put together, are the selected links, sorted by the column and
  then by their ids.\<close>

theorem list_pages:
  assumes "length rows < 2 ^ 40"
    and "n = nat (lr_TotalPages (the (List_links ilike opts rows rows)))" and "0 < lp_Page opts" and "lp_Page opts < 2 ^ 50"
    and "pages = concat (map (\<lambda>k. lr_Items (the (List_links ilike (opts\<lparr>lp_Page := int k + 1\<rparr>) rows rows))) [0..<n])"
  shows "mset pages = filter_mset (listWhere ilike (normalizeListOptions opts)) (mset rows) \<and>
    sorted_wrt (listed_before (normalizeListOptions opts)) pages"
proof -
  let ?o = "normalizeListOptions opts"
  let ?hits = "filter (listWhere ilike ?o) rows"
  let ?s = "nat (lp_PageSize ?o)"
  from page_size_values [of opts] have size: "10 \<le> lp_PageSize ?o" by auto
  let ?t = "int (length ?hits)"
  have "opts = opts\<lparr>lp_Page := int (nat (lp_Page opts - 1)) + 1\<rparr>" using assms(3) by simp
  with list_page [of "nat (lp_Page opts - 1)" ilike opts rows rows] assms(3,4)
  have "n = nat ((?t + lp_PageSize ?o - 1) div lp_PageSize ?o)" by (simp add: assms(2))
  moreover have "0 \<le> (?t + lp_PageSize ?o - 1) div lp_PageSize ?o" using size by (simp add: pos_imp_zdiv_nonneg_iff)
  ultimately have n: "int n = (?t + lp_PageSize ?o - 1) div lp_PageSize ?o" by simp
  have "?t + lp_PageSize ?o - 1 = int n * lp_PageSize ?o + (?t + lp_PageSize ?o - 1) mod lp_PageSize ?o"
    unfolding n by (rule div_mult_mod_eq [symmetric])
  moreover have "(?t + lp_PageSize ?o - 1) mod lp_PageSize ?o \<le> lp_PageSize ?o - 1" "0 \<le> (?t + lp_PageSize ?o - 1) mod lp_PageSize ?o"
    using size pos_mod_bound [of "lp_PageSize ?o" "?t + lp_PageSize ?o - 1"] by simp_all
  ultimately have cover: "?t \<le> int n * lp_PageSize ?o" and below: "int n * lp_PageSize ?o \<le> ?t + lp_PageSize ?o - 1" by linarith+
  from cover size have "int (length ?hits) \<le> int (n * ?s)" by simp
  then have enough: "length ?hits \<le> n * ?s" by (simp only: of_nat_le_iff)
  have "int n * 10 \<le> int n * lp_PageSize ?o" using size by (intro mult_left_mono) auto
  moreover have "lp_PageSize ?o \<le> 100" using page_size_values [of opts] by auto
  moreover have "length ?hits < 2 ^ 40"
    by (rule le_less_trans [OF length_filter_le assms(1)])
  ultimately have few: "int n < 2 ^ 50" using below by simp
  then have "pages = concat (map (\<lambda>k. take ?s (drop (k * ?s) (list_order ?o ?hits))) [0..<n])"
    unfolding assms(5) using few by (intro arg_cong [where f = concat] map_cong) (simp_all add: list_page)
  also have "\<dots> = list_order ?o ?hits"
    using enough unfolding concat_pages by (intro take_all) (metis mset_list_order size_mset)
  finally show ?thesis by (simp add: list_order_sorted mset_filter)
qed

section \<open>A sample\<close>

definition first_page :: list_options where
  "first_page = parseListOptions (\<lambda>_. None) (\<lambda>_. [])"

theorem list_pages_witness:
  "\<exists>pages. mset pages = {#own_row, own_row\<lparr>dr_id := 8\<rparr>#} \<and> sorted_wrt (listed_before (normalizeListOptions first_page)) pages"
proof -
  have "trim_bytes [] = []" by code_simp
  then have opts: "lp_Page first_page = 1" "lp_Status (normalizeListOptions first_page) = []" "lp_Search (normalizeListOptions first_page) = []"
    "lp_CreatedFrom (normalizeListOptions first_page) = None" "lp_CreatedTo (normalizeListOptions first_page) = None"
    "lp_ExpiresFrom (normalizeListOptions first_page) = None" "lp_ExpiresTo (normalizeListOptions first_page) = None"
    by (simp_all add: first_page_def parseListOptions_def parsePositiveInt_def normalizeListOptions_def)
  then have "listWhere (\<lambda>_ _. True) (normalizeListOptions first_page) r" for r by (simp add: listWhere_def Let_def)
  with list_pages [of "[own_row, own_row\<lparr>dr_id := 8\<rparr>]", OF _ refl _ _ refl, of first_page "\<lambda>_ _. True"] opts(1)
  show ?thesis by auto
qed

end
