(* ===== verification/AuditTrail.thy ===== *)
theory AuditTrail
  imports LinkList Account
begin

text \<open>
  The audit table: \<^verbatim>\<open>RecordAuditEvent\<close>, \<^verbatim>\<open>RecentActivity\<close>, \<^verbatim>\<open>Dashboard\<close> and the last statement of \<^verbatim>\<open>Cleanup\<close> of
  \<^verbatim>\<open>internal/delivery/repository.go\<close>, over \<^verbatim>\<open>migrations/000002_create_audit_events.sql\<close> and the migrations that extend it;
  the ids of requests in \<^verbatim>\<open>internal/middleware/security.go\<close>; and the timeline of \<^verbatim>\<open>handleSecretPage\<close>. Events of one instant
  are in the order of the table, which is arbitrary.
\<close>

section \<open>The audit trail\<close>

record audit_row =
  au_id :: uuid
  au_delivery_id :: "uuid option"
  au_actor_id :: "bytes option"
  au_event_type :: string
  au_result :: string
  au_ip_hash :: "bytes option"
  au_request_id :: "bytes option"
  au_occurred_at :: int

text \<open>The types that the table admits after the last migration.\<close>

definition audit_types :: "string list" where
  "audit_types = [''secret.created'', ''secret.consumed'', ''secret.revoked'', ''secret.expired'', ''secret.password_failed'',
     ''secret.password_set'', ''secret.password_replaced'', ''secret.password_removed'', ''auth.login_succeeded'',
     ''auth.login_failed'', ''auth.logout'', ''auth.password_changed'', ''user.created'', ''user.updated'', ''user.disabled'',
     ''user.enabled'', ''user.password_reset'', ''session.revoked'', ''api_client.created'', ''api_client.disabled'',
     ''api_client.enabled'', ''api_client.revoked'', ''api_client.secret_rotated'', ''email.settings_updated'',
     ''email.password_updated'', ''email.password_cleared'', ''email.enabled'', ''email.disabled'',
     ''email.connection_test_succeeded'', ''email.connection_test_failed'', ''email.test_delivery_succeeded'',
     ''email.test_delivery_failed'', ''email.delivery_requested'', ''email.delivery_succeeded'', ''email.delivery_failed'',
     ''email.delivery_retry_requested'', ''email.delivery_retry_succeeded'', ''email.delivery_retry_failed'',
     ''email.template_override_used'', ''application.public_locale_updated'']"

record audit_record =
  ar_DeliveryID :: "uuid option"
  ar_ActorID :: bytes
  ar_Type :: string
  ar_Result :: string
  ar_IPHash :: bytes
  ar_RequestID :: bytes

definition emptyDefault :: "string \<Rightarrow> string \<Rightarrow> string" where
  "emptyDefault value fallback = (if value = [] then fallback else value)"

text \<open>
  The insertion, \<open>None\<close> when a constraint or the width of a column refuses it; the database makes the id. The texts are
  valid UTF-8 without a zero byte.
\<close>

definition RecordAuditEvent :: "int \<Rightarrow> uuid \<Rightarrow> audit_record \<Rightarrow> delivery_table \<Rightarrow> audit_row list \<Rightarrow> audit_row list option" where
  "RecordAuditEvent now new_id event rows trail =
     (if new_id \<in> au_id ` set trail \<or> ar_Type event \<notin> set audit_types \<or>
         (case ar_DeliveryID event of None \<Rightarrow> False | Some link \<Rightarrow> link \<notin> dr_id ` set rows) \<or>
         255 < rune_count (ar_ActorID event) \<or> 64 < length (emptyDefault (ar_Result event) ''success'') \<or>
         128 < rune_count (ar_IPHash event) \<or> 128 < rune_count (ar_RequestID event)
      then None
      else Some (trail @ [\<lparr>au_id = new_id, au_delivery_id = ar_DeliveryID event, au_actor_id = emptyToNil (ar_ActorID event),
             au_event_type = ar_Type event, au_result = emptyDefault (ar_Result event) ''success'',
             au_ip_hash = emptyToNil (ar_IPHash event), au_request_id = emptyToNil (ar_RequestID event),
             au_occurred_at = now\<rparr>]))"

text \<open>\<^verbatim>\<open>recordAudit\<close>: an error is only logged.\<close>

definition recordAudit ::
  "db_reply \<Rightarrow> int \<Rightarrow> uuid \<Rightarrow> audit_record \<Rightarrow> delivery_table \<Rightarrow> audit_row list \<Rightarrow> audit_row list" where
  "recordAudit reply now new_id event rows trail =
     (case RecordAuditEvent now new_id (event\<lparr>ar_Result := emptyDefault (ar_Result event) ''success''\<rparr>) rows trail of
        None \<Rightarrow> trail
      | Some trail' \<Rightarrow> fst (db_call reply (trail', ()) trail))"

section \<open>Activity\<close>

record activity_event =
  ve_EventID :: uuid
  ve_Type :: string
  ve_DeliveryID :: uuid
  ve_Title :: bytes
  ve_RecipientReference :: bytes
  ve_Status :: string
  ve_ActorID :: bytes
  ve_Result :: string
  ve_IPHash :: bytes
  ve_RequestID :: bytes
  ve_OccurredAt :: int
  ve_ConsumedAt :: "int option"
  ve_RevokedAt :: "int option"

definition coalesce :: "'a \<Rightarrow> 'a option \<Rightarrow> 'a" where
  "coalesce d c = (case c of None \<Rightarrow> d | Some x \<Rightarrow> x)"

text \<open>A row of the \<^verbatim>\<open>LEFT JOIN\<close>; ids are unique.\<close>

definition activity_of :: "delivery_table \<Rightarrow> audit_row \<Rightarrow> activity_event" where
  "activity_of rows a =
     (let d = (case au_delivery_id a of None \<Rightarrow> None | Some link \<Rightarrow> find (\<lambda>r. dr_id r = link) rows);
          column = (\<lambda>f. case d of None \<Rightarrow> [] | Some r \<Rightarrow> coalesce [] (f r))
      in \<lparr>ve_EventID = au_id a, ve_Type = au_event_type a, ve_DeliveryID = coalesce 0 (au_delivery_id a),
          ve_Title = column dr_title, ve_RecipientReference = column dr_recipient_reference,
          ve_Status = (case d of None \<Rightarrow> [] | Some r \<Rightarrow> status_text (dr_status r)),
          ve_ActorID = coalesce [] (au_actor_id a), ve_Result = au_result a, ve_IPHash = coalesce [] (au_ip_hash a),
          ve_RequestID = coalesce [] (au_request_id a), ve_OccurredAt = au_occurred_at a,
          ve_ConsumedAt = (case d of None \<Rightarrow> None | Some r \<Rightarrow> consumed_at r),
          ve_RevokedAt = (case d of None \<Rightarrow> None | Some r \<Rightarrow> revoked_at r)\<rparr>)"

definition RecentActivity :: "int \<Rightarrow> delivery_table \<Rightarrow> audit_row list \<Rightarrow> activity_event list" where
  "RecentActivity limit rows trail =
     (let n = (if limit \<le> 0 \<or> 50 < limit then 8 else limit)
      in map (activity_of rows) (take (nat n) (sort_key (\<lambda>a. - au_occurred_at a) trail)))"

text \<open>The timeline of a link on its page; after an error of the query it is empty.\<close>

definition timeline :: "db_reply \<Rightarrow> uuid \<Rightarrow> delivery_table \<Rightarrow> audit_row list \<Rightarrow> activity_event list" where
  "timeline reply link rows trail =
     (let events = (case snd (db_call reply (trail, RecentActivity 20 rows trail) trail) of None \<Rightarrow> [] | Some es \<Rightarrow> es)
      in filter (\<lambda>e. ve_DeliveryID e = link) events)"

record dashboard_stats =
  dt_ActiveCount :: nat
  dt_ConsumedCount :: nat
  dt_ExpiredCount :: nat
  dt_RevokedCount :: nat
  dt_CreatedToday :: nat
  dt_ConsumedToday :: nat
  dt_RecentActivity :: "activity_event list"

text \<open>Three statements, so three states; \<open>day\<close> is \<^verbatim>\<open>date_trunc('day', NOW())\<close>.\<close>

definition Dashboard :: "int \<Rightarrow> delivery_table \<Rightarrow> delivery_table \<Rightarrow> delivery_table \<Rightarrow> audit_row list \<Rightarrow> dashboard_stats" where
  "Dashboard day rows1 rows2 rows3 trail =
     (let count = (\<lambda>s. length (filter (\<lambda>r. dr_status r = s) rows1))
      in \<lparr>dt_ActiveCount = count Active + count Consuming, dt_ConsumedCount = count Consumed,
          dt_ExpiredCount = count Expired, dt_RevokedCount = count Revoked,
          dt_CreatedToday = length (filter (\<lambda>r. day \<le> created_at r) rows2),
          dt_ConsumedToday = length (filter (\<lambda>r. case consumed_at r of None \<Rightarrow> False | Some t \<Rightarrow> day \<le> t) rows2),
          dt_RecentActivity = RecentActivity 8 rows3 trail\<rparr>)"

section \<open>The whole cleanup\<close>

definition cleanup_audit :: "int \<Rightarrow> int \<Rightarrow> audit_row list \<Rightarrow> audit_row list \<times> nat" where
  "cleanup_audit now retention trail =
     (let old = (\<lambda>a. au_occurred_at a \<le> now - 1000000 * retention)
      in (filter (\<lambda>a. \<not> old a) trail, length (filter old trail)))"

text \<open>One transaction over both tables: all of it or nothing, and the answer may be lost.\<close>

definition Cleanup_all ::
  "db_reply \<Rightarrow> int \<Rightarrow> int \<Rightarrow> retention \<Rightarrow> int \<Rightarrow> delivery_table \<times> audit_row list \<Rightarrow>
   (delivery_table \<times> audit_row list) \<times> (nat \<times> nat \<times> nat \<times> nat) option" where
  "Cleanup_all reply now lease ret audit_retention state =
     (let (rows', expired, restored, cleared) = Cleanup now lease ret (fst state);
          (trail', deleted) = cleanup_audit now audit_retention (snd state)
      in db_call reply ((rows', trail'), (expired, cleared, restored, deleted)) state)"

definition handleManualCleanup ::
  "server \<Rightarrow> auth_oracle \<Rightarrow> db_reply \<Rightarrow> int \<Rightarrow> retention \<Rightarrow> int \<Rightarrow> server_request \<Rightarrow> auth_state \<Rightarrow>
   delivery_table \<times> audit_row list \<Rightarrow>
   auth_state \<times> (delivery_table \<times> audit_row list) \<times> fetch_result \<times> audit_event list" where
  "handleManualCleanup sv w reply now ret audit_retention r st state =
     (if sr_method r \<noteq> ''POST'' then (st, state, writeError ''INVALID_REQUEST'' ''Method not allowed.'' 405, [])
      else
        (case requireAPI sv w ''system:cleanup'' r st of
           (st', Inl answer) \<Rightarrow> (st', state, answer, [])
         | (st', Inr a) \<Rightarrow>
             (case Cleanup_all reply now (ConsumingLeaseTTL (sv_env sv)) ret audit_retention state of
                (state', None) \<Rightarrow> (st', state', writeDeliveryError ErrInternal, [])
              | (state', Some (expired, cleared, restored, deleted)) \<Rightarrow>
                  (st', state', Answer 200 (Some (obj
                     [(''cleanup'', obj [(''expired'', JNum (int expired) 0), (''payloads_cleared'', JNum (int cleared) 0),
                        (''leases_restored'', JNum (int restored) 0), (''audit_deleted'', JNum (int deleted) 0)]),
                      (''ok'', JBool True)])),
                   [account_audit (at_ActorID a) ''secret.expired'' ''manual_cleanup'']))))"

section \<open>Which requests are recorded\<close>

text \<open>The request id that \<^verbatim>\<open>Logging\<close> of \<^verbatim>\<open>internal/middleware/security.go\<close> gives a request.\<close>

definition request_id :: "bytes \<Rightarrow> server_request \<Rightarrow> bytes" where
  "request_id generated r = (if sr_header r ''X-Request-ID'' = [] then generated else sr_header r ''X-Request-ID'')"

definition audit_record_of :: "bytes \<Rightarrow> bytes \<Rightarrow> audit_event \<Rightarrow> audit_record" where
  "audit_record_of ip rid e = \<lparr>ar_DeliveryID = ae_delivery e, ar_ActorID = ae_actor e, ar_Type = ae_type e,
     ar_Result = ae_result e, ar_IPHash = ip, ar_RequestID = rid\<rparr>"

text \<open>What a handler leaves of its events, with the hash of the address and the id of its request.\<close>

record audit_oracle =
  uo_reply :: db_reply
  uo_now :: int
  uo_id :: uuid
  uo_generated :: bytes
  uo_ip_hash :: bytes

definition record_events ::
  "audit_oracle \<Rightarrow> server_request \<Rightarrow> audit_event list \<Rightarrow> delivery_table \<Rightarrow> audit_row list \<Rightarrow> audit_row list" where
  "record_events u r events rows trail =
     fold (\<lambda>e. recordAudit (uo_reply u) (uo_now u) (uo_id u) (audit_record_of (uo_ip_hash u) (request_id (uo_generated u) r) e) rows)
       events trail"

definition with_request_id :: "bytes \<Rightarrow> server_request \<Rightarrow> server_request" where
  "with_request_id v r = r\<lparr>sr_header := (sr_header r)(''X-Request-ID'' := v)\<rparr>"

lemma with_request_id_sels [simp]:
  "sr_method (with_request_id v r) = sr_method r" "sr_path (with_request_id v r) = sr_path r"
  "sr_cookie (with_request_id v r) = sr_cookie r" "sr_form (with_request_id v r) = sr_form r"
  "sr_body (with_request_id v r) = sr_body r" "sr_tls (with_request_id v r) = sr_tls r"
  "h \<noteq> ''X-Request-ID'' \<Longrightarrow> sr_header (with_request_id v r) h = sr_header r h"
  "sr_header (with_request_id v r) ''X-Request-ID'' = v"
  by (simp_all add: with_request_id_def)

lemma request_id_unread:
  "requireAPI sv w permission (with_request_id v r) st = requireAPI sv w permission r st"
  "decode_body sv names limit (with_request_id v r) = decode_body sv names limit r"
proof -
  have header: "sr_header (with_request_id v r) ''Authorization'' = sr_header r ''Authorization''"
    "sr_header (with_request_id v r) ''Content-Type'' = sr_header r ''Content-Type''" by simp_all
  have https: "requestHTTPS (with_request_id v r) = requestHTTPS r" by (simp add: requestHTTPS_def)
  have actor: "apiClientActor sv w permission (with_request_id v r) st = apiClientActor sv w permission r st"
    unfolding apiClientActor_def header https ..
  have key: "key_accepted sv (with_request_id v r) = key_accepted sv r"
    unfolding key_accepted_def bearerToken_def header ..
  have csrf: "csrfTokenFromRequest (with_request_id v r) = csrfTokenFromRequest r"
    by (simp add: csrfTokenFromRequest_def)
  show "requireAPI sv w permission (with_request_id v r) st = requireAPI sv w permission r st"
    unfolding requireAPI_def actor key csrf with_request_id_sels ..
  show "decode_body sv names limit (with_request_id v r) = decode_body sv names limit r"
    unfolding decode_body_def header with_request_id_sels ..
qed

lemma link_request_id:
  "handleSecretLinkByID sv jf w (with_request_id v r) st rows = handleSecretLinkByID sv jf w r st rows"
  unfolding handleSecretLinkByID_def link_metadata_def link_revoke_def link_password_def request_id_unread
    with_request_id_sels ..

lemma long_id_refused: "128 < rune_count (ar_RequestID event) \<Longrightarrow> recordAudit reply now i event rows trail = trail"
  by (simp add: recordAudit_def RecordAuditEvent_def)

lemma event_recorded:
  assumes "ae_type e \<in> set audit_types" and "ae_delivery e = Some link" and "link \<in> dr_id ` set rows"
    and "rune_count (ae_actor e) \<le> 255" and "length (ae_result e) \<le> 64" and "ae_result e \<noteq> []"
    and "rune_count (uo_ip_hash u) \<le> 128" and "rune_count (request_id (uo_generated u) r) \<le> 128"
    and "uo_id u \<notin> au_id ` set trail" and "uo_reply u = Answered"
  shows "record_events u r [e] rows trail = trail @ [\<lparr>au_id = uo_id u, au_delivery_id = Some link,
    au_actor_id = emptyToNil (ae_actor e), au_event_type = ae_type e, au_result = ae_result e,
    au_ip_hash = emptyToNil (uo_ip_hash u), au_request_id = emptyToNil (request_id (uo_generated u) r),
    au_occurred_at = uo_now u\<rparr>]"
  using assms
  by (simp add: record_events_def recordAudit_def RecordAuditEvent_def audit_record_of_def db_call_def emptyDefault_def)

text \<open>C23: Whoever manages a link decides whether that is recorded. The id of a request is taken from its header, through the proxy of the
  repository too, and a long one does not fit the audit table, whose errors are only logged: with a header of more than 128
  characters every request does and answers the same, and nothing of it
  is recorded, whatever the table of links is by then.\<close>

theorem audit_suppressed:
  assumes "handleSecretLinkByID sv jf w r st rows = (st', rows', answer, events)" and "128 < rune_count long"
  shows "handleSecretLinkByID sv jf w (with_request_id long r) st rows = (st', rows', answer, events) \<and>
    record_events u (with_request_id long r) events rows2 trail = trail"
proof
  show "handleSecretLinkByID sv jf w (with_request_id long r) st rows = (st', rows', answer, events)"
    by (simp add: link_request_id assms(1))
  have "long \<noteq> []" using assms(2) by (auto simp: rune_count_def)
  then have "recordAudit (uo_reply u) (uo_now u) (uo_id u)
      (audit_record_of (uo_ip_hash u) (request_id (uo_generated u) (with_request_id long r)) e) rows2 trail = trail" for e trail
    using assms(2) by (intro long_id_refused) (simp add: audit_record_of_def request_id_def)
  then show "record_events u (with_request_id long r) events rows2 trail = trail"
    unfolding record_events_def by (induction events) simp_all
qed

section \<open>What is shown of the trail\<close>

text \<open>The first of a list sorted by \<open>f\<close>, with ties in any order.\<close>

lemma newest_taken:
  fixes f :: "'a \<Rightarrow> int"
  assumes "sorted_wrt (\<lambda>x y. f y \<le> f x) xs" and "distinct xs" and "a \<in> set xs"
  shows "k \<le> length (filter (\<lambda>b. f a < f b) xs) \<Longrightarrow> a \<notin> set (take k xs)"
    and "length (filter (\<lambda>b. b \<noteq> a \<and> f a \<le> f b) xs) < k \<Longrightarrow> a \<in> set (take k xs)"
proof -
  have "(k \<le> length (filter (\<lambda>b. f a < f b) xs) \<longrightarrow> a \<notin> set (take k xs)) \<and>
    (length (filter (\<lambda>b. b \<noteq> a \<and> f a \<le> f b) xs) < k \<longrightarrow> a \<in> set (take k xs))"
    using assms
  proof (induction xs arbitrary: k)
    case (Cons x xs)
    show ?case
    proof (cases k)
      case (Suc j)
      show ?thesis
      proof (cases "a = x")
        case True
        with Cons.prems(1) have "filter (\<lambda>b. f a < f b) xs = []" by (auto simp: filter_empty_conv)
        with True Suc show ?thesis by simp
      next
        case False
        with Cons.prems have "a \<in> set xs" "f a \<le> f x" "distinct xs" "sorted_wrt (\<lambda>x y. f y \<le> f x) xs" by auto
        with Cons.IH [of j] False Suc show ?thesis by (auto split: if_splits)
      qed
    qed simp
  qed simp
  then show "k \<le> length (filter (\<lambda>b. f a < f b) xs) \<Longrightarrow> a \<notin> set (take k xs)"
    and "length (filter (\<lambda>b. b \<noteq> a \<and> f a \<le> f b) xs) < k \<Longrightarrow> a \<in> set (take k xs)" by blast+
qed

lemma newest_first: "sorted_wrt (\<lambda>x y. au_occurred_at y \<le> au_occurred_at x) (sort_key (\<lambda>a. - au_occurred_at a) trail)"
  using sorted_sort_key [of "\<lambda>a. - au_occurred_at a" trail] by (simp add: sorted_wrt_map)

text \<open>C24: The timeline on the page of a link is a window of twenty on the whole audit trail, the events of the other links and those of
  no link, such as logins, included: an event of the link is not shown when twenty events of the trail are newer, and it is shown when
  fewer than twenty others are as new as it or newer (between the two, with events of the same instant, the order of
  the database decides). So twenty later logins empty the timeline, while the trail keeps its events.\<close>

theorem timeline_window:
  assumes "distinct (map au_id trail)" and "a \<in> set trail" and "au_delivery_id a = Some link"
  shows "(20 \<le> length (filter (\<lambda>b. au_occurred_at a < au_occurred_at b) trail) \<longrightarrow>
      au_id a \<notin> ve_EventID ` set (timeline Answered link rows trail)) \<and>
    (length (filter (\<lambda>b. b \<noteq> a \<and> au_occurred_at a \<le> au_occurred_at b) trail) < 20 \<longrightarrow>
      au_id a \<in> ve_EventID ` set (timeline Answered link rows trail))"
proof -
  let ?xs = "sort_key (\<lambda>a. - au_occurred_at a) trail"
  have shown: "ve_EventID (activity_of rows b) = au_id b" "ve_DeliveryID (activity_of rows b) = coalesce 0 (au_delivery_id b)" for b
    by (simp_all add: activity_of_def Let_def)
  have "b = a" if "b \<in> set (take 20 ?xs)" "au_id b = au_id a" for b
    using that assms(1,2) in_set_takeD [OF that(1)] by (auto simp: distinct_map inj_on_def)
  then have shown_iff: "au_id a \<in> ve_EventID ` set (timeline Answered link rows trail) \<longleftrightarrow> a \<in> set (take 20 ?xs)"
    using assms(3) shown
    by (auto simp: timeline_def RecentActivity_def db_call_def coalesce_def image_iff intro!: bexI [of _ a])
  have count: "length (filter P ?xs) = length (filter P trail)" for P
  proof (rule mset_eq_length)
    show "mset (filter P ?xs) = mset (filter P trail)" by (simp add: mset_filter)
  qed
  have "distinct trail" using assms(1) by (simp add: distinct_map)
  then have "distinct ?xs" "a \<in> set ?xs" using assms(2) by simp_all
  from newest_taken [OF newest_first this, of 20] show ?thesis unfolding count shown_iff by blast
qed

lemma dashboard_counts:
  "dt_ActiveCount s + dt_ConsumedCount s + dt_ExpiredCount s + dt_RevokedCount s = length rows1"
  if "s = Dashboard day rows1 rows2 rows3 trail"
proof -
  have "length (filter (\<lambda>r. dr_status r = Active) rows) + length (filter (\<lambda>r. dr_status r = Consuming) rows) +
      length (filter (\<lambda>r. dr_status r = Consumed) rows) + length (filter (\<lambda>r. dr_status r = Expired) rows) +
      length (filter (\<lambda>r. dr_status r = Revoked) rows) = length rows" for rows :: delivery_table
  proof (induction rows)
    case (Cons r rows)
    then show ?case by (cases "dr_status r") simp_all
  qed simp
  with that show ?thesis by (simp add: Dashboard_def Let_def)
qed

text \<open>The cleanup deletes the events past the retention and no others, and never one without the rest of its work.\<close>

lemma Cleanup_all_trail:
  assumes "Cleanup_all reply now lease ret keep (rows, trail) = ((rows', trail'), result)"
  shows "(rows', trail') = (rows, trail) \<and> result = None \<or>
    rows' = fst (Cleanup now lease ret rows) \<and> (\<forall>a. a \<in> set trail' \<longleftrightarrow> a \<in> set trail \<and> now - 1000000 * keep < au_occurred_at a)"
  using assms
  by (cases reply) (auto simp: Cleanup_all_def cleanup_audit_def db_call_def Let_def split: prod.splits)

section \<open>Samples\<close>

definition sample_trail :: "audit_row list" where
  "sample_trail = map (\<lambda>t. \<lparr>au_id = word_of_int (int t), au_delivery_id = (if t = 0 then Some 7 else None), au_actor_id = None,
     au_event_type = ''auth.login_failed'', au_result = ''unauthorized'', au_ip_hash = None, au_request_id = None,
     au_occurred_at = int t\<rparr>) [0..<21]"

theorem timeline_window_witness:
  "0 \<notin> ve_EventID ` set (timeline Answered 7 [own_row] sample_trail)"
proof -
  have upt: "[0..<21] = [0, 1, 2, 3, 4, 5, 6, 7, 8, 9, 10, 11, 12, 13, 14, 15, 16, 17, 18, 19, 20 :: nat]" by code_simp
  let ?a = "hd sample_trail"
  have "distinct (map au_occurred_at sample_trail)" "distinct (map au_id sample_trail)" "?a \<in> set sample_trail"
    "au_delivery_id ?a = Some 7" "au_id ?a = 0"
    "\<not> length (filter (\<lambda>b. au_occurred_at ?a < au_occurred_at b) sample_trail) < 20"
    by (simp_all add: sample_trail_def upt)
  with timeline_window [of sample_trail ?a 7 "[own_row]"] show ?thesis by simp
qed

definition sample_audit :: audit_oracle where
  "sample_audit = \<lparr>uo_reply = Answered, uo_now = 5, uo_id = 1, uo_generated = [65], uo_ip_hash = [66]\<rparr>"

theorem audit_suppressed_witness:
  "\<exists>events. events \<noteq> [] \<and>
     record_events sample_audit (received sample_cookie password_call) events [own_row] [] \<noteq> [] \<and>
     record_events sample_audit (with_request_id (replicate 129 65) (received sample_cookie password_call)) events [own_row] [] = []"
proof -
  let ?e = "audit 7 [65] ''secret.password_set'' ''success''" and ?r = "received sample_cookie password_call"
  obtain st' rows' answer where run: "handleSecretLinkByID sample_server sample_forms sample_link_oracle ?r sample_auth [own_row] =
      (st', rows', answer, [?e])"
    using password_call_answer [of sample_forms] by blast
  have "128 < rune_count (replicate 129 65)" by (simp add: rune_count_def)
  note silent = audit_suppressed [OF run this, of sample_audit "[own_row]" "[]"]
  have "rune_count (request_id (uo_generated sample_audit) ?r) \<le> 128"
    by (simp add: request_id_def received_def password_call_def json_call_def csrfHeaders_def json_headers_def sample_audit_def
        rune_count_def Let_def)
  then have "record_events sample_audit ?r [?e] [own_row] [] \<noteq> []"
    using event_recorded [of ?e 7 "[own_row]" sample_audit ?r "[]"]
    by (simp add: audit_def audit_types_def rune_count_def sample_audit_def own_row_def sample_delivery_def)
  with silent show ?thesis by blast
qed

end
